(* ===== verification/Prelude.thy ===== *)
theory Prelude
  imports Main "HOL-Library.Sublist" "HOL-Library.Multiset"
begin
text \<open>
  Shared vocabulary of the development: the Python errors the scripts can raise, a bind
  for the error monad \<open>py_error + 'a\<close>, and the Python string primitives that every
  component uses (\<open>in\<close> on strings, \<open>startswith\<close>, \<open>lower\<close>, \<open>strip\<close>,
  \<open>split\<close>, slicing, \<open>str(int)\<close>, \<open>isdigit\<close>, and the leftmost search of \<open>re.search\<close>).

  Strings are \<open>char list\<close>s; a \<open>char\<close> stands for a Unicode code point below 256
  (Latin-1), and the character classes below (\<open>isspace\<close>, \<open>lower\<close>, \<open>\w\<close>,
  \<open>isdigit\<close>) are Python's classes restricted to that range, exactly.
\<close>

named_theorems py_simps "evaluation rules of the Python primitives"

section \<open>Errors\<close>

datatype py_error = AttributeError | TypeError | ValueError | KeyError

definition sbind :: "'e + 'a \<Rightarrow> ('a \<Rightarrow> 'e + 'b) \<Rightarrow> 'e + 'b" where
  "sbind r f = (case r of Inl e \<Rightarrow> Inl e | Inr a \<Rightarrow> f a)"

section \<open>Prefix and substring tests\<close>

text \<open>\<open>s.startswith(p)\<close>\<close>

fun starts_with :: "string \<Rightarrow> string \<Rightarrow> bool" where
  "starts_with s [] = True"
| "starts_with [] (c # cs) = False"
| "starts_with (x # xs) (c # cs) = (x = c \<and> starts_with xs cs)"

text \<open>\<open>p in s\<close> for two strings: a scan over the start positions of \<open>s\<close>.\<close>

fun str_in :: "string \<Rightarrow> string \<Rightarrow> bool" where
  "str_in p [] = (p = [])"
| "str_in p (c # s) = (starts_with (c # s) p \<or> str_in p s)"

section \<open>Character classes\<close>

text \<open>\<open>str.isspace\<close> on one code point below 256.\<close>

definition py_isspace :: "char \<Rightarrow> bool" where
  "py_isspace c = (let n = of_char c :: nat in
     (9 \<le> n \<and> n \<le> 13) \<or> (28 \<le> n \<and> n \<le> 32) \<or> n = 133 \<or> n = 160)"

text \<open>\<open>str.lower\<close>: ASCII and Latin-1 capitals move up by 32 (not the sign \<open>\<times>\<close>).\<close>

definition lower_char :: "char \<Rightarrow> char" where
  "lower_char c = (let n = of_char c :: nat in
     if (65 \<le> n \<and> n \<le> 90) \<or> (192 \<le> n \<and> n \<le> 222 \<and> n \<noteq> 215) then char_of (n + 32) else c)"

definition py_lower :: "string \<Rightarrow> string" where
  "py_lower s = map lower_char s"

text \<open>\<open>\d\<close> of \<open>re\<close> (Unicode decimal digits: only ASCII below 256).\<close>

definition is_decimal :: "char \<Rightarrow> bool" where
  "is_decimal c = (let n = of_char c :: nat in 48 \<le> n \<and> n \<le> 57)"

text \<open>\<open>str.isdigit\<close> also accepts the superscripts two, three and one.\<close>

definition py_isdigit_char :: "char \<Rightarrow> bool" where
  "py_isdigit_char c = (is_decimal c \<or> of_char c \<in> {178, 179, 185 :: nat})"

text \<open>\<open>\w\<close> of \<open>re\<close> on a \<open>str\<close> pattern: alphanumerics in Unicode's sense and \<open>_\<close>.\<close>

definition is_word_char :: "char \<Rightarrow> bool" where
  "is_word_char c = (let n = of_char c :: nat in
     (48 \<le> n \<and> n \<le> 57) \<or> (65 \<le> n \<and> n \<le> 90) \<or> n = 95 \<or> (97 \<le> n \<and> n \<le> 122)
     \<or> n \<in> {170, 178, 179, 181, 185, 186, 188, 189, 190}
     \<or> (192 \<le> n \<and> n \<le> 255 \<and> n \<noteq> 215 \<and> n \<noteq> 247))"

section \<open>strip, slicing\<close>

definition py_strip :: "string \<Rightarrow> string" where
  "py_strip s = rev (dropWhile py_isspace (rev (dropWhile py_isspace s)))"

text \<open>\<open>xs[-n:]\<close> for \<open>n \<ge> 0\<close>.\<close>

definition last_n :: "nat \<Rightarrow> 'a list \<Rightarrow> 'a list" where
  "last_n n xs = drop (length xs - n) xs"

section \<open>Leftmost search of re.search\<close>

text \<open>
  \<open>re.search(pattern, s)\<close> tries the pattern at positions 0, 1, \<dots>, \<open>len(s)\<close> and
  returns the first match. A pattern anchored at the start of its argument is a function
  \<open>string \<Rightarrow> 'a option\<close> (the captured groups, or no match); the search runs it on
  every suffix in turn.
\<close>

fun re_search :: "(string \<Rightarrow> 'a option) \<Rightarrow> string \<Rightarrow> 'a option" where
  "re_search m [] = m []"
| "re_search m (c # s) = (case m (c # s) of Some r \<Rightarrow> Some r | None \<Rightarrow> re_search m s)"

section \<open>split and join\<close>

text \<open>
  \<open>s.split(sep)\<close> for a non-empty separator: the occurrences of \<open>sep\<close> are found left
  to right without overlap; the pieces between them are returned, the accumulator holds the
  current piece reversed. (Python raises \<open>ValueError\<close> on an empty separator; every call
  in the scripts passes a non-empty literal.)
\<close>

function split_aux :: "string \<Rightarrow> string \<Rightarrow> string \<Rightarrow> string list" where
  "split_aux sep acc [] = [rev acc]"
| "split_aux sep acc (c # s) =
     (if sep \<noteq> [] \<and> starts_with (c # s) sep
      then rev acc # split_aux sep [] (drop (length sep) (c # s))
      else split_aux sep (c # acc) s)"
  by pat_completeness auto

termination
  by (relation "measure (\<lambda>(sep, acc, s). length s)") auto

definition str_split :: "string \<Rightarrow> string \<Rightarrow> string list" where
  "str_split sep s = split_aux sep [] s"

text \<open>\<open>sep.join(xs)\<close>\<close>

fun py_join :: "string \<Rightarrow> string list \<Rightarrow> string" where
  "py_join sep [] = []"
| "py_join sep [x] = x"
| "py_join sep (x # y # ys) = x @ sep @ py_join sep (y # ys)"

section \<open>Decimal numbers\<close>

text \<open>\<open>str(n)\<close> for \<open>n \<ge> 0\<close>, and the value of a string of ASCII digits (\<open>int(s)\<close>).\<close>

definition digit_char :: "nat \<Rightarrow> char" where
  "digit_char d = char_of (48 + d)"

fun nat_str :: "nat \<Rightarrow> string" where
  "nat_str n = (if n < 10 then [digit_char n] else nat_str (n div 10) @ [digit_char (n mod 10)])"

declare nat_str.simps [simp del]

definition int_str :: "int \<Rightarrow> string" where
  "int_str i = (if i < 0 then CHR ''-'' # nat_str (nat (- i)) else nat_str (nat i))"

definition digits_value :: "string \<Rightarrow> nat" where
  "digits_value s = foldl (\<lambda>acc c. 10 * acc + (of_char c - 48)) 0 s"

section \<open>Properties\<close>

subsection \<open>Errors\<close>

lemma sbind_Inl [simp]: "sbind (Inl e) f = Inl e"
  and sbind_Inr [simp]: "sbind (Inr a) f = f a"
  by (simp_all add: sbind_def)

lemma sbind_eq_Inr [simp]: "sbind r f = Inr b \<longleftrightarrow> (\<exists>a. r = Inr a \<and> f a = Inr b)"
  by (cases r) (simp_all add: sbind_def)

lemma not_isl_Inr: "\<not> isl r \<longleftrightarrow> r = Inr (projr r)"
  by (cases r) simp_all

lemma find_Some_P: "List.find P xs = Some x \<Longrightarrow> P x \<and> x \<in> set xs"
  by (auto simp: find_Some_iff)

lemma sbind_eq_Inl [simp]:
  "sbind r f = Inl e \<longleftrightarrow> r = Inl e \<or> (\<exists>a. r = Inr a \<and> f a = Inl e)"
  by (cases r) (simp_all add: sbind_def)

subsection \<open>Prefix and substring tests\<close>

lemma starts_with_prefix [py_simps]: "starts_with s p \<longleftrightarrow> prefix p s"
  by (induction s p rule: starts_with.induct) auto

lemma str_in_sublist [py_simps]: "str_in p s \<longleftrightarrow> sublist p s"
proof (induction s)
  case Nil
  then show ?case by simp
next
  case (Cons c s)
  then show ?case
    by (auto simp: starts_with_prefix sublist_Cons_right)
qed

lemma str_in_append_left [intro]: "str_in p s \<Longrightarrow> str_in p (t @ s)"
  by (simp add: str_in_sublist sublist_append)

lemma str_in_append_right [intro]: "str_in p s \<Longrightarrow> str_in p (s @ t)"
  by (simp add: str_in_sublist sublist_append)

lemma sublist_in_middle [intro]: "sublist w x \<Longrightarrow> sublist w (p @ x @ q)"
  by (rule sublist_order.order.trans [OF _ sublist_appendI])

lemma str_in_refl [simp]: "str_in s s"
  by (simp add: str_in_sublist)

lemma str_in_length: "str_in p s \<Longrightarrow> length p \<le> length s"
  by (auto simp: str_in_sublist dest: sublist_length_le)

lemma map_filter_snoc [simp]:
  "List.map_filter f (xs @ [x]) = List.map_filter f xs @ (case f x of None \<Rightarrow> [] | Some y \<Rightarrow> [y])"
  by (induction xs) (simp_all split: option.splits)

subsection \<open>Character classes\<close>

lemma lower_char_idem [simp]: "lower_char (lower_char c) = lower_char c"
  by (auto simp: lower_char_def Let_def)

lemma py_lower_idem [simp]: "py_lower (py_lower s) = py_lower s"
  by (simp add: py_lower_def)

lemma py_lower_Cons [simp]: "py_lower (c # s) = lower_char c # py_lower s"
  and py_lower_Nil [simp]: "py_lower [] = []"
  by (simp_all add: py_lower_def)

lemma py_lower_append [simp]: "py_lower (s @ t) = py_lower s @ py_lower t"
  by (simp add: py_lower_def)

lemma length_py_lower [simp]: "length (py_lower s) = length s"
  by (simp add: py_lower_def)

text \<open>A pattern that \<open>lower\<close> leaves alone is found in the lowered string wherever it
  is found in the original.\<close>

lemma str_in_py_lower:
  assumes "py_lower p = p" and "str_in p s"
  shows "str_in p (py_lower s)"
proof -
  from assms(2) obtain a b where "s = a @ p @ b"
    by (auto simp: str_in_sublist sublist_def)
  then have "py_lower s = py_lower a @ p @ py_lower b"
    using assms(1) by simp
  then show ?thesis by (simp add: str_in_sublist)
qed

subsection \<open>strip, slicing\<close>

lemma length_last_n [simp]: "length (last_n n xs) = min n (length xs)"
  by (simp add: last_n_def)

lemma last_n_suffix: "suffix (last_n n xs) xs"
  by (simp add: last_n_def suffix_drop)

subsection \<open>Leftmost search of re.search\<close>

lemma re_search_leftmost:
  "re_search m s = Some r \<longleftrightarrow>
     (\<exists>i \<le> length s. m (drop i s) = Some r \<and> (\<forall>j < i. m (drop j s) = None))"
proof (induction s)
  case Nil
  then show ?case by simp
next
  case (Cons c s)
  show ?case
  proof (cases "m (c # s)")
    case None
    have "(\<exists>i \<le> length s. m (drop i s) = Some r \<and> (\<forall>j < i. m (drop j s) = None)) \<longleftrightarrow>
          (\<exists>i \<le> length (c # s). m (drop i (c # s)) = Some r \<and>
             (\<forall>j < i. m (drop j (c # s)) = None))" (is "?L \<longleftrightarrow> ?R")
    proof
      assume ?L
      then obtain i where "i \<le> length s" "m (drop i s) = Some r" "\<forall>j < i. m (drop j s) = None"
        by blast
      with None show ?R
        by (intro exI [of _ "Suc i"]) (auto simp: less_Suc_eq_0_disj)
    next
      assume ?R
      then obtain i where i: "i \<le> Suc (length s)" "m (drop i (c # s)) = Some r"
          "\<forall>j < i. m (drop j (c # s)) = None"
        by auto
      with None obtain k where "i = Suc k" by (cases i) auto
      with i show ?L by (intro exI [of _ k]) auto
    qed
    with None Cons.IH show ?thesis by simp
  next
    case (Some r')
    have "(\<exists>i \<le> length (c # s). m (drop i (c # s)) = Some r \<and>
             (\<forall>j < i. m (drop j (c # s)) = None)) \<longleftrightarrow> r' = r"
    proof
      assume "\<exists>i \<le> length (c # s). m (drop i (c # s)) = Some r \<and>
                (\<forall>j < i. m (drop j (c # s)) = None)"
      then obtain i where "m (drop i (c # s)) = Some r" "\<forall>j < i. m (drop j (c # s)) = None"
        by blast
      with Some show "r' = r" by (cases i) auto
    qed (use Some in \<open>auto intro!: exI [of _ 0]\<close>)
    with Some show ?thesis by auto
  qed
qed

lemma re_search_None: "re_search m s = None \<longleftrightarrow> (\<forall>i \<le> length s. m (drop i s) = None)"
proof (induction s)
  case Nil
  then show ?case by simp
next
  case (Cons c s)
  have "(\<forall>i \<le> length (c # s). m (drop i (c # s)) = None) \<longleftrightarrow>
        (\<forall>i < Suc (Suc (length s)). m (drop i (c # s)) = None)"
    by (auto simp: less_Suc_eq_le)
  also have "\<dots> \<longleftrightarrow> m (c # s) = None \<and> (\<forall>i < Suc (length s). m (drop i s) = None)"
    by (simp add: All_less_Suc2)
  finally show ?case
    using Cons.IH by (auto simp: less_Suc_eq_le split: option.splits)
qed

subsection \<open>split and join\<close>

lemma split_aux_not_Nil [simp]: "split_aux sep acc s \<noteq> []"
  by (induction sep acc s rule: split_aux.induct) auto

lemma py_join_Cons: "xs \<noteq> [] \<Longrightarrow> py_join sep (x # xs) = x @ sep @ py_join sep xs"
  by (cases xs) auto

lemma py_join_split_aux: "py_join sep (split_aux sep acc s) = rev acc @ s"
proof (induction sep acc s rule: split_aux.induct)
  case (1 sep acc)
  then show ?case by simp
next
  case (2 sep acc c s)
  show ?case
  proof (cases "sep \<noteq> [] \<and> starts_with (c # s) sep")
    case True
    then have sep_drop: "sep @ drop (length sep) (c # s) = c # s"
      by (auto simp: starts_with_prefix prefix_def)
    from True have "split_aux sep acc (c # s) =
        rev acc # split_aux sep [] (drop (length sep) (c # s))"
      by simp
    with True "2.IH"(1) sep_drop show ?thesis
      by (simp add: py_join_Cons del: split_aux.simps)
  next
    case False
    then have "split_aux sep acc (c # s) = split_aux sep (c # acc) s"
      by auto
    with False "2.IH"(2) show ?thesis by simp
  qed
qed

text \<open>Joining the pieces of a split with the separator gives the string back.\<close>

lemma py_join_str_split [simp]: "py_join sep (str_split sep s) = s"
  by (simp add: str_split_def py_join_split_aux)

subsection \<open>Decimal numbers\<close>

lemma digits_value_snoc [simp]:
  "digits_value (s @ [c]) = 10 * digits_value s + (of_char c - 48)"
  by (simp add: digits_value_def)

lemma of_char_digit_char [simp]: "d < 10 \<Longrightarrow> of_char (digit_char d) = 48 + d"
  by (simp add: digit_char_def)

lemma is_decimal_digit_char [simp]: "d < 10 \<Longrightarrow> is_decimal (digit_char d)"
  by (simp add: is_decimal_def)

lemma nat_str_decimal: "\<forall>c \<in> set (nat_str n). is_decimal c"
proof (induction n rule: nat_str.induct)
  case (1 n)
  then show ?case by (subst nat_str.simps) auto
qed

lemma nat_str_not_Nil [simp]: "nat_str n \<noteq> []"
  by (subst nat_str.simps) simp

text \<open>Reading back what \<open>str\<close> printed gives the number: the round trip of \<open>int(str(n))\<close>.\<close>

lemma digits_value_nat_str [simp]: "digits_value (nat_str n) = n"
proof (induction n rule: nat_str.induct)
  case (1 n)
  show ?case
  proof (cases "n < 10")
    case True
    then show ?thesis
      by (subst nat_str.simps) (simp add: digits_value_def)
  next
    case False
    with "1.IH" show ?thesis by (subst nat_str.simps) simp
  qed
qed

lemma mset_concat_map: "mset (concat (map f xs)) = (\<Sum>x \<in># mset xs. mset (f x))"
  by (induction xs) simp_all

lemma py_strip_idem [simp]: "py_strip (py_strip s) = py_strip s"
proof -
  define t where "t = dropWhile py_isspace s"
  define u where "u = rev (dropWhile py_isspace (rev t))"
  have tu: "t = u @ rev (takeWhile py_isspace (rev t))"
    unfolding u_def by (metis rev_append rev_rev_ident takeWhile_dropWhile_id)
  have "dropWhile py_isspace u = u"
  proof (cases "u = []")
    case False
    have "hd t = hd u" using tu False by (metis hd_append2)
    moreover have "t \<noteq> []" using tu False by (metis append_is_Nil_conv)
    ultimately show ?thesis using hd_dropWhile [of py_isspace s] False
      by (simp add: dropWhile_eq_self_iff t_def)
  qed simp
  then show ?thesis by (simp add: py_strip_def u_def [symmetric] t_def [symmetric]) (simp add: u_def)
qed

lemma split_aux_no_sep:
  "c \<notin> set s \<Longrightarrow> split_aux [c] acc (s @ rest) = split_aux [c] (rev s @ acc) rest"
  by (induction s arbitrary: acc) auto

lemma split_aux_sep: "split_aux [c] acc (c # rest) = rev acc # split_aux [c] [] rest"
  by simp

lemma split_aux_py_join:
  "\<forall>l \<in> set ls. c \<notin> set l \<Longrightarrow> ls \<noteq> [] \<Longrightarrow> split_aux [c] [] (py_join [c] ls) = ls"
proof (induction "[c]" ls rule: py_join.induct)
  case (2 x)
  then show ?case using split_aux_no_sep [of c x "[]" "[]"] by simp
next
  case (3 x y ys)
  then have "split_aux [c] [] (x @ c # py_join [c] (y # ys)) = x # split_aux [c] [] (py_join [c] (y # ys))"
    using split_aux_no_sep [of c x "[]"] by simp
  then show ?case using 3 by simp
qed simp

lemma str_split_py_join:
  "\<forall>l \<in> set ls. c \<notin> set l \<Longrightarrow> ls \<noteq> [] \<Longrightarrow> str_split [c] (py_join [c] ls) = ls"
  by (simp add: str_split_def split_aux_py_join)

lemma hd_str_split: "c \<notin> set a \<Longrightarrow> hd (str_split [c] (a @ c # b)) = a"
  by (simp add: str_split_def split_aux_no_sep [of c a "[]"])

lemma nat_str_chars:
  assumes "x \<in> set (nat_str p)"
  shows "x \<noteq> CHR 0x0A \<and> x \<noteq> CHR ''/'' \<and> \<not> py_isspace x \<and> is_decimal x \<and> py_isdigit_char x"
proof -
  have d: "is_decimal x" using nat_str_decimal assms by blast
  then show ?thesis by (auto simp: is_decimal_def py_isspace_def py_isdigit_char_def Let_def)
qed

lemma py_strip_nat_str [simp]: "py_strip (nat_str p) = nat_str p"
proof -
  have "\<forall>x \<in> set (nat_str p). \<not> py_isspace x" using nat_str_chars by blast
  then have "dropWhile py_isspace (nat_str p) = nat_str p" "dropWhile py_isspace (rev (nat_str p)) = rev (nat_str p)"
    using nat_str_not_Nil [of p] by (simp_all add: dropWhile_eq_self_iff hd_rev)
  then show ?thesis by (simp add: py_strip_def)
qed

end
