(* ===== verification/PyValue.thy ===== *)
theory PyValue
  imports Prelude
begin
text \<open>
  The values the scripts read from JSON and build as dictionaries: \<open>None\<close>, booleans,
  integers, strings, lists and string-keyed dicts (floats are not modelled). This theory
  gives the Python operations the detectors apply to such values, each with the error it
  raises on a value of the wrong type: \<open>d.get(k, default)\<close>, \<open>x in v\<close>,
  \<open>v.lower()\<close>, \<open>v.startswith(tuple)\<close>, truthiness, \<open>str(v)\<close>/\<open>repr(v)\<close> (as an
  f-string prints them) and \<open>json.dumps(v)\<close> with its default separators and
  \<open>ensure_ascii=True\<close>.
\<close>

datatype pyval =
    PNone
  | PBool bool
  | PInt int
  | PStr string
  | PList "pyval list"
  | PDict "(string \<times> pyval) list"

section \<open>Truthiness and the operations of the detectors\<close>

fun py_truthy :: "pyval \<Rightarrow> bool" where
  "py_truthy PNone = False"
| "py_truthy (PBool b) = b"
| "py_truthy (PInt i) = (i \<noteq> 0)"
| "py_truthy (PStr s) = (s \<noteq> [])"
| "py_truthy (PList xs) = (xs \<noteq> [])"
| "py_truthy (PDict kvs) = (kvs \<noteq> [])"

text \<open>\<open>d.get(k, default)\<close> on a dict, and \<open>v.get(k, default)\<close> on any value:
  only a dict has \<open>get\<close>. (\<open>v.get(k)\<close> is \<open>v.get(k, None)\<close>.)\<close>

definition dget :: "(string \<times> pyval) list \<Rightarrow> string \<Rightarrow> pyval \<Rightarrow> pyval" where
  "dget kvs k dflt = (case map_of kvs k of None \<Rightarrow> dflt | Some x \<Rightarrow> x)"

definition py_get :: "pyval \<Rightarrow> string \<Rightarrow> pyval \<Rightarrow> py_error + pyval" where
  "py_get v k dflt = (case v of PDict kvs \<Rightarrow> Inr (dget kvs k dflt) | _ \<Rightarrow> Inl AttributeError)"

text \<open>\<open>d[k] = v\<close> on an insertion-ordered dict.\<close>

definition dict_set :: "string \<Rightarrow> pyval \<Rightarrow> (string \<times> pyval) list \<Rightarrow> (string \<times> pyval) list" where
  "dict_set k v d = (if k \<in> set (map fst d) then map (\<lambda>(k', v'). (k', if k' = k then v else v')) d
                     else d @ [(k, v)])"

text \<open>\<open>for x in v\<close>: a list yields its items, a dict its keys, a string its
  characters; \<open>None\<close>, booleans and integers are not iterable.\<close>

definition py_iter :: "pyval \<Rightarrow> py_error + pyval list" where
  "py_iter v = (case v of
      PList xs \<Rightarrow> Inr xs
    | PDict kvs \<Rightarrow> Inr (map (\<lambda>(k, _). PStr k) kvs)
    | PStr s \<Rightarrow> Inr (map (\<lambda>c. PStr [c]) s)
    | _ \<Rightarrow> Inl TypeError)"

text \<open>\<open>x in v\<close> for a string \<open>x\<close>: substring of a string, element of a list (by
  \<open>==\<close>), key of a dict; any other value is not iterable.\<close>

definition py_in_str :: "string \<Rightarrow> pyval \<Rightarrow> py_error + bool" where
  "py_in_str x v = (case v of
      PStr s \<Rightarrow> Inr (str_in x s)
    | PList xs \<Rightarrow> Inr (PStr x \<in> set xs)
    | PDict kvs \<Rightarrow> Inr (x \<in> set (map fst kvs))
    | _ \<Rightarrow> Inl TypeError)"

text \<open>\<open>v.lower()\<close> and \<open>v.startswith((p1, p2, ...))\<close> exist on strings only.\<close>

definition py_lower_val :: "pyval \<Rightarrow> py_error + string" where
  "py_lower_val v = (case v of PStr s \<Rightarrow> Inr (py_lower s) | _ \<Rightarrow> Inl AttributeError)"

definition py_startswith_any :: "pyval \<Rightarrow> string list \<Rightarrow> py_error + bool" where
  "py_startswith_any v ps = (case v of
      PStr s \<Rightarrow> Inr (list_ex (starts_with s) ps)
    | _ \<Rightarrow> Inl AttributeError)"

section \<open>str and repr\<close>

text \<open>\<open>str.isprintable\<close> below 256: the Latin-1 controls, the no-break space and the
  soft hyphen are not printable.\<close>

definition py_printable :: "char \<Rightarrow> bool" where
  "py_printable c = (let n = of_char c :: nat in
     (32 \<le> n \<and> n \<le> 126) \<or> (161 \<le> n \<and> n \<le> 255 \<and> n \<noteq> 173))"

definition hex_digit :: "nat \<Rightarrow> char" where
  "hex_digit d = (if d < 10 then char_of (48 + d) else char_of (87 + d))"

text \<open>One character of \<open>repr(s)\<close> inside the quote \<open>q\<close>.\<close>

definition repr_char :: "char \<Rightarrow> char \<Rightarrow> string" where
  "repr_char q c =
     (if c = q \<or> c = CHR 0x5C then [CHR 0x5C, c]
      else if c = CHR 0x09 then [CHR 0x5C, CHR ''t'']
      else if c = CHR 0x0A then [CHR 0x5C, CHR ''n'']
      else if c = CHR 0x0D then [CHR 0x5C, CHR ''r'']
      else if py_printable c then [c]
      else [CHR 0x5C, CHR ''x'', hex_digit (of_char c div 16), hex_digit (of_char c mod 16)])"

text \<open>\<open>repr(s)\<close> quotes with \<open>'\<close> unless the string holds \<open>'\<close> and no \<open>"\<close>.\<close>

definition py_repr_str :: "string \<Rightarrow> string" where
  "py_repr_str s =
     (let q = (if CHR 0x27 \<in> set s \<and> CHR 0x22 \<notin> set s then CHR 0x22 else CHR 0x27)
      in q # concat (map (repr_char q) s) @ [q])"

fun py_repr :: "pyval \<Rightarrow> string" where
  "py_repr PNone = ''None''"
| "py_repr (PBool b) = (if b then ''True'' else ''False'')"
| "py_repr (PInt i) = int_str i"
| "py_repr (PStr s) = py_repr_str s"
| "py_repr (PList xs) = ''['' @ py_join '', '' (map py_repr xs) @ '']''"
| "py_repr (PDict kvs) =
     ''{'' @ py_join '', '' (map (\<lambda>(k, v). py_repr_str k @ '': '' @ py_repr v) kvs) @ ''}''"

text \<open>\<open>str(v)\<close>, which is also what \<open>{v}\<close> in an f-string prints.\<close>

definition py_str :: "pyval \<Rightarrow> string" where
  "py_str v = (case v of PStr s \<Rightarrow> s | _ \<Rightarrow> py_repr v)"

section \<open>json.dumps\<close>

text \<open>One character of a JSON string with \<open>ensure_ascii=True\<close>: everything outside
  the printable ASCII range is written \<open>\uXXXX\<close> in lower-case hex.\<close>

definition json_escape_char :: "char \<Rightarrow> string" where
  "json_escape_char c =
     (let n = of_char c :: nat in
      if c = CHR 0x22 \<or> c = CHR 0x5C then [CHR 0x5C, c]
      else if c = CHR 0x0A then [CHR 0x5C, CHR ''n'']
      else if c = CHR 0x0D then [CHR 0x5C, CHR ''r'']
      else if c = CHR 0x09 then [CHR 0x5C, CHR ''t'']
      else if c = CHR 0x08 then [CHR 0x5C, CHR ''b'']
      else if c = CHR 0x0C then [CHR 0x5C, CHR ''f'']
      else if n < 32 \<or> 126 < n
        then [CHR 0x5C, CHR ''u'', CHR ''0'', CHR ''0'', hex_digit (n div 16), hex_digit (n mod 16)]
      else [c])"

definition json_str :: "string \<Rightarrow> string" where
  "json_str s = CHR 0x22 # concat (map json_escape_char s) @ [CHR 0x22]"

fun json_dumps :: "pyval \<Rightarrow> string" where
  "json_dumps PNone = ''null''"
| "json_dumps (PBool b) = (if b then ''true'' else ''false'')"
| "json_dumps (PInt i) = int_str i"
| "json_dumps (PStr s) = json_str s"
| "json_dumps (PList xs) = ''['' @ py_join '', '' (map json_dumps xs) @ '']''"
| "json_dumps (PDict kvs) =
     ''{'' @ py_join '', '' (map (\<lambda>(k, v). json_str k @ '': '' @ json_dumps v) kvs) @ ''}''"

section \<open>Properties\<close>

lemma map_fst_dict_set [simp]:
  "map fst (dict_set k v d) = (if k \<in> set (map fst d) then map fst d else map fst d @ [k])"
  by (induction d) (auto simp: dict_set_def)

lemma keys_dict_set [simp]: "fst ` set (dict_set k v d) = insert k (fst ` set d)"
  using map_fst_dict_set [of k v d] by (metis list.set_map set_append empty_set insert_absorb
    list.simps(15) Un_insert_right sup_bot.right_neutral)

lemma map_of_overwrite:
  "map_of (map (\<lambda>(k', v'). (k', if k' = k then v else v')) d) x =
   (if x = k then map_option (\<lambda>_. v) (map_of d x) else map_of d x)"
  by (induction d) auto

lemma map_of_dict_set:
  "map_of (dict_set k v d) = (map_of d)(k \<mapsto> v)"
  by (auto simp: dict_set_def fun_eq_iff map_of_overwrite map_add_def
      weak_map_of_SomeI map_of_eq_None_iff [symmetric] dest: map_of_SomeD split: option.split)

lemma dget_dict_set [simp]:
  "dget (dict_set k v d) k' dflt = (if k' = k then v else dget d k' dflt)"
  by (simp add: dget_def map_of_dict_set)

end
