(* ===== verification/Counter.thy ===== *)
theory Counter
  imports Prelude
begin
text \<open>
  The aggregator of the incident-response analyzer: \<open>failed_logins = defaultdict(int)\<close>
  with \<open>failed_logins[key] += 1\<close> (\<open>src/incident-response/triage_script.py\<close>, lines
  28 and 40), and the threshold comprehension \<open>{k: v for k, v in d.items() if v > 5}\<close>
  (line 73). A Python dict keeps its keys in insertion order, which the report shows, so
  the counter is an association list; its abstractions are the lookup map and the
  multiset of counted keys.
\<close>

type_synonym 'k counter = "('k \<times> nat) list"

text \<open>\<open>d[k] += 1\<close> on a \<open>defaultdict(int)\<close>: a missing key enters at the end with 1.\<close>

definition counter_bump :: "'k \<Rightarrow> 'k counter \<Rightarrow> 'k counter" where
  "counter_bump k c = (case map_of c k of
      None \<Rightarrow> c @ [(k, 1)]
    | Some n \<Rightarrow> map (\<lambda>(k', m). (k', if k' = k then Suc m else m)) c)"

text \<open>Counting a sequence of keys, one \<open>+= 1\<close> per key, in order.\<close>

definition count_keys :: "'k list \<Rightarrow> 'k counter" where
  "count_keys ks = foldl (\<lambda>c k. counter_bump k c) [] ks"

text \<open>\<open>{k: v for k, v in d.items() if v > t}\<close>\<close>

definition over_threshold :: "nat \<Rightarrow> 'k counter \<Rightarrow> 'k counter" where
  "over_threshold t c = filter (\<lambda>(k, v). t < v) c"

definition counter_wf :: "'k counter \<Rightarrow> bool" where
  "counter_wf c \<longleftrightarrow> distinct (map fst c) \<and> (\<forall>(k, n) \<in> set c. 0 < n)"

definition counter_abs :: "'k counter \<Rightarrow> 'k multiset" where
  "counter_abs c = (\<Sum>(k, n) \<leftarrow> c. replicate_mset n k)"

text \<open>The keys of a counter in order of first occurrence.\<close>

definition first_occurrences :: "'k list \<Rightarrow> 'k list" where
  "first_occurrences ks = rev (remdups (rev ks))"

section \<open>Properties\<close>

subsection \<open>One increment\<close>

lemma map_of_map_keyed:
  "map_of (map (\<lambda>(k', m). (k', g k' m)) c) x = map_option (g x) (map_of c x)"
  by (induction c) auto

lemma keys_incr [simp]: "map fst (map (\<lambda>(k', m). (k', if k' = k then Suc m else m)) c) = map fst c"
  by (induction c) auto

lemma map_of_Some_key: "map_of c k = Some n \<Longrightarrow> k \<in> set (map fst c)"
  by (force dest: map_of_SomeD)

lemma map_of_counter_bump [simp]:
  "map_of (counter_bump k c) =
     (map_of c)(k \<mapsto> (case map_of c k of None \<Rightarrow> 1 | Some n \<Rightarrow> Suc n))"
proof (cases "map_of c k")
  case None
  then show ?thesis
    by (auto simp: counter_bump_def map_add_def fun_eq_iff split: option.splits)
next
  case (Some n)
  then show ?thesis
    by (auto simp: counter_bump_def map_of_map_keyed fun_eq_iff option.map_ident)
qed

lemma keys_counter_bump [simp]:
  "map fst (counter_bump k c) = (if k \<in> set (map fst c) then map fst c else map fst c @ [k])"
proof (cases "map_of c k")
  case None
  then show ?thesis by (auto simp: counter_bump_def dest: weak_map_of_SomeI)
next
  case (Some n)
  then have "k \<in> set (map fst c)" by (rule map_of_Some_key)
  with Some show ?thesis by (simp add: counter_bump_def split: prod.splits)
qed

lemma counter_wf_bump [intro]:
  assumes "counter_wf c" shows "counter_wf (counter_bump k c)"
proof -
  have "distinct (map fst (counter_bump k c))"
    using assms by (simp add: counter_wf_def)
  moreover have "\<forall>(k', n) \<in> set (counter_bump k c). 0 < n"
    using assms by (auto simp: counter_wf_def counter_bump_def split: option.splits)
  ultimately show ?thesis by (simp add: counter_wf_def)
qed

lemma map_untouched: "k \<notin> set (map fst c) \<Longrightarrow> map (\<lambda>(k', m). (k', if k' = k then Suc m else m)) c = c"
  by (induction c) auto

lemma counter_abs_Cons [simp]: "counter_abs ((k, n) # c) = replicate_mset n k + counter_abs c"
  by (simp add: counter_abs_def)

lemma counter_abs_append [simp]: "counter_abs (c @ d) = counter_abs c + counter_abs d"
  by (simp add: counter_abs_def)

lemma counter_abs_Nil [simp]: "counter_abs [] = {#}"
  by (simp add: counter_abs_def)

lemma counter_abs_incr:
  "distinct (map fst c) \<Longrightarrow> k \<in> set (map fst c) \<Longrightarrow>
   counter_abs (map (\<lambda>(k', m). (k', if k' = k then Suc m else m)) c) = add_mset k (counter_abs c)"
proof (induction c)
  case Nil
  then show ?case by simp
next
  case (Cons p c)
  obtain k0 m0 where p: "p = (k0, m0)" by (cases p)
  show ?case
  proof (cases "k0 = k")
    case True
    with Cons.prems p have "k \<notin> set (map fst c)" by simp
    with True p show ?thesis by (simp add: map_untouched)
  next
    case False
    with Cons p show ?thesis by simp
  qed
qed

text \<open>Refinement: one \<open>+= 1\<close> adds the key once to the multiset the counter stands for.\<close>

lemma counter_abs_bump:
  "counter_wf c \<Longrightarrow> counter_abs (counter_bump k c) = add_mset k (counter_abs c)"
proof (cases "map_of c k")
  case None
  then show ?thesis by (simp add: counter_bump_def)
next
  case (Some n)
  then have "k \<in> set (map fst c)" by (rule map_of_Some_key)
  with Some show "counter_wf c \<Longrightarrow> ?thesis"
    by (simp add: counter_bump_def counter_wf_def counter_abs_incr)
qed

subsection \<open>Counting a sequence of keys\<close>

lemma count_keys_Nil [simp]: "count_keys [] = []"
  by (simp add: count_keys_def)

lemma count_keys_snoc [simp]: "count_keys (ks @ [k]) = counter_bump k (count_keys ks)"
  by (simp add: count_keys_def)

lemma counter_wf_count_keys: "counter_wf (count_keys ks)"
proof (induction ks rule: rev_induct)
  case Nil
  then show ?case by (simp add: counter_wf_def)
next
  case (snoc k ks)
  then show ?case by (simp add: counter_wf_bump)
qed

lemma counter_abs_count_keys [simp]: "counter_abs (count_keys ks) = mset ks"
  by (induction ks rule: rev_induct) (simp_all add: counter_abs_bump counter_wf_count_keys)

lemma map_of_count_keys:
  "map_of (count_keys ks) k = (if k \<in> set ks then Some (count_list ks k) else None)"
  by (induction ks rule: rev_induct) (auto simp: count_notin split: option.splits if_splits)

lemma keys_count_keys: "map fst (count_keys ks) = first_occurrences ks"
  by (induction ks rule: rev_induct) (auto simp: first_occurrences_def)

lemma over_threshold_map_of:
  "distinct (map fst c) \<Longrightarrow>
   map_of (over_threshold t c) k = (case map_of c k of Some n \<Rightarrow> if t < n then Some n else None | None \<Rightarrow> None)"
  by (induction c) (auto simp: over_threshold_def map_of_eq_None_iff split: option.splits)

lemma counter_wf_over_threshold: "counter_wf c \<Longrightarrow> counter_wf (over_threshold t c)"
  by (auto simp: counter_wf_def over_threshold_def distinct_map_filter)

lemma over_threshold_above: "(k, n) \<in> set (over_threshold t c) \<Longrightarrow> t < n"
  by (simp add: over_threshold_def)

lemma counter_wf_take: "counter_wf c \<Longrightarrow> counter_wf (take n c)"
  by (auto simp: counter_wf_def take_map [symmetric] dest: in_set_takeD)

lemma distinct_keys_count_keys: "distinct (map fst (count_keys ks))"
  by (simp add: keys_count_keys first_occurrences_def)

lemma set_count_keys: "(k, n) \<in> set (count_keys ks) \<longleftrightarrow> k \<in> set ks \<and> n = count_list ks k"
proof -
  have "(k, n) \<in> set (count_keys ks) \<longleftrightarrow> map_of (count_keys ks) k = Some n"
    using distinct_keys_count_keys [of ks] by simp
  then show ?thesis by (auto simp: map_of_count_keys)
qed

text \<open>The keys over the threshold are exactly those counted more than \<open>t\<close> times.\<close>

lemma map_of_over_threshold_count_keys:
  "map_of (over_threshold t (count_keys ks)) k =
     (if t < count_list ks k then Some (count_list ks k) else None)"
  using distinct_keys_count_keys [of ks]
  by (auto simp: over_threshold_map_of map_of_count_keys split: if_splits)

lemma over_threshold_count_keys_Nil:
  "over_threshold t (count_keys ks) = [] \<longleftrightarrow> (\<forall>k. count_list ks k \<le> t)"
proof -
  have "over_threshold t (count_keys ks) = [] \<longleftrightarrow> (\<forall>p \<in> set (count_keys ks). snd p \<le> t)"
    by (auto simp: over_threshold_def filter_empty_conv)
  also have "\<dots> \<longleftrightarrow> (\<forall>k. count_list ks k \<le> t)"
  proof
    assume all: "\<forall>p \<in> set (count_keys ks). snd p \<le> t"
    show "\<forall>k. count_list ks k \<le> t"
    proof
      fix k
      show "count_list ks k \<le> t"
      proof (cases "k \<in> set ks")
        case True
        then have "(k, count_list ks k) \<in> set (count_keys ks)" by (simp add: set_count_keys)
        with all show ?thesis by fastforce
      qed simp
    qed
  next
    assume "\<forall>k. count_list ks k \<le> t"
    then show "\<forall>p \<in> set (count_keys ks). snd p \<le> t"
      by (auto simp: set_count_keys)
  qed
  finally show ?thesis .
qed

lemma over_threshold_Nil [simp]: "over_threshold t [] = []"
  by (simp add: over_threshold_def)

lemma count_keys_eq_Nil [simp]: "count_keys ks = [] \<longleftrightarrow> ks = []"
proof -
  have "count_keys ks = [] \<longleftrightarrow> map fst (count_keys ks) = []" by simp
  then show ?thesis by (simp add: keys_count_keys first_occurrences_def)
qed

end
