(* ===== verification/AuthLog.thy ===== *)
theory AuthLog
  imports Counter
begin
text \<open>
  The line loop of \<open>IRTriageAnalyzer.analyze_auth_log\<close>
  (\<open>src/incident-response/triage_script.py\<close>, lines 33--70). Each line of auth.log is
  tested for four fixed-grammar records; the three regular expressions of the source are
  modelled as matchers anchored at the start of their argument and run by
  \<open>re_search\<close> on every suffix, as \<open>re.search\<close> does.

  The groups are deterministic: \<open>\w+\<close> is followed by a space, which \<open>\w\<close> does not
  match, so backtracking never shortens it, and \<open>[\d\.]+\<close> and \<open>.+\<close> end the
  pattern, so greedy matching takes the longest run.
\<close>

section \<open>The three patterns\<close>

definition is_ip_char :: "char \<Rightarrow> bool" where
  "is_ip_char c \<longleftrightarrow> is_decimal c \<or> c = CHR ''.''"

text \<open>\<open>for (\w+) from ([\d\.]+)\<close> at the start of \<open>s\<close>\<close>

definition match_for_from :: "string \<Rightarrow> (string \<times> string) option" where
  "match_for_from s =
     (if starts_with s ''for '' then
        (let r = drop 4 s; user = takeWhile is_word_char r; r2 = drop (length user) r in
         if user \<noteq> [] \<and> starts_with r2 '' from '' then
           (let ip = takeWhile is_ip_char (drop 6 r2) in
            if ip \<noteq> [] then Some (user, ip) else None)
         else None)
      else None)"

text \<open>\<open>(\w+) : COMMAND=(.+)\<close> at the start of \<open>s\<close> (\<open>.\<close> stops at a newline)\<close>

definition match_sudo :: "string \<Rightarrow> (string \<times> string) option" where
  "match_sudo s =
     (let user = takeWhile is_word_char s; r = drop (length user) s in
      if user \<noteq> [] \<and> starts_with r '' : COMMAND='' then
        (let cmd = takeWhile (\<lambda>c. c \<noteq> CHR 0x0A) (drop 11 r) in
         if cmd \<noteq> [] then Some (user, cmd) else None)
      else None)"

text \<open>\<open>from ([\d\.]+)\<close> at the start of \<open>s\<close>\<close>

definition match_from_ip :: "string \<Rightarrow> string option" where
  "match_from_ip s =
     (if starts_with s ''from '' then
        (let ip = takeWhile is_ip_char (drop 5 s) in if ip \<noteq> [] then Some ip else None)
      else None)"

section \<open>Records and the accumulator\<close>

record login_event =
  le_timestamp :: string
  le_user :: string
  le_ip :: string
  le_method :: string

record sudo_event =
  se_timestamp :: string
  se_user :: string
  se_command :: string

record ssh_event =
  sh_timestamp :: string
  sh_ip :: string

text \<open>The four local variables of the loop.\<close>

record auth_acc =
  failed_logins :: "string counter"
  successful_logins :: "login_event list"
  sudo_activities :: "sudo_event list"
  ssh_connections :: "ssh_event list"

definition auth_acc_init :: auth_acc where
  "auth_acc_init = \<lparr>failed_logins = [], successful_logins = [], sudo_activities = [],
     ssh_connections = []\<rparr>"

text \<open>The four independent \<open>if\<close>s of one iteration, in the order of the source.\<close>

definition auth_failed :: "string \<Rightarrow> auth_acc \<Rightarrow> auth_acc" where
  "auth_failed line a =
     (if str_in ''Failed password'' line then
        (case re_search match_for_from line of
           Some (user, ip) \<Rightarrow> a\<lparr>failed_logins := counter_bump (user @ ''@'' @ ip) (failed_logins a)\<rparr>
         | None \<Rightarrow> a)
      else a)"

definition auth_accepted :: "string \<Rightarrow> auth_acc \<Rightarrow> auth_acc" where
  "auth_accepted line a =
     (if str_in ''Accepted password'' line \<or> str_in ''Accepted publickey'' line then
        (case re_search match_for_from line of
           Some (user, ip) \<Rightarrow> a\<lparr>successful_logins := successful_logins a @
              [\<lparr>le_timestamp = take 15 line, le_user = user, le_ip = ip,
                 le_method = (if str_in ''password'' line then ''password'' else ''publickey'')\<rparr>]\<rparr>
         | None \<Rightarrow> a)
      else a)"

definition auth_sudo :: "string \<Rightarrow> auth_acc \<Rightarrow> auth_acc" where
  "auth_sudo line a =
     (if str_in ''sudo:'' line \<and> str_in ''COMMAND='' line then
        (case re_search match_sudo line of
           Some (user, cmd) \<Rightarrow> a\<lparr>sudo_activities := sudo_activities a @
              [\<lparr>se_timestamp = take 15 line, se_user = user, se_command = py_strip cmd\<rparr>]\<rparr>
         | None \<Rightarrow> a)
      else a)"

definition auth_ssh :: "string \<Rightarrow> auth_acc \<Rightarrow> auth_acc" where
  "auth_ssh line a =
     (if str_in ''sshd'' line \<and> str_in ''Connection from'' line then
        (case re_search match_from_ip line of
           Some ip \<Rightarrow> a\<lparr>ssh_connections := ssh_connections a @
              [\<lparr>sh_timestamp = take 15 line, sh_ip = ip\<rparr>]\<rparr>
         | None \<Rightarrow> a)
      else a)"

definition auth_line :: "auth_acc \<Rightarrow> string \<Rightarrow> auth_acc" where
  "auth_line a line = auth_ssh line (auth_sudo line (auth_accepted line (auth_failed line a)))"

definition auth_scan :: "string list \<Rightarrow> auth_acc" where
  "auth_scan lines = foldl auth_line auth_acc_init lines"

text \<open>The key a line adds to \<open>failed_logins\<close>, if any.\<close>

definition failed_key :: "string \<Rightarrow> string option" where
  "failed_key line =
     (if str_in ''Failed password'' line
      then map_option (\<lambda>(user, ip). user @ ''@'' @ ip) (re_search match_for_from line)
      else None)"

text \<open>The keys of all failed-password lines, in order.\<close>

definition failed_keys :: "string list \<Rightarrow> string list" where
  "failed_keys lines = List.map_filter failed_key lines"

section \<open>Properties\<close>

subsection \<open>Records and the accumulator\<close>

lemma auth_line_failed:
  "failed_logins (auth_line a l) =
     (case failed_key l of None \<Rightarrow> failed_logins a | Some k \<Rightarrow> counter_bump k (failed_logins a))"
  by (simp add: auth_line_def auth_ssh_def auth_sudo_def auth_accepted_def auth_failed_def
      failed_key_def split: option.splits prod.splits)

text \<open>The counter the loop builds is the count of the failed-password keys.\<close>

lemma auth_scan_failed: "failed_logins (auth_scan lines) = count_keys (failed_keys lines)"
proof (induction lines rule: rev_induct)
  case Nil
  then show ?case by (simp add: auth_scan_def auth_acc_init_def failed_keys_def)
next
  case (snoc l lines)
  then show ?case
    by (simp add: auth_scan_def auth_line_failed failed_keys_def split: option.splits)
qed

lemma counter_wf_auth_scan: "counter_wf (failed_logins (auth_scan lines))"
  by (simp add: auth_scan_failed counter_wf_count_keys)

end
