(* ===== verification/Syslog.thy ===== *)
theory Syslog
  imports Prelude
begin
text \<open>
  The line loop of \<open>IRTriageAnalyzer.analyze_syslog\<close>
  (\<open>src/incident-response/triage_script.py\<close>, lines 106--139): each line is classified
  independently into errors, warnings, kernel messages and network events, every entry
  recording \<open>line[:15]\<close> and \<open>line.strip()\<close>.
\<close>

record log_entry =
  entry_timestamp :: string
  entry_message :: string

record syslog_acc =
  errors :: "log_entry list"
  warnings :: "log_entry list"
  kernel_messages :: "log_entry list"
  network_events :: "log_entry list"

definition syslog_acc_init :: syslog_acc where
  "syslog_acc_init = \<lparr>errors = [], warnings = [], kernel_messages = [], network_events = []\<rparr>"

definition entry_of :: "string \<Rightarrow> log_entry" where
  "entry_of line = \<lparr>entry_timestamp = take 15 line, entry_message = py_strip line\<rparr>"

definition is_error_line :: "string \<Rightarrow> bool" where
  "is_error_line line \<longleftrightarrow> str_in ''error'' (py_lower line) \<or> str_in ''critical'' (py_lower line)"

definition is_warning_line :: "string \<Rightarrow> bool" where
  "is_warning_line line \<longleftrightarrow> str_in ''warning'' (py_lower line)"

definition is_kernel_line :: "string \<Rightarrow> bool" where
  "is_kernel_line line \<longleftrightarrow> str_in ''kernel:'' line"

definition is_network_line :: "string \<Rightarrow> bool" where
  "is_network_line line \<longleftrightarrow>
     list_ex (\<lambda>net. str_in net (py_lower line)) [''network'', ''dhcp'', ''firewall'', ''iptables'']"

definition syslog_line :: "syslog_acc \<Rightarrow> string \<Rightarrow> syslog_acc" where
  "syslog_line a line =
     (let a1 = (if is_error_line line then a\<lparr>errors := errors a @ [entry_of line]\<rparr> else a);
          a2 = (if is_warning_line line then a1\<lparr>warnings := warnings a1 @ [entry_of line]\<rparr> else a1);
          a3 = (if is_kernel_line line
                then a2\<lparr>kernel_messages := kernel_messages a2 @ [entry_of line]\<rparr> else a2)
      in if is_network_line line then a3\<lparr>network_events := network_events a3 @ [entry_of line]\<rparr>
         else a3)"

definition syslog_scan :: "string list \<Rightarrow> syslog_acc" where
  "syslog_scan lines = foldl syslog_line syslog_acc_init lines"

section \<open>Properties\<close>

text \<open>Each list of the scan is the filter of the lines by its own test.\<close>

lemma syslog_scan_snoc:
  "syslog_scan (lines @ [l]) = syslog_line (syslog_scan lines) l"
  by (simp add: syslog_scan_def)

lemma syslog_scan_lists:
  "errors (syslog_scan lines) = map entry_of (filter is_error_line lines) \<and>
   warnings (syslog_scan lines) = map entry_of (filter is_warning_line lines) \<and>
   kernel_messages (syslog_scan lines) = map entry_of (filter is_kernel_line lines) \<and>
   network_events (syslog_scan lines) = map entry_of (filter is_network_line lines)"
  by (induction lines rule: rev_induct)
    (simp_all add: syslog_scan_snoc syslog_line_def Let_def syslog_acc_init_def syslog_scan_def [of "[]"])

end
