(* ===== verification/Severity.thy ===== *)
theory Severity
  imports Prelude
begin
text \<open>
  The severity scale shared by the scripts: the strings \<open>'CRITICAL'\<close>, \<open>'HIGH'\<close>,
  \<open>'MEDIUM'\<close>, \<open>'LOW'\<close> and \<open>'INFO'\<close> (\<open>src/incident-response/triage_script.py\<close>
  lines 199--210, the finding severities of
  \<open>src/soc-operations/case002_triage_basics/triage_parser_v2.py\<close>, the categories of
  \<open>src/redteam-operations/recon_tools/dirbuster_sim.py\<close> and the risk level of
  \<open>src/soc-operations/edr_triage.py\<close>). It is totally ordered by rank, which makes it an
  instance of \<open>linorder\<close>, so that \<open>max\<close>, \<open>Max\<close> and the order lemmas of the
  library apply. The overall severity of a set of findings is the maximum of their
  severities, \<open>INFO\<close> when there are none.
\<close>

datatype severity = INFO | LOW | MEDIUM | HIGH | CRITICAL

fun sev_rank :: "severity \<Rightarrow> nat" where
  "sev_rank INFO = 0"
| "sev_rank LOW = 1"
| "sev_rank MEDIUM = 2"
| "sev_rank HIGH = 3"
| "sev_rank CRITICAL = 4"

instantiation severity :: linorder
begin

definition less_eq_severity :: "severity \<Rightarrow> severity \<Rightarrow> bool" where
  "a \<le> b \<longleftrightarrow> sev_rank a \<le> sev_rank b"

definition less_severity :: "severity \<Rightarrow> severity \<Rightarrow> bool" where
  "a < b \<longleftrightarrow> sev_rank a < sev_rank b"

instance
proof
  fix a b c :: severity
  show "a < b \<longleftrightarrow> a \<le> b \<and> \<not> b \<le> a"
    by (auto simp: less_eq_severity_def less_severity_def)
  show "a \<le> a" by (simp add: less_eq_severity_def)
  show "a \<le> b \<Longrightarrow> b \<le> c \<Longrightarrow> a \<le> c" by (simp add: less_eq_severity_def)
  show "a \<le> b \<Longrightarrow> b \<le> a \<Longrightarrow> a = b"
    by (cases a; cases b) (simp_all add: less_eq_severity_def)
  show "a \<le> b \<or> b \<le> a" by (auto simp: less_eq_severity_def)
qed

end

text \<open>The overall severity of a list of severities.\<close>

definition max_severity :: "severity list \<Rightarrow> severity" where
  "max_severity ss = fold max ss INFO"

section \<open>Properties\<close>

lemma severity_chain [simp]: "INFO < LOW" "LOW < MEDIUM" "MEDIUM < HIGH" "HIGH < CRITICAL"
  by (simp_all add: less_severity_def)

lemma INFO_least [simp]: "INFO \<le> s"
  by (cases s) (simp_all add: less_eq_severity_def)

lemma CRITICAL_greatest [simp]: "s \<le> CRITICAL"
  by (cases s) (simp_all add: less_eq_severity_def)

lemma max_severity_Max: "max_severity ss = Max (insert INFO (set ss))"
  by (simp add: max_severity_def Max.set_eq_fold [symmetric])

lemma max_severity_Nil [simp]: "max_severity [] = INFO"
  by (simp add: max_severity_def)

lemma max_severity_append [simp]: "max_severity (xs @ ys) = max (max_severity xs) (max_severity ys)"
proof -
  have "insert INFO (set (xs @ ys)) = insert INFO (set xs) \<union> insert INFO (set ys)"
    by auto
  moreover have "Max (insert INFO (set xs) \<union> insert INFO (set ys)) =
      max (Max (insert INFO (set xs))) (Max (insert INFO (set ys)))"
    by (rule Max_Un) simp_all
  ultimately show ?thesis by (simp only: max_severity_Max)
qed

lemma max_severity_ge: "s \<in> set ss \<Longrightarrow> s \<le> max_severity ss"
  by (simp add: max_severity_Max)

lemma max_severity_in: "max_severity ss \<in> insert INFO (set ss)"
  unfolding max_severity_Max by (rule Max_in) simp_all

text \<open>The maximum of a list of severities, decided from the top of the scale down.\<close>

lemma max_severity_Cons: "max_severity (x # xs) = max x (max_severity xs)"
proof -
  have "max_severity [x] = x"
    by (cases x) (simp_all add: max_severity_def max_def less_eq_severity_def)
  then show ?thesis using max_severity_append [of "[x]" xs] by simp
qed

lemma max_severity_cases:
  "max_severity ss =
     (if CRITICAL \<in> set ss then CRITICAL else if HIGH \<in> set ss then HIGH
      else if MEDIUM \<in> set ss then MEDIUM else if LOW \<in> set ss then LOW else INFO)"
proof (induction ss)
  case Nil
  then show ?case by simp
next
  case (Cons x xs)
  then show ?case
    by (cases x) (auto simp: max_severity_Cons max_def less_eq_severity_def)
qed

end
