(* ===== verification/IRTriage.thy ===== *)
theory IRTriage
  imports PyValue AuthLog Syslog Severity
begin
text \<open>
  \<open>IRTriageAnalyzer\<close> of \<open>src/incident-response/triage_script.py\<close>. The object's
  mutable state is \<open>self.findings\<close>, a \<open>defaultdict(list)\<close> from level strings to
  lists of finding dicts; every method is a function from the analyzer record to its result
  and the new record. The finding dicts are built at five fixed sites, each with its own
  keys: they form the datatype \<open>ir_finding\<close>, and \<open>finding_dict\<close> writes each one
  back as the Python dict literal of its site, so that \<open>'details' in finding\<close> and
  \<open>str(finding)\<close> are computed as the code computes them.
\<close>

section \<open>Findings and the findings store\<close>

datatype ir_key = KEY_CRITICAL | KEY_HIGH | KEY_MEDIUM | KEY_WARNING

fun key_severity :: "ir_key \<Rightarrow> severity" where
  "key_severity KEY_CRITICAL = CRITICAL"
| "key_severity KEY_HIGH = HIGH"
| "key_severity KEY_MEDIUM = MEDIUM"
| "key_severity KEY_WARNING = LOW"

datatype ir_finding =
    BruteForce "string counter"
  | FailedLoginAttempts nat "string counter"
  | MultipleSystemErrors nat "log_entry list"
  | KernelActivitySpike nat
  | KnownMaliciousIP string string

definition counter_dict :: "string counter \<Rightarrow> pyval" where
  "counter_dict c = PDict (map (\<lambda>(k, n). (k, PInt (int n))) c)"

definition entry_dict :: "log_entry \<Rightarrow> pyval" where
  "entry_dict e = PDict [(''timestamp'', PStr (entry_timestamp e)), (''message'', PStr (entry_message e))]"

text \<open>The dict literals of lines 76--80, 83--88, 142--147, 150--154 and 177--181.\<close>

fun finding_dict :: "ir_finding \<Rightarrow> (string \<times> pyval) list" where
  "finding_dict (BruteForce d) =
     [(''type'', PStr ''Brute Force Attack Detected''), (''details'', counter_dict d),
      (''source'', PStr ''auth.log'')]"
| "finding_dict (FailedLoginAttempts n d) =
     [(''type'', PStr ''Failed Login Attempts''), (''count'', PInt (int n)),
      (''details'', counter_dict d), (''source'', PStr ''auth.log'')]"
| "finding_dict (MultipleSystemErrors n s) =
     [(''type'', PStr ''Multiple System Errors''), (''count'', PInt (int n)),
      (''sample'', PList (map entry_dict s)), (''source'', PStr ''syslog'')]"
| "finding_dict (KernelActivitySpike n) =
     [(''type'', PStr ''Kernel Activity Spike''), (''count'', PInt (int n)),
      (''source'', PStr ''syslog'')]"
| "finding_dict (KnownMaliciousIP ip ctx) =
     [(''type'', PStr ''Known Malicious IP''), (''ip'', PStr ip), (''context'', PStr ctx)]"

fun finding_type :: "ir_finding \<Rightarrow> string" where
  "finding_type (BruteForce _) = ''Brute Force Attack Detected''"
| "finding_type (FailedLoginAttempts _ _) = ''Failed Login Attempts''"
| "finding_type (MultipleSystemErrors _ _) = ''Multiple System Errors''"
| "finding_type (KernelActivitySpike _) = ''Kernel Activity Spike''"
| "finding_type (KnownMaliciousIP _ _) = ''Known Malicious IP''"

type_synonym ir_findings = "(ir_key \<times> ir_finding list) list"

text \<open>\<open>self.findings[k].extend(fs)\<close> on the \<open>defaultdict(list)\<close>: a missing level is
  created, at the end of the insertion order.\<close>

definition fextend :: "ir_key \<Rightarrow> ir_finding list \<Rightarrow> ir_findings \<Rightarrow> ir_findings" where
  "fextend k fs F = (case map_of F k of
      None \<Rightarrow> F @ [(k, fs)]
    | Some _ \<Rightarrow> map (\<lambda>(k', gs). (k', if k' = k then gs @ fs else gs)) F)"

text \<open>\<open>self.findings[k].append(f)\<close>\<close>

definition fappend :: "ir_key \<Rightarrow> ir_finding \<Rightarrow> ir_findings \<Rightarrow> ir_findings" where
  "fappend k f F = fextend k [f] F"

text \<open>\<open>self.findings.get(k, [])\<close>; \<open>self.findings.get(k)\<close> is truthy exactly when this
  list is not empty.\<close>

definition fget :: "ir_findings \<Rightarrow> ir_key \<Rightarrow> ir_finding list" where
  "fget F k = (case map_of F k of None \<Rightarrow> [] | Some fs \<Rightarrow> fs)"

record ir_analyzer =
  log_dir :: string
  findings :: ir_findings

definition ir_init :: "string \<Rightarrow> ir_analyzer" where
  "ir_init d = \<lparr>log_dir = d, findings = []\<rparr>"

section \<open>analyze_auth_log (lines 20--96)\<close>

text \<open>The file is \<open>None\<close> when it does not exist; the method then returns \<open>{}\<close>
  (here \<open>None\<close>) and leaves the analyzer unchanged.\<close>

record auth_report =
  ar_failed_logins :: "string counter"
  ar_successful_logins :: "login_event list"
  ar_sudo_activities :: "sudo_event list"
  ar_ssh_connections :: "ssh_event list"
  ar_brute_force_detected :: bool

definition analyze_auth_log :: "string list option \<Rightarrow> ir_analyzer \<Rightarrow> auth_report option \<times> ir_analyzer" where
  "analyze_auth_log file s = (case file of
      None \<Rightarrow> (None, s)
    | Some lines \<Rightarrow>
        (let a = auth_scan lines;
             fl = failed_logins a;
             bf = over_threshold 5 fl;
             F1 = (if bf \<noteq> [] then fappend KEY_CRITICAL (BruteForce bf) (findings s) else findings s);
             F2 = (if fl \<noteq> [] then fappend KEY_WARNING (FailedLoginAttempts (length fl) (take 10 fl)) F1
                   else F1)
         in (Some \<lparr>ar_failed_logins = fl,
                   ar_successful_logins = last_n 10 (successful_logins a),
                   ar_sudo_activities = last_n 10 (sudo_activities a),
                   ar_ssh_connections = last_n 10 (ssh_connections a),
                   ar_brute_force_detected = (bf \<noteq> [])\<rparr>,
             s\<lparr>findings := F2\<rparr>)))"

section \<open>analyze_syslog (lines 98--162)\<close>

record syslog_report =
  sr_total_errors :: nat
  sr_total_warnings :: nat
  sr_kernel_messages :: nat
  sr_network_events :: "log_entry list"
  sr_recent_errors :: "log_entry list"

definition analyze_syslog :: "string list option \<Rightarrow> ir_analyzer \<Rightarrow> syslog_report option \<times> ir_analyzer" where
  "analyze_syslog file s = (case file of
      None \<Rightarrow> (None, s)
    | Some lines \<Rightarrow>
        (let a = syslog_scan lines;
             F1 = (if 10 < length (errors a)
                   then fappend KEY_HIGH (MultipleSystemErrors (length (errors a)) (take 5 (errors a)))
                          (findings s)
                   else findings s);
             F2 = (if 20 < length (kernel_messages a)
                   then fappend KEY_MEDIUM (KernelActivitySpike (length (kernel_messages a))) F1
                   else F1)
         in (Some \<lparr>sr_total_errors = length (errors a),
                   sr_total_warnings = length (warnings a),
                   sr_kernel_messages = length (kernel_messages a),
                   sr_network_events = last_n 10 (network_events a),
                   sr_recent_errors = last_n 10 (errors a)\<rparr>,
             s\<lparr>findings := F2\<rparr>)))"

section \<open>check_indicators_of_compromise (lines 164--186)\<close>

definition malicious_ips :: "string list" where
  "malicious_ips = [''45.142.212.61'', ''185.220.101.'', ''192.168.100.'']"

text \<open>The IOCs one finding yields: one per listed literal found in \<open>str(finding['details'])\<close>,
  none when the finding has no \<open>'details'\<close> key.\<close>

definition finding_iocs :: "ir_finding \<Rightarrow> ir_finding list" where
  "finding_iocs f = (case map_of (finding_dict f) ''details'' of
      None \<Rightarrow> []
    | Some d \<Rightarrow> map (\<lambda>ip. KnownMaliciousIP ip (finding_type f))
                   (filter (\<lambda>ip. str_in ip (py_str d)) malicious_ips))"

definition collect_iocs :: "ir_findings \<Rightarrow> ir_finding list" where
  "collect_iocs F = concat (map (\<lambda>(lvl, fs). concat (map finding_iocs fs)) F)"

definition check_indicators_of_compromise :: "ir_analyzer \<Rightarrow> ir_finding list \<times> ir_analyzer" where
  "check_indicators_of_compromise s =
     (let iocs = collect_iocs (findings s)
      in (iocs, if iocs \<noteq> [] then s\<lparr>findings := fextend KEY_CRITICAL iocs (findings s)\<rparr> else s))"

section \<open>Severity, recommendations and the report (lines 188--234)\<close>

definition calculate_severity :: "ir_findings \<Rightarrow> severity" where
  "calculate_severity F =
     (if fget F KEY_CRITICAL \<noteq> [] then CRITICAL
      else if fget F KEY_HIGH \<noteq> [] then HIGH
      else if fget F KEY_MEDIUM \<noteq> [] then MEDIUM
      else if fget F KEY_WARNING \<noteq> [] then LOW
      else INFO)"

text \<open>The ten recommendation strings of lines 217--232, in the order of the source.\<close>

datatype recommendation =
    REC_ISOLATE_SYSTEMS | REC_ACTIVATE_IR_TEAM | REC_COLLECT_FORENSICS
  | REC_BLOCK_BRUTE_FORCE_IPS | REC_STRENGTHEN_PASSWORD_POLICY | REC_SSH_RATE_LIMITING
  | REC_INVESTIGATE_HIGH | REC_UPDATE_SIEM_RULES
  | REC_CONTINUE_MONITORING | REC_DOCUMENT_RESULTS

definition mentions_brute_force :: "ir_finding \<Rightarrow> bool" where
  "mentions_brute_force f \<longleftrightarrow> str_in ''Brute Force'' (py_str (PDict (finding_dict f)))"

definition generate_recommendations :: "ir_findings \<Rightarrow> recommendation list" where
  "generate_recommendations F =
     (let r1 = (if fget F KEY_CRITICAL \<noteq> []
                then [REC_ISOLATE_SYSTEMS, REC_ACTIVATE_IR_TEAM, REC_COLLECT_FORENSICS] else []);
          r2 = (if list_ex mentions_brute_force (fget F KEY_CRITICAL)
                then [REC_BLOCK_BRUTE_FORCE_IPS, REC_STRENGTHEN_PASSWORD_POLICY, REC_SSH_RATE_LIMITING]
                else []);
          r3 = (if fget F KEY_HIGH \<noteq> [] then [REC_INVESTIGATE_HIGH, REC_UPDATE_SIEM_RULES] else []);
          rs = r1 @ r2 @ r3
      in if rs = [] then [REC_CONTINUE_MONITORING, REC_DOCUMENT_RESULTS] else rs)"

record triage_report =
  report_timestamp :: string
  incident_severity :: severity
  report_findings :: ir_findings
  report_recommendations :: "recommendation list"

text \<open>\<open>datetime.now().isoformat()\<close> is an input of the model (\<open>now\<close>).\<close>

definition generate_triage_report :: "string \<Rightarrow> ir_analyzer \<Rightarrow> triage_report" where
  "generate_triage_report now s =
     \<lparr>report_timestamp = now,
      incident_severity = calculate_severity (findings s),
      report_findings = findings s,
      report_recommendations = generate_recommendations (findings s)\<rparr>"

section \<open>The run of main() (lines 264--295) and the analyzer as a state machine\<close>

text \<open>\<open>main\<close> builds a fresh analyzer and calls the three analyses in a fixed order;
  reading the two files and printing or saving the report are not modelled.\<close>

definition ir_main :: "string \<Rightarrow> string \<Rightarrow> string list option \<Rightarrow> string list option \<Rightarrow> triage_report" where
  "ir_main dir now auth sys =
     (let s0 = ir_init dir;
          s1 = snd (analyze_auth_log auth s0);
          s2 = snd (analyze_syslog sys s1);
          s3 = snd (check_indicators_of_compromise s2)
      in generate_triage_report now s3)"

text \<open>The methods can be called on one analyzer in any order and any number of times:
  a step relation over the analyzer's state, one operation per state-changing method.\<close>

datatype ir_op =
    AnalyzeAuthLog "string list option"
  | AnalyzeSyslog "string list option"
  | CheckIOCs

fun ir_step :: "ir_analyzer \<Rightarrow> ir_op \<Rightarrow> ir_analyzer" where
  "ir_step s (AnalyzeAuthLog f) = snd (analyze_auth_log f s)"
| "ir_step s (AnalyzeSyslog f) = snd (analyze_syslog f s)"
| "ir_step s CheckIOCs = snd (check_indicators_of_compromise s)"

inductive ir_reachable :: "ir_analyzer \<Rightarrow> bool" where
  init: "ir_reachable (ir_init d)"
| step: "ir_reachable s \<Longrightarrow> ir_reachable (ir_step s op)"

section \<open>The invariant of the findings store and the severity specification\<close>

text \<open>What the code keeps true of \<open>self.findings\<close>: each level appears once, is never
  empty, and holds only the findings built for it, with the bounds their guards give.\<close>

fun finding_ok :: "ir_key \<Rightarrow> ir_finding \<Rightarrow> bool" where
  "finding_ok KEY_CRITICAL (BruteForce d) \<longleftrightarrow> d \<noteq> [] \<and> counter_wf d \<and> (\<forall>(k, n) \<in> set d. 5 < n)"
| "finding_ok KEY_CRITICAL (KnownMaliciousIP ip ctx) \<longleftrightarrow>
     ip \<in> set malicious_ips \<and> ctx \<in> {''Brute Force Attack Detected'', ''Failed Login Attempts''}"
| "finding_ok KEY_WARNING (FailedLoginAttempts n d) \<longleftrightarrow>
     d \<noteq> [] \<and> length d \<le> 10 \<and> length d \<le> n \<and> counter_wf d"
| "finding_ok KEY_HIGH (MultipleSystemErrors n s) \<longleftrightarrow> 10 < n \<and> length s = 5"
| "finding_ok KEY_MEDIUM (KernelActivitySpike n) \<longleftrightarrow> 20 < n"
| "finding_ok _ _ \<longleftrightarrow> False"

definition findings_inv :: "ir_findings \<Rightarrow> bool" where
  "findings_inv F \<longleftrightarrow> distinct (map fst F) \<and>
     (\<forall>k \<in> set (map fst F). fget F k \<noteq> [] \<and> (\<forall>f \<in> set (fget F k). finding_ok k f))"

text \<open>The specification of the incident severity: the maximum of the severities of all
  findings, each finding having the severity of its level.\<close>

definition finding_severities :: "ir_findings \<Rightarrow> severity list" where
  "finding_severities F = concat (map (\<lambda>(k, fs). map (\<lambda>_. key_severity k) fs) F)"

text \<open>Two failed-password lines of auth.log, used as sample input.\<close>

definition sample_failed_jdoe :: string where
  "sample_failed_jdoe =
     ''Oct  8 10:15:01 srv sshd[1234]: Failed password for jdoe from 203.0.113.5 port 22 ssh2''"

definition sample_failed_alice :: string where
  "sample_failed_alice =
     ''Oct  8 10:15:09 srv sshd[1240]: Failed password for alice from 198.51.100.7 port 22 ssh2''"

section \<open>Properties\<close>

subsection \<open>Findings and the findings store\<close>

lemma finding_dict_type: "map_of (finding_dict f) ''type'' = Some (PStr (finding_type f))"
  by (cases f) simp_all

subsection \<open>The findings store\<close>

lemma map_of_fextend:
  "map_of (fextend k fs F) = (map_of F)(k \<mapsto> (case map_of F k of None \<Rightarrow> fs | Some gs \<Rightarrow> gs @ fs))"
proof (cases "map_of F k")
  case None
  then show ?thesis
    by (auto simp: fextend_def map_add_def fun_eq_iff split: option.splits)
next
  case (Some gs)
  then show ?thesis
    by (auto simp: fextend_def map_of_map_keyed fun_eq_iff option.map_ident)
qed

lemma fget_fextend [simp]: "fget (fextend k fs F) k' = (if k' = k then fget F k @ fs else fget F k')"
  by (simp add: fget_def map_of_fextend split: option.splits)

lemma keys_fextend [simp]:
  "map fst (fextend k fs F) = (if k \<in> set (map fst F) then map fst F else map fst F @ [k])"
proof (cases "map_of F k")
  case None
  then show ?thesis by (auto simp: fextend_def dest: weak_map_of_SomeI)
next
  case (Some gs)
  then have "k \<in> set (map fst F)" by (rule map_of_Some_key)
  with Some show ?thesis by (simp add: fextend_def split: prod.splits)
qed

lemma fget_Nil [simp]: "fget [] k = []"
  by (simp add: fget_def)

lemma fget_not_key:
  assumes "k \<notin> set (map fst F)" shows "fget F k = []"
proof -
  from assms have "map_of F k = None" by (simp add: map_of_eq_None_iff)
  then show ?thesis by (simp add: fget_def)
qed

lemma findings_inv_Nil [simp]: "findings_inv []"
  by (simp add: findings_inv_def)

lemma findings_inv_fextend:
  assumes "findings_inv F" and "fs \<noteq> []" and "\<forall>f \<in> set fs. finding_ok k f"
  shows "findings_inv (fextend k fs F)"
  using assms by (auto simp: findings_inv_def fget_not_key)

lemmas findings_inv_fappend = findings_inv_fextend [of _ "[f]" for f, folded fappend_def, simplified]

subsection \<open>Every operation keeps the invariant\<close>

lemma analyze_auth_log_inv:
  assumes "findings_inv (findings s)"
  shows "findings_inv (findings (snd (analyze_auth_log src s)))"
proof (cases src)
  case None
  with assms show ?thesis by (simp add: analyze_auth_log_def)
next
  case (Some lines)
  let ?fl = "failed_logins (auth_scan lines)"
  have wf: "counter_wf ?fl" by (rule counter_wf_auth_scan)
  have bf: "finding_ok KEY_CRITICAL (BruteForce (over_threshold 5 ?fl))"
    if "over_threshold 5 ?fl \<noteq> []"
    using that wf by (auto simp: counter_wf_over_threshold dest: over_threshold_above)
  have fl: "finding_ok KEY_WARNING (FailedLoginAttempts (length ?fl) (take 10 ?fl))"
    if "?fl \<noteq> []"
    using that wf by (simp add: counter_wf_take)
  show ?thesis
    using assms Some bf fl
    by (simp add: analyze_auth_log_def Let_def findings_inv_fappend)
qed

lemma analyze_syslog_inv:
  assumes "findings_inv (findings s)"
  shows "findings_inv (findings (snd (analyze_syslog src s)))"
  using assms by (cases src) (simp_all add: analyze_syslog_def Let_def findings_inv_fappend)

lemma set_finding_iocs:
  "g \<in> set (finding_iocs f) \<Longrightarrow> finding_ok KEY_CRITICAL g"
  by (cases f) (auto simp: finding_iocs_def)

lemma check_iocs_inv:
  assumes "findings_inv (findings s)"
  shows "findings_inv (findings (snd (check_indicators_of_compromise s)))"
proof -
  have "\<forall>g \<in> set (collect_iocs (findings s)). finding_ok KEY_CRITICAL g"
    by (auto simp: collect_iocs_def dest: set_finding_iocs)
  with assms show ?thesis
    by (simp add: check_indicators_of_compromise_def Let_def findings_inv_fextend)
qed

lemma ir_step_inv: "findings_inv (findings s) \<Longrightarrow> findings_inv (findings (ir_step s op))"
  by (cases op) (simp_all add: analyze_auth_log_inv analyze_syslog_inv check_iocs_inv)

subsection \<open>The incident severity is the maximum severity\<close>

lemma ex_ir_key: "(\<exists>k. P k) \<longleftrightarrow> P KEY_CRITICAL \<or> P KEY_HIGH \<or> P KEY_MEDIUM \<or> P KEY_WARNING"
proof
  assume "\<exists>k. P k"
  then obtain k where "P k" ..
  then show "P KEY_CRITICAL \<or> P KEY_HIGH \<or> P KEY_MEDIUM \<or> P KEY_WARNING"
    by (cases k) simp_all
qed blast

lemma fget_Some: "distinct (map fst F) \<Longrightarrow> (k, fs) \<in> set F \<Longrightarrow> fget F k = fs"
  by (simp add: fget_def)

lemma set_finding_severities:
  "set (finding_severities F) = {key_severity k |k fs. (k, fs) \<in> set F \<and> fs \<noteq> []}"
proof
  show "set (finding_severities F) \<subseteq> {key_severity k |k fs. (k, fs) \<in> set F \<and> fs \<noteq> []}"
    by (force simp: finding_severities_def)
next
  show "{key_severity k |k fs. (k, fs) \<in> set F \<and> fs \<noteq> []} \<subseteq> set (finding_severities F)"
  proof
    fix sv
    assume "sv \<in> {key_severity k |k fs. (k, fs) \<in> set F \<and> fs \<noteq> []}"
    then obtain k fs where kfs: "(k, fs) \<in> set F" "fs \<noteq> []" "sv = key_severity k"
      by blast
    from kfs(2) obtain y where "y \<in> set fs" by (cases fs) auto
    with kfs have "sv \<in> set (map (\<lambda>_. key_severity k) fs)" by auto
    with kfs(1) show "sv \<in> set (finding_severities F)"
      unfolding finding_severities_def by (auto intro!: bexI [of _ "(k, fs)"])
  qed
qed

lemma severity_in_finding_severities:
  assumes "distinct (map fst F)"
  shows "sv \<in> set (finding_severities F) \<longleftrightarrow> (\<exists>k. key_severity k = sv \<and> fget F k \<noteq> [])"
proof -
  have "(\<exists>fs. (k, fs) \<in> set F \<and> fs \<noteq> []) \<longleftrightarrow> fget F k \<noteq> []" for k
    using assms by (auto simp: fget_Some) (auto simp: fget_def split: option.splits dest: map_of_SomeD)
  then show ?thesis by (auto simp: set_finding_severities)
qed

lemma calculate_severity_max:
  assumes "distinct (map fst F)"
  shows "calculate_severity F = max_severity (finding_severities F)"
proof -
  have mem: "sv \<in> set (finding_severities F) \<longleftrightarrow>
      (\<exists>k. key_severity k = sv \<and> fget F k \<noteq> [])" for sv
    using assms by (rule severity_in_finding_severities)
  have "CRITICAL \<in> set (finding_severities F) \<longleftrightarrow> fget F KEY_CRITICAL \<noteq> []"
    "HIGH \<in> set (finding_severities F) \<longleftrightarrow> fget F KEY_HIGH \<noteq> []"
    "MEDIUM \<in> set (finding_severities F) \<longleftrightarrow> fget F KEY_MEDIUM \<noteq> []"
    "LOW \<in> set (finding_severities F) \<longleftrightarrow> fget F KEY_WARNING \<noteq> []"
    by (simp_all only: mem ex_ir_key key_severity.simps severity.distinct simp_thms)
  then show ?thesis
    by (simp add: max_severity_cases calculate_severity_def)
qed

subsection \<open>Reachable analyzers\<close>

lemma ir_reachable_inv: "ir_reachable s \<Longrightarrow> findings_inv (findings s)"
proof (induction rule: ir_reachable.induct)
  case (init d)
  then show ?case by (simp add: ir_init_def)
next
  case (step s op)
  from step.IH show ?case by (rule ir_step_inv)
qed

lemma ir_run_reachable: "ir_reachable (foldl ir_step (ir_init d) ops)"
proof (induction ops rule: rev_induct)
  case Nil
  then show ?case by (simp add: ir_reachable.init)
next
  case (snoc op ops)
  then show ?case by (simp add: ir_reachable.step)
qed

lemma ir_main_run:
  "ir_main d now a b =
     generate_triage_report now (foldl ir_step (ir_init d) [AnalyzeAuthLog a, AnalyzeSyslog b, CheckIOCs])"
  by (simp add: ir_main_def Let_def)

lemma auth_log_findings:
  "findings (snd (analyze_auth_log (Some lines) s)) =
     (let fl = count_keys (failed_keys lines);
          bf = over_threshold 5 fl;
          F1 = (if bf \<noteq> [] then fappend KEY_CRITICAL (BruteForce bf) (findings s) else findings s)
      in if fl \<noteq> [] then fappend KEY_WARNING (FailedLoginAttempts (length fl) (take 10 fl)) F1 else F1)"
  by (simp add: analyze_auth_log_def Let_def auth_scan_failed)

subsection \<open>Claims about the analyzer\<close>

text \<open>
  C1 (invariant). After any sequence of method calls on a fresh analyzer, every level of
  \<open>self.findings\<close> appears once and is non-empty, CRITICAL holds only brute-force
  findings (every count above 5) and known-malicious-IP findings (a listed literal, in the
  context of a finding that has details), WARNING only failed-login summaries of at most
  ten keys, HIGH only system-error findings with more than ten errors and a sample of
  five, and MEDIUM only kernel spikes of more than twenty messages.
\<close>

theorem ir_run_findings_inv: "findings_inv (findings (foldl ir_step (ir_init d) ops))"
  using ir_run_reachable by (rule ir_reachable_inv)

text \<open>
  C2 (refinement). After any sequence of method calls, \<open>_calculate_severity\<close>'s chain of
  tests on the levels computes the specification's incident severity: the maximum of the
  severities of all findings (WARNING counting as LOW), INFO when there is none.
\<close>

theorem ir_run_severity_is_max:
  "incident_severity (generate_triage_report now (foldl ir_step (ir_init d) ops)) =
     max_severity (finding_severities (findings (foldl ir_step (ir_init d) ops)))"
proof -
  have "findings_inv (findings (foldl ir_step (ir_init d) ops))"
    using ir_run_reachable by (rule ir_reachable_inv)
  then show ?thesis
    by (simp add: generate_triage_report_def findings_inv_def calculate_severity_max)
qed

text \<open>
  C3 (functional). \<open>analyze_auth_log\<close> on an existing file adds to CRITICAL exactly one
  brute-force finding when some \<open>user@ip\<close> key of a failed-password line occurs more
  than five times, and none otherwise; its details are the counter restricted to those
  keys, each with its number of failed lines.
\<close>

theorem auth_log_brute_force:
  "fget (findings (snd (analyze_auth_log (Some lines) s))) KEY_CRITICAL =
     fget (findings s) KEY_CRITICAL @
     (if \<exists>k. 5 < count_list (failed_keys lines) k
      then [BruteForce (over_threshold 5 (count_keys (failed_keys lines)))] else [])
   \<and> map_of (over_threshold 5 (count_keys (failed_keys lines))) k =
     (if 5 < count_list (failed_keys lines) k then Some (count_list (failed_keys lines) k) else None)"
  by (auto simp: auth_log_findings Let_def fappend_def over_threshold_count_keys_Nil
      map_of_over_threshold_count_keys not_le)

text \<open>
  C4 (functional). The scenario of the specification: six failed-password lines for one
  \<open>user@ip\<close> and five for another give exactly one CRITICAL finding, a brute-force
  finding for the first key alone, with count 6; the threshold is strict.
\<close>

theorem brute_force_six_and_five:
  assumes "failed_key l1 = Some k1" and "failed_key l2 = Some k2" and "k1 \<noteq> k2"
  shows "fget (findings (ir_step (ir_init d) (AnalyzeAuthLog (Some (replicate 6 l1 @ replicate 5 l2)))))
           KEY_CRITICAL = [BruteForce [(k1, 6)]]"
proof -
  have keys: "failed_keys (replicate 6 l1 @ replicate 5 l2) = replicate 6 k1 @ replicate 5 k2"
    using assms by (simp add: failed_keys_def numeral_eq_Suc)
  have "over_threshold 5 (count_keys (replicate 6 k1 @ replicate 5 k2)) = [(k1, 6)]"
    using assms(3) by (simp add: count_keys_def counter_bump_def over_threshold_def numeral_eq_Suc)
  with keys show ?thesis
    by (simp add: auth_log_findings Let_def fappend_def ir_init_def)
qed

theorem brute_force_six_and_five_witness:
  "failed_key sample_failed_jdoe = Some ''jdoe@203.0.113.5'' \<and>
   failed_key sample_failed_alice = Some ''alice@198.51.100.7'' \<and>
   fget (findings (ir_step (ir_init ''./logs'')
     (AnalyzeAuthLog (Some (replicate 6 sample_failed_jdoe @ replicate 5 sample_failed_alice)))))
     KEY_CRITICAL = [BruteForce [(''jdoe@203.0.113.5'', 6)]]"
proof -
  have k1: "failed_key sample_failed_jdoe = Some ''jdoe@203.0.113.5''"
    by (simp add: sample_failed_jdoe_def failed_key_def match_for_from_def is_word_char_def
        is_ip_char_def is_decimal_def)
  have k2: "failed_key sample_failed_alice = Some ''alice@198.51.100.7''"
    by (simp add: sample_failed_alice_def failed_key_def match_for_from_def is_word_char_def
        is_ip_char_def is_decimal_def)
  show ?thesis using k1 k2 brute_force_six_and_five [OF k1 k2] by simp
qed

text \<open>
  C5 (functional). \<open>_generate_recommendations\<close> always returns a non-empty list without
  repetitions; containment and forensics come first exactly when CRITICAL holds a finding,
  the investigation of HIGH findings is recommended exactly when HIGH holds one, and
  continued monitoring exactly when neither does.
\<close>

theorem recommendations_policy:
  "generate_recommendations F \<noteq> [] \<and> distinct (generate_recommendations F) \<and>
   (REC_ISOLATE_SYSTEMS \<in> set (generate_recommendations F) \<longleftrightarrow> fget F KEY_CRITICAL \<noteq> []) \<and>
   (REC_INVESTIGATE_HIGH \<in> set (generate_recommendations F) \<longleftrightarrow> fget F KEY_HIGH \<noteq> []) \<and>
   (REC_CONTINUE_MONITORING \<in> set (generate_recommendations F) \<longleftrightarrow>
      fget F KEY_CRITICAL = [] \<and> fget F KEY_HIGH = []) \<and>
   (fget F KEY_CRITICAL \<noteq> [] \<longrightarrow>
      take 3 (generate_recommendations F) = [REC_ISOLATE_SYSTEMS, REC_ACTIVATE_IR_TEAM, REC_COLLECT_FORENSICS])"
  by (auto simp: generate_recommendations_def Let_def)

theorem recommendations_policy_witness:
  "generate_recommendations [(KEY_CRITICAL, [KnownMaliciousIP ''45.142.212.61'' ''Failed Login Attempts''])]
     \<noteq> [] \<and>
   take 3 (generate_recommendations [(KEY_CRITICAL, [KnownMaliciousIP ''45.142.212.61'' ''Failed Login Attempts''])])
     = [REC_ISOLATE_SYSTEMS, REC_ACTIVATE_IR_TEAM, REC_COLLECT_FORENSICS]"
  using recommendations_policy [of "[(KEY_CRITICAL, [KnownMaliciousIP ''45.142.212.61'' ''Failed Login Attempts''])]"]
  by (simp add: fget_def)



end
