(* ===== verification/Detectors.thy ===== *)
theory Detectors
  imports PyValue Severity
begin
text \<open>
  The per-event detectors over JSON events: \<open>triage_parser_v2.py\<close>
  (\<open>src/soc-operations/case002_triage_basics/\<close>; the copy under
  \<open>src/cases_soc-operations/\<close> has the same code line for line, only comments and
  printed strings are translated) and its first version \<open>src/triage_parser.py\<close>.

  An event is whatever the JSON array holds, so every detector takes a \<open>pyval\<close> and
  returns \<open>py_error + v2_finding option\<close>: \<open>log.get\<close> raises \<open>AttributeError\<close> on
  anything but a dict, and once the first \<open>get\<close> of a detector has succeeded the later
  ones do too, so each detector is a case on the dict. The main loop of v2 collects the
  findings of the four detectors over all events; an exception aborts the whole run,
  which is the \<open>Inl\<close> branch. Version 1 prints alerts as it goes, so its run is the list
  of alerts printed and the exception that stopped it, if any.
\<close>

section \<open>Version 2: four detectors\<close>

text \<open>The finding dict \<open>{"severity", "type", "details", "timestamp"}\<close>.\<close>

record v2_finding =
  f_severity :: severity
  f_type :: string
  f_details :: string
  f_timestamp :: pyval

definition analyze_failed_logins :: "pyval \<Rightarrow> py_error + v2_finding option" where
  "analyze_failed_logins log = (case log of
      PDict d \<Rightarrow> Inr (if dget d ''status'' PNone = PStr ''FAILED''
        then Some \<lparr>f_severity = HIGH, f_type = ''Failed Login'',
          f_details = ''User '' @ [CHR 0x27] @ py_str (dget d ''user'' PNone) @ [CHR 0x27] @
            '' from '' @ py_str (dget d ''source_ip'' PNone),
          f_timestamp = dget d ''timestamp'' PNone\<rparr>
        else None)
    | _ \<Rightarrow> Inl AttributeError)"

definition analyze_powershell :: "pyval \<Rightarrow> py_error + v2_finding option" where
  "analyze_powershell log = (case log of
      PDict d \<Rightarrow> sbind (py_lower_val (dget d ''process'' (PStr ''''))) (\<lambda>process.
        Inr (if str_in ''powershell'' process \<or> str_in ''pwsh'' process
          then Some \<lparr>f_severity = CRITICAL, f_type = ''PowerShell Execution'',
            f_details = ''User '' @ [CHR 0x27] @ py_str (dget d ''user'' PNone) @ [CHR 0x27] @
              '' executed '' @ py_str (dget d ''process'' PNone),
            f_timestamp = dget d ''timestamp'' PNone\<rparr>
          else None))
    | _ \<Rightarrow> Inl AttributeError)"

definition sensitive_files :: "string list" where
  "sensitive_files = [''/etc/shadow'', ''/etc/passwd'', ''SAM'', ''SYSTEM'', ''.ssh/id_rsa'']"

text \<open>\<open>for sensitive in xs: if sensitive in v: return ...\<close>: the first hit ends the
  loop, and the first \<open>in\<close> raises if \<open>v\<close> is not iterable.\<close>

fun any_in :: "string list \<Rightarrow> pyval \<Rightarrow> py_error + bool" where
  "any_in [] v = Inr False"
| "any_in (x # xs) v = sbind (py_in_str x v) (\<lambda>b. if b then Inr True else any_in xs v)"

definition analyze_sensitive_files :: "pyval \<Rightarrow> py_error + v2_finding option" where
  "analyze_sensitive_files log = (case log of
      PDict d \<Rightarrow> (let file_path = dget d ''file'' (PStr '''') in
        sbind (any_in sensitive_files file_path) (\<lambda>hit.
          Inr (if hit
            then Some \<lparr>f_severity = CRITICAL, f_type = ''Sensitive File Access'',
              f_details = ''User '' @ [CHR 0x27] @ py_str (dget d ''user'' PNone) @ [CHR 0x27] @
                '' accessed '' @ py_str file_path,
              f_timestamp = dget d ''timestamp'' PNone\<rparr>
            else None)))
    | _ \<Rightarrow> Inl AttributeError)"

definition internal_prefixes :: "string list" where
  "internal_prefixes = [''10.'', ''192.168.'', ''172.16.'']"

definition analyze_external_connections :: "pyval \<Rightarrow> py_error + v2_finding option" where
  "analyze_external_connections log = (case log of
      PDict d \<Rightarrow> (let source_ip = dget d ''source_ip'' (PStr '''') in
        if py_truthy source_ip then
          sbind (py_startswith_any source_ip internal_prefixes) (\<lambda>internal.
            Inr (if \<not> internal
              then Some \<lparr>f_severity = MEDIUM, f_type = ''External Connection'',
                f_details = ''Connection from external IP: '' @ py_str source_ip,
                f_timestamp = dget d ''timestamp'' PNone\<rparr>
              else None))
        else Inr None)
    | _ \<Rightarrow> Inl AttributeError)"

text \<open>One iteration of the main loop: the list \<open>checks\<close> is built left to right (the
  first exception aborts), then every non-\<open>None\<close> finding (a non-empty dict is truthy)
  is appended.\<close>

definition run_checks :: "pyval \<Rightarrow> py_error + v2_finding list" where
  "run_checks log =
     sbind (analyze_failed_logins log) (\<lambda>c1.
     sbind (analyze_powershell log) (\<lambda>c2.
     sbind (analyze_sensitive_files log) (\<lambda>c3.
     sbind (analyze_external_connections log) (\<lambda>c4.
       Inr (List.map_filter id [c1, c2, c3, c4])))))"

fun collect_findings :: "v2_finding list \<Rightarrow> pyval list \<Rightarrow> py_error + v2_finding list" where
  "collect_findings findings [] = Inr findings"
| "collect_findings findings (log # logs) =
     sbind (run_checks log) (\<lambda>fs. collect_findings (findings @ fs) logs)"

text \<open>The report \<open>main\<close> prints: the findings, the three groups by severity in
  first-seen order, and the numbered recommendations 1--3 and 4--5.\<close>

datatype v2_rec = ISOLATE_HOSTS | BLOCK_IPS | RUN_FORENSICS | RESET_PASSWORDS | CHECK_OTHER_HOSTS

record v2_report =
  v2_findings :: "v2_finding list"
  v2_critical :: "v2_finding list"
  v2_high :: "v2_finding list"
  v2_medium :: "v2_finding list"
  v2_recs :: "v2_rec list"

definition v2_report_of :: "v2_finding list \<Rightarrow> v2_report" where
  "v2_report_of findings =
     (let critical = [f \<leftarrow> findings. f_severity f = CRITICAL];
          high = [f \<leftarrow> findings. f_severity f = HIGH];
          medium = [f \<leftarrow> findings. f_severity f = MEDIUM]
      in \<lparr>v2_findings = findings, v2_critical = critical, v2_high = high, v2_medium = medium,
          v2_recs = (if critical \<noteq> [] then [ISOLATE_HOSTS, BLOCK_IPS, RUN_FORENSICS] else []) @
                    (if high \<noteq> [] then [RESET_PASSWORDS, CHECK_OTHER_HOSTS] else [])\<rparr>)"

text \<open>\<open>main\<close> from the value \<open>load_logs\<close> returned (\<open>[]\<close> when the file is missing or
  not JSON): \<open>None\<close> when it returns early on a falsy value.\<close>

definition triage_v2_main :: "pyval \<Rightarrow> py_error + v2_report option" where
  "triage_v2_main logs =
     (if \<not> py_truthy logs then Inr None
      else sbind (py_iter logs) (\<lambda>ls.
           sbind (collect_findings [] ls) (\<lambda>findings. Inr (Some (v2_report_of findings)))))"

section \<open>Version 1\<close>

text \<open>The three alerts of \<open>src/triage_parser.py\<close> with the fields each prints:
  user, IP, time; user, process, time; file, user, time.\<close>

datatype v1_alert =
    V1FailedLogin pyval pyval pyval
  | V1PowerShell pyval pyval pyval
  | V1SensitiveFile pyval pyval pyval

definition v1_event :: "pyval \<Rightarrow> v1_alert list \<times> py_error option" where
  "v1_event log = (case log of
      PDict d \<Rightarrow>
        (let a1 = (if dget d ''status'' PNone = PStr ''FAILED''
                   then [V1FailedLogin (dget d ''user'' PNone) (dget d ''source_ip'' PNone)
                          (dget d ''timestamp'' PNone)] else [])
         in case py_lower_val (dget d ''process'' (PStr '''')) of
              Inl e \<Rightarrow> (a1, Some e)
            | Inr process \<Rightarrow>
                (let a2 = a1 @ (if str_in ''powershell'' process
                                then [V1PowerShell (dget d ''user'' PNone) (dget d ''process'' PNone)
                                       (dget d ''timestamp'' PNone)] else [])
                 in case py_in_str ''/etc/shadow'' (dget d ''file'' (PStr '''')) of
                      Inl e \<Rightarrow> (a2, Some e)
                    | Inr b \<Rightarrow> (a2 @ (if b then [V1SensitiveFile (dget d ''file'' PNone)
                                 (dget d ''user'' PNone) (dget d ''timestamp'' PNone)] else []), None)))
    | _ \<Rightarrow> ([], Some AttributeError))"

fun v1_run :: "pyval list \<Rightarrow> v1_alert list \<times> py_error option" where
  "v1_run [] = ([], None)"
| "v1_run (log # logs) = (case v1_event log of
      (out, Some e) \<Rightarrow> (out, Some e)
    | (out, None) \<Rightarrow> (let (rest, err) = v1_run logs in (out @ rest, err)))"

definition v1_script :: "pyval \<Rightarrow> v1_alert list \<times> py_error option" where
  "v1_script logs = (case py_iter logs of Inl e \<Rightarrow> ([], Some e) | Inr ls \<Rightarrow> v1_run ls)"

section \<open>Specification-side definitions\<close>

text \<open>The v2 finding type and severity that corresponds to each v1 alert.\<close>

fun v1_kind :: "v1_alert \<Rightarrow> string \<times> severity" where
  "v1_kind (V1FailedLogin _ _ _) = (''Failed Login'', HIGH)"
| "v1_kind (V1PowerShell _ _ _) = (''PowerShell Execution'', CRITICAL)"
| "v1_kind (V1SensitiveFile _ _ _) = (''Sensitive File Access'', CRITICAL)"

definition v2_kind :: "v2_finding \<Rightarrow> string \<times> severity" where
  "v2_kind f = (f_type f, f_severity f)"

fun is_pstr :: "pyval \<Rightarrow> bool" where
  "is_pstr (PStr _) = True"
| "is_pstr _ = False"

fun is_container :: "pyval \<Rightarrow> bool" where
  "is_container (PStr _) = True"
| "is_container (PList _) = True"
| "is_container (PDict _) = True"
| "is_container _ = False"

text \<open>The field types under which no detector of v2 raises.\<close>

definition event_fields_ok :: "(string \<times> pyval) list \<Rightarrow> bool" where
  "event_fields_ok d \<longleftrightarrow>
     is_pstr (dget d ''process'' (PStr '''')) \<and> is_container (dget d ''file'' (PStr '''')) \<and>
     (\<not> py_truthy (dget d ''source_ip'' (PStr '''')) \<or> is_pstr (dget d ''source_ip'' (PStr '''')))"

section \<open>Properties\<close>

lemmas detector_defs = analyze_failed_logins_def analyze_powershell_def
  analyze_sensitive_files_def analyze_external_connections_def

lemma any_in_ok: "(\<exists>b. any_in xs v = Inr b) \<longleftrightarrow> xs = [] \<or> is_container v"
  by (induction xs) (cases v; auto simp: py_in_str_def)+

lemma any_in_PStr: "any_in xs (PStr s) = Inr (\<exists>x \<in> set xs. str_in x s)"
  by (induction xs) (auto simp: py_in_str_def)

lemma failed_logins_ok: "\<exists>c. analyze_failed_logins (PDict d) = Inr c"
  by (simp add: analyze_failed_logins_def)

lemma powershell_ok:
  "(\<exists>c. analyze_powershell (PDict d) = Inr c) \<longleftrightarrow> is_pstr (dget d ''process'' (PStr ''''))"
  by (cases "dget d ''process'' (PStr '''')") (simp_all add: analyze_powershell_def py_lower_val_def)

lemma sensitive_files_ok:
  "(\<exists>c. analyze_sensitive_files (PDict d) = Inr c) \<longleftrightarrow> is_container (dget d ''file'' (PStr ''''))"
proof -
  have "sensitive_files \<noteq> []" by (simp add: sensitive_files_def)
  then have "(\<exists>b. any_in sensitive_files (dget d ''file'' (PStr '''')) = Inr b) \<longleftrightarrow>
      is_container (dget d ''file'' (PStr ''''))"
    by (simp add: any_in_ok)
  then show ?thesis by (auto simp: analyze_sensitive_files_def Let_def)
qed

lemma external_connections_ok:
  "(\<exists>c. analyze_external_connections (PDict d) = Inr c) \<longleftrightarrow>
     \<not> py_truthy (dget d ''source_ip'' (PStr '''')) \<or> is_pstr (dget d ''source_ip'' (PStr ''''))"
  by (cases "dget d ''source_ip'' (PStr '''')")
    (simp_all add: analyze_external_connections_def py_startswith_any_def Let_def)

lemma detectors_not_dict:
  "\<nexists>d. log = PDict d \<Longrightarrow> run_checks log = Inl AttributeError"
  by (cases log) (simp_all add: run_checks_def detector_defs)

text \<open>C8: One iteration of the v2 loop returns its findings without raising exactly when the event is a dict whose process is a string, whose file is a string, list or dict, and whose source_ip is falsy or a string; otherwise it raises.\<close>

theorem run_checks_ok:
  "(\<exists>fs. run_checks log = Inr fs) \<longleftrightarrow> (\<exists>d. log = PDict d \<and> event_fields_ok d)"
proof (cases "\<exists>d. log = PDict d")
  case True
  then obtain d where log: "log = PDict d" by blast
  have "(\<exists>fs. run_checks (PDict d) = Inr fs) \<longleftrightarrow>
      (\<exists>c. analyze_powershell (PDict d) = Inr c) \<and> (\<exists>c. analyze_sensitive_files (PDict d) = Inr c) \<and>
      (\<exists>c. analyze_external_connections (PDict d) = Inr c)"
    using failed_logins_ok [of d] by (auto simp: run_checks_def)
  then show ?thesis
    by (simp add: log powershell_ok sensitive_files_ok external_connections_ok event_fields_ok_def)
next
  case False
  then show ?thesis using detectors_not_dict [of log] by auto
qed

text \<open>C7: The failed-login detector fires on every dict event whose status is the string FAILED, with severity HIGH and details that contain the printed user and source IP.\<close>

theorem failed_login_detected:
  assumes "dget d ''status'' PNone = PStr ''FAILED''"
  shows "\<exists>f. analyze_failed_logins (PDict d) = Inr (Some f) \<and> f_severity f = HIGH \<and>
     str_in (py_str (dget d ''user'' PNone)) (f_details f) \<and>
     str_in (py_str (dget d ''source_ip'' PNone)) (f_details f)"
  using assms by (auto simp: analyze_failed_logins_def intro: str_in_append_left str_in_append_right)

lemma collect_findings_acc:
  "collect_findings acc ls = sbind (collect_findings [] ls) (\<lambda>fs. Inr (acc @ fs))"
proof (induction ls arbitrary: acc)
  case Nil
  then show ?case by simp
next
  case (Cons l ls)
  show ?case
  proof (cases "run_checks l")
    case (Inl e)
    then show ?thesis by simp
  next
    case (Inr fs)
    then have "collect_findings acc (l # ls) = collect_findings (acc @ fs) ls" by simp
    also have "\<dots> = sbind (collect_findings [] ls) (\<lambda>gs. Inr (acc @ fs @ gs))"
      using Cons.IH [of "acc @ fs"] by simp
    also have "\<dots> = sbind (collect_findings [] (l # ls)) (\<lambda>gs. Inr (acc @ gs))"
      using Inr Cons.IH [of fs] by (cases "collect_findings [] ls") simp_all
    finally show ?thesis .
  qed
qed

text \<open>C9: The v2 loop over the events returns the concatenation of every event's findings, in event order and detector order within an event, unless some event raises; then the run ends with the exception of the first such event.\<close>

theorem collect_findings_first_error:
  "collect_findings [] ls = (case find (\<lambda>l. isl (run_checks l)) ls of
      None \<Rightarrow> Inr (concat (map (\<lambda>l. projr (run_checks l)) ls))
    | Some l \<Rightarrow> run_checks l)"
proof (induction ls)
  case Nil
  then show ?case by simp
next
  case (Cons l ls)
  show ?case
  proof (cases "run_checks l")
    case (Inl e)
    then show ?thesis by simp
  next
    case (Inr fs)
    then have "collect_findings [] (l # ls) = sbind (collect_findings [] ls) (\<lambda>gs. Inr (fs @ gs))"
      using collect_findings_acc [of fs ls] by simp
    then show ?thesis using Inr Cons.IH
      by (auto simp: sbind_def split: option.splits sum.splits dest!: find_Some_P)
  qed
qed

lemma collect_findings_Inr:
  "collect_findings [] ls = Inr fs \<longleftrightarrow>
     (\<forall>l \<in> set ls. \<not> isl (run_checks l)) \<and> fs = concat (map (\<lambda>l. projr (run_checks l)) ls)"
  by (auto simp: collect_findings_first_error find_None_iff split: option.splits dest!: find_Some_P)


text \<open>C12: The set of v2 findings, counted with multiplicity, does not depend on the order of the events: any permutation of a batch that completes also completes, with the same multiset of findings.\<close>

theorem collect_findings_perm:
  assumes "mset ls' = mset ls" and "collect_findings [] ls = Inr fs"
  shows "\<exists>fs'. collect_findings [] ls' = Inr fs' \<and> mset fs' = mset fs"
proof -
  have "set ls' = set ls" using assms(1) by (metis set_mset_mset)
  then show ?thesis using assms by (simp add: collect_findings_Inr mset_concat_map)
qed

lemma run_checks_severity:
  "run_checks log = Inr fs \<Longrightarrow> f \<in> set fs \<Longrightarrow> f_severity f \<in> {CRITICAL, HIGH, MEDIUM}"
  by (cases log)
    (auto simp: run_checks_def detector_defs Let_def List.map_filter_def split: if_splits)

lemma collect_findings_severity:
  "collect_findings [] ls = Inr fs \<Longrightarrow> f \<in> set fs \<Longrightarrow> f_severity f \<in> {CRITICAL, HIGH, MEDIUM}"
proof -
  assume "collect_findings [] ls = Inr fs" and "f \<in> set fs"
  then obtain l where "l \<in> set ls" "\<not> isl (run_checks l)" "f \<in> set (projr (run_checks l))"
    by (auto simp: collect_findings_Inr)
  then show ?thesis by (metis run_checks_severity not_isl_Inr)
qed

lemma mset_three_groups:
  "\<forall>f \<in> set fs. f_severity f \<in> {CRITICAL, HIGH, MEDIUM} \<Longrightarrow>
   mset [f \<leftarrow> fs. f_severity f = CRITICAL] + mset [f \<leftarrow> fs. f_severity f = HIGH] +
   mset [f \<leftarrow> fs. f_severity f = MEDIUM] = mset fs"
  by (induction fs) auto

text \<open>C11: In every report of v2 the CRITICAL, HIGH and MEDIUM groups are the findings of that severity in first-seen order, and together they hold every finding exactly once.\<close>

theorem v2_report_groups:
  assumes "triage_v2_main logs = Inr (Some r)"
  shows "v2_critical r = [f \<leftarrow> v2_findings r. f_severity f = CRITICAL] \<and>
    v2_high r = [f \<leftarrow> v2_findings r. f_severity f = HIGH] \<and>
    v2_medium r = [f \<leftarrow> v2_findings r. f_severity f = MEDIUM] \<and>
    mset (v2_critical r) + mset (v2_high r) + mset (v2_medium r) = mset (v2_findings r)"
proof -
  obtain ls fs where fs: "collect_findings [] ls = Inr fs" and r: "r = v2_report_of fs"
    using assms by (auto simp: triage_v2_main_def split: if_splits)
  then show ?thesis
    using mset_three_groups [of fs] collect_findings_severity [OF fs]
    by (simp add: v2_report_of_def Let_def)
qed

lemma v1_event_refined:
  assumes "run_checks log = Inr fs"
  shows "snd (v1_event log) = None \<and> subseq (map v1_kind (fst (v1_event log))) (map v2_kind fs)"
proof -
  obtain d where log: "log = PDict d" and ok: "event_fields_ok d"
    using assms run_checks_ok by blast
  obtain p where p: "dget d ''process'' (PStr '''') = PStr p"
    using ok by (cases "dget d ''process'' (PStr '''')") (simp_all add: event_fields_ok_def)
  have shadow: "py_in_str ''/etc/shadow'' v = Inr True \<Longrightarrow> any_in sensitive_files v = Inr True" for v
    by (simp add: sensitive_files_def)
  obtain b where b: "py_in_str ''/etc/shadow'' (dget d ''file'' (PStr '''')) = Inr b"
    using ok by (cases "dget d ''file'' (PStr '''')") (simp_all add: event_fields_ok_def py_in_str_def)
  show ?thesis
    using assms b shadow [of "dget d ''file'' (PStr '''')"]
    by (auto simp: log p v1_event_def run_checks_def detector_defs py_lower_val_def v2_kind_def
        Let_def List.map_filter_def split: if_splits)
qed

text \<open>C10: Version 2 refines version 1: on every batch v2 processes without an exception, v1 also completes, and the alerts v1 prints appear, in order, among the v2 findings as findings of the same kind and of the corresponding severity.\<close>

theorem v1_refined_by_v2:
  "collect_findings [] ls = Inr fs \<Longrightarrow>
   snd (v1_run ls) = None \<and> subseq (map v1_kind (fst (v1_run ls))) (map v2_kind fs)"
proof (induction ls arbitrary: fs)
  case Nil
  then show ?case by simp
next
  case (Cons l ls)
  from Cons.prems obtain fs1 where 1: "run_checks l = Inr fs1" and "collect_findings fs1 ls = Inr fs"
    by auto
  then obtain fs2 where 2: "collect_findings [] ls = Inr fs2" and fs: "fs = fs1 @ fs2"
    using collect_findings_acc [of fs1 ls] by auto
  obtain out where ev: "v1_event l = (out, None)" and sub: "subseq (map v1_kind out) (map v2_kind fs1)"
    using v1_event_refined [OF 1] by (cases "v1_event l") auto
  show ?case
    using Cons.IH [OF 2] ev sub fs
    by (auto simp: split_beta intro: list_emb_append_mono)
qed

theorem failed_login_detected_witness:
  "\<exists>f. analyze_failed_logins (PDict [(''status'', PStr ''FAILED''), (''user'', PStr ''bob''),
      (''source_ip'', PStr ''10.0.0.5'')]) = Inr (Some f) \<and> f_severity f = HIGH \<and>
    str_in ''bob'' (f_details f) \<and> str_in ''10.0.0.5'' (f_details f)"
  using failed_login_detected [of "[(''status'', PStr ''FAILED''), (''user'', PStr ''bob''),
      (''source_ip'', PStr ''10.0.0.5'')]"]
  by (simp add: dget_def py_str_def)

theorem run_checks_ok_witness:
  "\<not> (\<exists>fs. run_checks (PDict [(''user'', PStr ''bob''), (''process'', PNone)]) = Inr fs)"
  using run_checks_ok [of "PDict [(''user'', PStr ''bob''), (''process'', PNone)]"]
  by (simp add: event_fields_ok_def dget_def)

theorem collect_findings_perm_witness:
  "\<exists>fs. collect_findings [] [PDict [(''status'', PStr ''FAILED'')], PDict [(''source_ip'', PStr ''8.8.8.8'')]] = Inr fs \<and>
    (\<exists>fs'. collect_findings [] [PDict [(''source_ip'', PStr ''8.8.8.8'')], PDict [(''status'', PStr ''FAILED'')]] = Inr fs' \<and>
      mset fs' = mset fs)"
  using collect_findings_perm [of "[PDict [(''source_ip'', PStr ''8.8.8.8'')], PDict [(''status'', PStr ''FAILED'')]]"
      "[PDict [(''status'', PStr ''FAILED'')], PDict [(''source_ip'', PStr ''8.8.8.8'')]]"]
  by (simp add: run_checks_def detector_defs dget_def py_lower_val_def sensitive_files_def
      py_in_str_def py_startswith_any_def internal_prefixes_def Let_def)

theorem v2_report_groups_witness:
  "\<exists>r. triage_v2_main (PList [PDict [(''status'', PStr ''FAILED''), (''file'', PStr ''/etc/shadow'')]]) = Inr (Some r) \<and>
     mset (v2_critical r) + mset (v2_high r) + mset (v2_medium r) = mset (v2_findings r)"
  using v2_report_groups [of "PList [PDict [(''status'', PStr ''FAILED''), (''file'', PStr ''/etc/shadow'')]]"]
  by (simp add: triage_v2_main_def py_iter_def run_checks_def detector_defs dget_def py_lower_val_def
      py_lower_def sensitive_files_def py_in_str_def v2_report_of_def Let_def)

theorem v1_refined_by_v2_witness:
  "\<exists>fs. collect_findings [] [PDict [(''status'', PStr ''FAILED''), (''file'', PStr ''/etc/shadow'')]] = Inr fs \<and>
    snd (v1_run [PDict [(''status'', PStr ''FAILED''), (''file'', PStr ''/etc/shadow'')]]) = None \<and>
    subseq (map v1_kind (fst (v1_run [PDict [(''status'', PStr ''FAILED''), (''file'', PStr ''/etc/shadow'')]])))
      (map v2_kind fs)"
  using v1_refined_by_v2 [of "[PDict [(''status'', PStr ''FAILED''), (''file'', PStr ''/etc/shadow'')]]"]
  by (simp add: run_checks_def detector_defs dget_def py_lower_val_def sensitive_files_def
      py_in_str_def Let_def)



end
