(* ===== verification/EDR.thy ===== *)
theory EDR
  imports PyValue Severity
begin
text \<open>
  The keyword triage of EDR events, \<open>src/soc-operations/edr_triage.py\<close> (the copy under
  \<open>src/cases_soc-operations/\<close> has the same code line for line, only comments and printed
  strings are translated). An event is flagged when one of twelve keywords occurs in the
  lower-cased \<open>json.dumps\<close> of the whole event; the batch is split into suspicious and
  clean events, the risk level is banded on the number of suspicious events, and the
  suspicious events are listed with six fields read by \<open>event.get\<close> and saved.
\<close>

definition suspicious_keywords :: "string list" where
  "suspicious_keywords =
     [''suspicious'', ''alert'', ''malware'', ''ransomware'',
      ''trojan'', ''exploit'', ''backdoor'', ''rootkit'',
      ''mimikatz'', ''powershell'', ''cmd.exe'', ''wscript'']"

text \<open>\<open>load_edr_logs\<close> after \<open>json.load\<close>: \<open>data.get('events', [])\<close>.\<close>

definition load_events :: "pyval \<Rightarrow> py_error + pyval" where
  "load_events data = py_get data ''events'' (PList [])"

definition analyze_event :: "pyval \<Rightarrow> bool" where
  "analyze_event event =
     (let event_str = py_lower (json_dumps event)
      in list_ex (\<lambda>keyword. str_in keyword event_str) suspicious_keywords)"

definition triage_logs :: "pyval list \<Rightarrow> pyval list \<times> pyval list" where
  "triage_logs events =
     foldl (\<lambda>(suspicious, clean) event.
              if analyze_event event then (suspicious @ [event], clean)
              else (suspicious, clean @ [event]))
           ([], []) events"

text \<open>The risk level \<open>print_summary\<close> prints.\<close>

definition risk_level :: "nat \<Rightarrow> severity" where
  "risk_level n = (if n > 5 then HIGH else if n > 0 then MEDIUM else LOW)"

text \<open>One entry of \<open>print_suspicious_events\<close>: its number and the six fields, each
  \<open>event.get(k, 'N/A')\<close>; a suspicious event that is not a dict raises there.\<close>

record listing_entry =
  le_number :: nat
  le_event_id :: pyval
  le_timestamp :: pyval
  le_event_type :: pyval
  le_process :: pyval
  le_details :: pyval
  le_severity :: pyval

fun listing :: "nat \<Rightarrow> pyval list \<Rightarrow> py_error + listing_entry list" where
  "listing i [] = Inr []"
| "listing i (event # events) =
     sbind (py_get event ''event_id'' (PStr ''N/A'')) (\<lambda>event_id.
     sbind (py_get event ''timestamp'' (PStr ''N/A'')) (\<lambda>timestamp.
     sbind (py_get event ''event_type'' (PStr ''N/A'')) (\<lambda>event_type.
     sbind (py_get event ''process_name'' (PStr ''N/A'')) (\<lambda>process.
     sbind (py_get event ''details'' (PStr ''N/A'')) (\<lambda>details.
     sbind (py_get event ''severity'' (PStr ''N/A'')) (\<lambda>sev.
     sbind (listing (Suc i) events) (\<lambda>rest.
       Inr (\<lparr>le_number = i, le_event_id = event_id, le_timestamp = timestamp,
              le_event_type = event_type, le_process = process, le_details = details,
              le_severity = sev\<rparr> # rest))))))))"

definition print_suspicious_events :: "pyval list \<Rightarrow> py_error + listing_entry list" where
  "print_suspicious_events events = (if events = [] then Inr [] else listing 1 events)"

text \<open>What \<open>main\<close> reports from the parsed file: the summary counts, the risk level,
  the listing, and the events written to the output file when there are any.\<close>

record edr_result =
  er_total :: nat
  er_clean :: nat
  er_suspicious :: nat
  er_risk :: severity
  er_listing :: "listing_entry list"
  er_saved :: "pyval list option"

definition edr_main :: "pyval \<Rightarrow> py_error + edr_result" where
  "edr_main data =
     sbind (load_events data) (\<lambda>events.
     sbind (py_iter events) (\<lambda>events.
       (let (suspicious, clean) = triage_logs events in
        sbind (print_suspicious_events suspicious) (\<lambda>shown.
          Inr \<lparr>er_total = length suspicious + length clean, er_clean = length clean,
               er_suspicious = length suspicious, er_risk = risk_level (length suspicious),
               er_listing = shown,
               er_saved = (if suspicious \<noteq> [] then Some suspicious else None)\<rparr>))))"

text \<open>The characters of the keywords.\<close>

definition keyword_chars :: "char set" where
  "keyword_chars = set ''abcdefghijklmnopqrstuvwxyz.''"

section \<open>Properties\<close>


lemma json_escape_char_plain:
  assumes "(of_char c :: nat) = 46 \<or> (65 \<le> (of_char c :: nat) \<and> (of_char c :: nat) \<le> 90) \<or>
    (97 \<le> (of_char c :: nat) \<and> (of_char c :: nat) \<le> 122)"
  shows "json_escape_char c = [c]"
proof -
  have n: "c \<noteq> CHR 0x22 \<and> c \<noteq> CHR 0x5C \<and> c \<noteq> CHR 0x0A \<and> c \<noteq> CHR 0x0D \<and> c \<noteq> CHR 0x09 \<and>
      c \<noteq> CHR 0x08 \<and> c \<noteq> CHR 0x0C"
    using assms by auto
  have "\<not> (of_char c :: nat) < 32 \<and> \<not> 126 < (of_char c :: nat)"
    using assms by arith
  then show ?thesis using n unfolding json_escape_char_def Let_def by simp
qed

lemma keyword_chars_code:
  "x \<in> keyword_chars \<Longrightarrow> (of_char x :: nat) = 46 \<or> (97 \<le> (of_char x :: nat) \<and> (of_char x :: nat) \<le> 122)"
  unfolding keyword_chars_def by (simp only: set_simps insert_iff empty_iff) (elim disjE; simp)

lemma lower_char_keyword:
  assumes "lower_char c \<in> keyword_chars"
  shows "(of_char c :: nat) = 46 \<or> (65 \<le> (of_char c :: nat) \<and> (of_char c :: nat) \<le> 90) \<or>
    (97 \<le> (of_char c :: nat) \<and> (of_char c :: nat) \<le> 122)"
proof (cases "(65 \<le> (of_char c :: nat) \<and> (of_char c :: nat) \<le> 90) \<or>
    (192 \<le> (of_char c :: nat) \<and> (of_char c :: nat) \<le> 222 \<and> (of_char c :: nat) \<noteq> 215)")
  case True
  then have "lower_char c = char_of ((of_char c :: nat) + 32)"
    by (simp add: lower_char_def Let_def)
  moreover have "(of_char (char_of ((of_char c :: nat) + 32)) :: nat) = of_char c + 32"
    using True by (auto simp: of_char_of)
  ultimately show ?thesis using keyword_chars_code [OF assms] True by auto
next
  case False
  then have "lower_char c = c" by (auto simp: lower_char_def Let_def)
  then show ?thesis using keyword_chars_code [of c] assms by auto
qed

lemma sublist_py_join: "w \<in> set xs \<Longrightarrow> sublist w (py_join sep xs)"
proof (induction sep xs rule: py_join.induct)
  case (3 sep x y ys)
  then show ?case
  proof (cases "w = x")
    case True
    then show ?thesis by simp
  next
    case False
    then have "sublist w (py_join sep (y # ys))" using 3 by simp
    moreover have "sublist (py_join sep (y # ys)) (py_join sep (x # y # ys))"
      using sublist_append_leftI [of "py_join sep (y # ys)" "x @ sep"] by simp
    ultimately show ?thesis by (rule sublist_order.order.trans)
  qed
qed simp_all

lemma sublist_py_lower_mono: "sublist x y \<Longrightarrow> sublist (py_lower x) (py_lower y)"
proof -
  assume "sublist x y"
  then obtain ps ss where "y = ps @ x @ ss" by (auto simp: sublist_def)
  then show ?thesis by (simp add: sublist_appendI)
qed

lemma sublist_py_lower:
  assumes "sublist w (py_lower s)"
  shows "\<exists>m. sublist m s \<and> py_lower m = w"
proof -
  obtain a b where eq: "map lower_char s = a @ w @ b"
    using assms by (auto simp: sublist_def py_lower_def)
  let ?m = "take (length w) (drop (length a) s)"
  have "map lower_char ?m = take (length w) (drop (length a) (map lower_char s))"
    by (simp add: drop_map take_map)
  then have "py_lower ?m = w" using eq by (simp add: py_lower_def)
  moreover have d: "?m @ drop (length w) (drop (length a) s) = drop (length a) s"
    by (rule append_take_drop_id)
  have eq2: "take (length a) s @ ?m @ drop (length w) (drop (length a) s) = s"
    by (simp only: d append_take_drop_id)
  have "sublist ?m (take (length a) s @ ?m @ drop (length w) (drop (length a) s))"
    by (rule sublist_appendI)
  then have "sublist ?m s" by (simp only: eq2)
  ultimately show ?thesis by blast
qed

lemma keyword_chars_suspicious: "kw \<in> set suspicious_keywords \<Longrightarrow> set kw \<subseteq> keyword_chars"
  by (auto simp: suspicious_keywords_def keyword_chars_def)

lemma json_escape_keyword: "set (py_lower m) \<subseteq> keyword_chars \<Longrightarrow> concat (map json_escape_char m) = m"
  by (induction m) (simp_all add: py_lower_def json_escape_char_plain lower_char_keyword)

text \<open>C16: No false negatives on string fields: if some field of an event dict holds a string that contains a suspicious keyword in any letter case, the event is flagged.\<close>

theorem analyze_event_field_keyword:
  assumes "(k, PStr s) \<in> set kvs" and "kw \<in> set suspicious_keywords" and "str_in kw (py_lower s)"
  shows "analyze_event (PDict kvs)"
proof -
  obtain m where m: "sublist m s" "py_lower m = kw"
    using sublist_py_lower assms(3) by (auto simp: str_in_sublist)
  have esc: "concat (map json_escape_char m) = m"
    using json_escape_keyword keyword_chars_suspicious [OF assms(2)] m(2) by simp
  obtain a b where s: "s = a @ m @ b" using m(1) by (auto simp: sublist_def)
  have "py_lower (json_str s) = py_lower (CHR 0x22 # concat (map json_escape_char a)) @ kw @
      py_lower (concat (map json_escape_char b) @ [CHR 0x22])"
    using s esc m(2) by (simp add: json_str_def)
  then have "sublist kw (py_lower (json_str s))"
    using sublist_appendI [of kw "py_lower (CHR 0x22 # concat (map json_escape_char a))"
        "py_lower (concat (map json_escape_char b) @ [CHR 0x22])"] by simp
  moreover have "sublist (json_str s) (json_dumps (PDict kvs))"
  proof -
    have "json_str k @ '': '' @ json_str s \<in> set (map (\<lambda>(k, v). json_str k @ '': '' @ json_dumps v) kvs)"
      using assms(1) by force
    then have "sublist (json_str s) (py_join '', '' (map (\<lambda>(k, v). json_str k @ '': '' @ json_dumps v) kvs))"
      by (meson sublist_py_join sublist_append_leftI sublist_order.order.trans)
    then show ?thesis using sublist_in_middle [of "json_str s" _ "''{''" "''}''"] by simp
  qed
  ultimately have "str_in kw (py_lower (json_dumps (PDict kvs)))"
    by (meson sublist_py_lower_mono sublist_order.order.trans str_in_sublist)
  then show ?thesis using assms(2) by (auto simp: analyze_event_def list_ex_iff)
qed

text \<open>C15: The triage loop refines two filters: the suspicious events are exactly the events analyze_event flags and the clean ones the rest, each in input order.\<close>

theorem triage_logs_filter:
  "triage_logs events = (filter analyze_event events, filter (\<lambda>e. \<not> analyze_event e) events)"
proof (induction events rule: rev_induct)
  case Nil
  then show ?case by (simp add: triage_logs_def)
next
  case (snoc e events)
  then show ?case by (simp add: triage_logs_def split: prod.splits)
qed

lemma listing_ok:
  "(\<exists>ls. listing i events = Inr ls) \<longleftrightarrow> (\<forall>e \<in> set events. \<exists>d. e = PDict d)"
proof (induction events arbitrary: i)
  case Nil
  then show ?case by simp
next
  case (Cons e events)
  then show ?case by (cases e) (auto simp: py_get_def)
qed

lemma edr_main_events:
  "edr_main (PDict [(''events'', PList es)]) =
     sbind (print_suspicious_events (filter analyze_event es)) (\<lambda>shown.
       Inr \<lparr>er_total = length (filter analyze_event es) + length (filter (\<lambda>e. \<not> analyze_event e) es),
            er_clean = length (filter (\<lambda>e. \<not> analyze_event e) es),
            er_suspicious = length (filter analyze_event es),
            er_risk = risk_level (length (filter analyze_event es)), er_listing = shown,
            er_saved = (if filter analyze_event es \<noteq> [] then Some (filter analyze_event es) else None)\<rparr>)"
  by (simp add: edr_main_def load_events_def py_get_def dget_def py_iter_def triage_logs_filter)

text \<open>C18: main completes on a batch exactly when every suspicious event is a dict; a flagged event of another type makes the listing raise AttributeError.\<close>

theorem edr_main_ok_iff:
  "(\<exists>r. edr_main (PDict [(''events'', PList es)]) = Inr r) \<longleftrightarrow>
     (\<forall>e \<in> set es. analyze_event e \<longrightarrow> (\<exists>d. e = PDict d))"
  using listing_ok [of 1 "filter analyze_event es"]
  by (auto simp: edr_main_events print_suspicious_events_def)

text \<open>C17: On a batch whose suspicious events are all dicts, main completes; the counts add up to the batch size and the risk level is HIGH above five suspicious events, MEDIUM for one to five and LOW for none.\<close>

theorem edr_main_risk:
  assumes "\<forall>e \<in> set es. analyze_event e \<longrightarrow> (\<exists>d. e = PDict d)"
  shows "\<exists>r. edr_main (PDict [(''events'', PList es)]) = Inr r \<and>
    er_total r = length es \<and> er_suspicious r = length (filter analyze_event es) \<and>
    er_clean r = er_total r - er_suspicious r \<and>
    er_risk r = (if 5 < er_suspicious r then HIGH else if 0 < er_suspicious r then MEDIUM else LOW)"
proof -
  have "\<exists>shown. print_suspicious_events (filter analyze_event es) = Inr shown"
    using assms listing_ok [of 1 "filter analyze_event es"]
    by (simp add: print_suspicious_events_def)
  then obtain shown where "print_suspicious_events (filter analyze_event es) = Inr shown" ..
  then show ?thesis using sum_length_filter_compl [of analyze_event es]
    by (simp add: edr_main_events risk_level_def)
qed


theorem edr_main_ok_iff_witness:
  "\<not> (\<exists>r. edr_main (PDict [(''events'', PList [PStr ''malware found''])]) = Inr r)"
  using edr_main_ok_iff [of "[PStr ''malware found'']"]
  by (simp add: analyze_event_def suspicious_keywords_def json_str_def json_escape_char_def
      lower_char_def)

theorem analyze_event_field_keyword_witness:
  "analyze_event (PDict [(''id'', PInt 1), (''cmd'', PStr ''Invoke-MIMIKATZ'')])"
  using analyze_event_field_keyword [of "''cmd''" "''Invoke-MIMIKATZ''"
      "[(''id'', PInt 1), (''cmd'', PStr ''Invoke-MIMIKATZ'')]" "''mimikatz''"]
  by (simp add: suspicious_keywords_def lower_char_def char_of_eq_iff)

theorem edr_main_risk_witness:
  "\<exists>r. edr_main (PDict [(''events'', PList (replicate 6 (PDict [(''d'', PStr ''malware'')])))]) = Inr r \<and>
     er_risk r = HIGH \<and> er_suspicious r = 6"
  using edr_main_risk [of "replicate 6 (PDict [(''d'', PStr ''malware'')])"]
  by (simp add: numeral_eq_Suc analyze_event_def suspicious_keywords_def json_str_def
      json_escape_char_def lower_char_def) auto

end
