(* ===== verification/DirBuster.thy ===== *)
theory DirBuster
  imports Prelude Severity "HOL-Library.Multiset"
begin
text \<open>
  The directory scanner \<open>DirBusterSim\<close> of
  \<open>src/redteam-operations/recon_tools/dirbuster_sim.py\<close>: loading the wordlist, checking
  one path (\<open>check_path\<close>, the HTTP response given as a value), the pool of worker
  threads draining the queue, the classification of the paths found and the printed report.

  The threads are a step relation on the queue, the paths in flight (at most one per
  worker) and \<open>self.found_paths\<close>: a worker takes the head of the queue when it is idle,
  and any path in flight may complete next and append its result, so every interleaving
  of the workers is a run of the relation.

  \<open>urljoin\<close> is modelled for an \<open>http(s)\<close> base without query or fragment and a
  reference without scheme, \<open>//\<close>, query, fragment or dot segments, which covers the
  default wordlist and every stripped line of a plain wordlist.
\<close>

section \<open>Wordlist and URLs\<close>

definition default_wordlist :: "string list" where
  "default_wordlist = [
     ''admin'', ''administrator'', ''login'', ''dashboard'', ''panel'',
     ''wp-admin'', ''phpmyadmin'', ''cpanel'', ''webmail'',
     ''backup'', ''backups'', ''.git'', ''.env'', ''config'',
     ''api'', ''api/v1'', ''api/v2'', ''api/docs'',
     ''uploads'', ''upload'', ''files'', ''images'', ''assets'',
     ''test'', ''dev'', ''staging'', ''beta'',
     ''admin.php'', ''login.php'', ''config.php'', ''db.php'',
     ''robots.txt'', ''sitemap.xml'', ''.htaccess'', ''web.config'',
     ''swagger'', ''graphql'', ''wp-content'', ''wp-includes'',
     ''vendor'', ''node_modules'', ''.git/config'', ''.svn'',
     ''server-status'', ''server-info'', ''phpinfo.php'',
     ''shell.php'', ''cmd.php'', ''backdoor.php'',
     ''database'', ''db'', ''sql'', ''mysql'',
     ''adminer.php'', ''setup.php'', ''install.php'',
     ''logs'', ''log'', ''error_log'', ''access_log'',
     ''tmp'', ''temp'', ''cache'', ''.cache'',
     ''private'', ''internal'', ''secret'', ''hidden'',
     ''user'', ''users'', ''account'', ''profile'']"

text \<open>\<open>load_wordlist\<close>: the lines of the wordlist file when one is given and exists
  (\<open>None\<close> when no file is given or it is not found).\<close>

definition load_wordlist :: "string list option \<Rightarrow> string list" where
  "load_wordlist file_lines = (case file_lines of
      Some lines \<Rightarrow> [py_strip line. line \<leftarrow> lines, py_strip line \<noteq> []]
    | None \<Rightarrow> default_wordlist)"


text \<open>The scheme and network location of a base URL, and its path.\<close>

definition url_split :: "string \<Rightarrow> string \<times> string" where
  "url_split base =
     (let scheme = takeWhile (\<lambda>c. c \<noteq> CHR '':'') base; rest = drop (length scheme) base in
      if scheme \<noteq> [] \<and> starts_with rest ''://'' then
        (let r = drop 3 rest; netloc = takeWhile (\<lambda>c. c \<noteq> CHR ''/'') r
         in (scheme @ ''://'' @ netloc, drop (length netloc) r))
      else ([], base))"

text \<open>\<open>urljoin(base, ref)\<close>: a relative reference replaces the last segment of the
  base path.\<close>

definition urljoin :: "string \<Rightarrow> string \<Rightarrow> string" where
  "urljoin base ref =
     (let (auth, path) = url_split base in
      if ref = [] then base
      else if starts_with ref ''/'' then auth @ ref
      else if path = [] \<and> auth \<noteq> [] then auth @ ''/'' @ ref
      else auth @ rev (dropWhile (\<lambda>c. c \<noteq> CHR ''/'') (rev path)) @ ref)"

section \<open>Checking one path\<close>

text \<open>What \<open>session.get\<close> gives: a response (status and body length) or one of the
  exceptions \<open>check_path\<close> catches.\<close>

datatype response = Response int nat | Timeout | ConnectionError | OtherError string

record path_result =
  pr_url :: string
  pr_path :: string
  pr_status :: int
  pr_size :: nat
  pr_found :: bool

datatype check_result = Checked path_result | CheckFailed string string

definition found_statuses :: "int list" where
  "found_statuses = [200, 201, 202, 203, 301, 302, 401, 403]"

text \<open>\<open>check_path\<close>: its result and \<open>self.found_paths\<close> after it.\<close>

definition check_path ::
  "string \<Rightarrow> string \<Rightarrow> response \<Rightarrow> path_result list \<Rightarrow> check_result \<times> path_result list" where
  "check_path target path resp found =
     (let url = urljoin target path in
      case resp of
        Response status content_length \<Rightarrow>
          (let result = \<lparr>pr_url = url, pr_path = path, pr_status = status, pr_size = content_length,
                         pr_found = status \<in> set found_statuses\<rparr>
           in (Checked result, if pr_found result then found @ [result] else found))
      | Timeout \<Rightarrow> (CheckFailed url ''timeout'', found)
      | ConnectionError \<Rightarrow> (CheckFailed url ''connection_error'', found)
      | OtherError e \<Rightarrow> (CheckFailed url e, found))"

section \<open>The scanner and its worker threads\<close>

record dirbuster =
  db_target :: string
  db_wordlist :: "string list option"
  db_threads :: int
  db_found :: "path_result list"


text \<open>The queue, the path each busy worker is checking, and \<open>self.found_paths\<close>.\<close>

record scan_state =
  sc_queue :: "string list"
  sc_busy :: "string list"
  sc_found :: "path_result list"

definition scan_start :: "dirbuster \<Rightarrow> scan_state" where
  "scan_start db = \<lparr>sc_queue = load_wordlist (db_wordlist db), sc_busy = [], sc_found = db_found db\<rparr>"

text \<open>One step of the pool: an idle worker (there are \<open>range(threads)\<close> of them) takes the
  head of the queue, or a busy worker finishes \<open>check_path\<close> on its path. The responses
  of the server are the function \<open>resp\<close>.\<close>

inductive scan_step :: "dirbuster \<Rightarrow> (string \<Rightarrow> response) \<Rightarrow> scan_state \<Rightarrow> scan_state \<Rightarrow> bool"
  for db resp where
  take: "int (length (sc_busy s)) < db_threads db \<Longrightarrow> sc_queue s = p # q \<Longrightarrow>
    scan_step db resp s (s\<lparr>sc_queue := q, sc_busy := sc_busy s @ [p]\<rparr>)"
| finish: "sc_busy s = pre @ p # post \<Longrightarrow>
    scan_step db resp s (s\<lparr>sc_busy := pre @ post,
      sc_found := snd (check_path (db_target db) p (resp p) (sc_found s))\<rparr>)"

text \<open>\<open>queue.join()\<close> returns once the queue is drained and every task is done.\<close>

definition scan_done :: "scan_state \<Rightarrow> bool" where
  "scan_done s \<longleftrightarrow> sc_queue s = [] \<and> sc_busy s = []"

section \<open>Report\<close>

record db_report =
  rp_timestamp :: string
  rp_target :: string
  rp_total_found :: nat
  rp_critical :: "path_result list"
  rp_high :: "path_result list"
  rp_medium :: "path_result list"
  rp_info :: "path_result list"

text \<open>The category of one finding, by the \<open>if\<close>/\<open>elif\<close> chain of \<open>generate_report\<close>.\<close>

definition classify_path :: "path_result \<Rightarrow> severity" where
  "classify_path finding =
     (let path = py_lower (pr_path finding); status = pr_status finding in
      if list_ex (\<lambda>word. str_in word path)
           [''.git'', ''.env'', ''config.php'', ''db.php'', ''backup'', ''shell'', ''cmd''] then CRITICAL
      else if list_ex (\<lambda>word. str_in word path)
           [''admin'', ''phpmyadmin'', ''cpanel'', ''api'', ''graphql''] then HIGH
      else if status = 403 \<or> list_ex (\<lambda>word. str_in word path) [''upload'', ''files'', ''logs'']
      then MEDIUM
      else INFO)"

definition report_add :: "db_report \<Rightarrow> path_result \<Rightarrow> db_report" where
  "report_add r finding =
     (let c = classify_path finding in
      if c = CRITICAL then r\<lparr>rp_critical := rp_critical r @ [finding]\<rparr>
      else if c = HIGH then r\<lparr>rp_high := rp_high r @ [finding]\<rparr>
      else if c = MEDIUM then r\<lparr>rp_medium := rp_medium r @ [finding]\<rparr>
      else r\<lparr>rp_info := rp_info r @ [finding]\<rparr>)"

text \<open>\<open>generate_report\<close> at the time \<open>now\<close> (\<open>datetime.now().isoformat()\<close>).\<close>

definition generate_report :: "string \<Rightarrow> dirbuster \<Rightarrow> db_report" where
  "generate_report now db =
     foldl report_add
       \<lparr>rp_timestamp = now, rp_target = db_target db, rp_total_found = length (db_found db),
        rp_critical = [], rp_high = [], rp_medium = [], rp_info = []\<rparr>
       (db_found db)"

text \<open>The sections \<open>print_report\<close> prints: each non-empty category with its size and
  the status and URL of its first ten findings.\<close>

definition print_report :: "db_report \<Rightarrow> (string \<times> nat \<times> (int \<times> string) list) list" where
  "print_report r =
     [(name, length fs, map (\<lambda>f. (pr_status f, pr_url f)) (take 10 fs)).
        (name, fs) \<leftarrow> [(''CRITICAL'', rp_critical r), (''HIGH'', rp_high r),
                       (''MEDIUM'', rp_medium r), (''INFO'', rp_info r)], fs \<noteq> []]"

text \<open>The results one path adds to \<open>found_paths\<close> under a response.\<close>

definition path_hits :: "string \<Rightarrow> string \<Rightarrow> response \<Rightarrow> path_result list" where
  "path_hits target path resp = (case resp of
      Response status len \<Rightarrow>
        (if status \<in> set found_statuses
         then [\<lparr>pr_url = urljoin target path, pr_path = path, pr_status = status, pr_size = len,
                pr_found = True\<rparr>] else [])
    | _ \<Rightarrow> [])"

section \<open>Properties\<close>


lemma check_path_found: "snd (check_path target p r found) = found @ path_hits target p r"
  by (cases r) (simp_all add: check_path_def path_hits_def Let_def)

lemma scan_found_inv:
  assumes "(scan_step db resp)\<^sup>*\<^sup>* (scan_start db) s"
  shows "\<exists>checked. mset (load_wordlist (db_wordlist db)) = mset (sc_queue s) + mset (sc_busy s) + mset checked \<and>
    mset (sc_found s) = mset (db_found db) + (\<Sum>p \<in># mset checked. mset (path_hits (db_target db) p (resp p)))"
  using assms
proof (induction rule: rtranclp_induct)
  case base
  show ?case by (rule exI [of _ "[]"]) (simp add: scan_start_def)
next
  case (step s s')
  then obtain checked where
    q: "mset (load_wordlist (db_wordlist db)) = mset (sc_queue s) + mset (sc_busy s) + mset checked" and
    f: "mset (sc_found s) = mset (db_found db) + (\<Sum>p \<in># mset checked. mset (path_hits (db_target db) p (resp p)))"
    by blast
  from step.hyps(2) show ?case
  proof cases
    case (take p q)
    then show ?thesis using q f by (intro exI [of _ checked]) simp
  next
    case (finish pre p post)
    then show ?thesis using q f
      by (intro exI [of _ "p # checked"]) (simp add: check_path_found)
  qed
qed

lemma scan_step_measure:
  "scan_step db resp s s' \<Longrightarrow>
     2 * length (sc_queue s') + length (sc_busy s') < 2 * length (sc_queue s) + length (sc_busy s)"
  by (induction rule: scan_step.induct) auto

text \<open>C22: With at least one worker thread, from every state of the pool a state where the queue is drained and no worker is busy is reachable, so queue.join() returns.\<close>

theorem scan_terminates:
  assumes "0 < db_threads db"
  shows "\<exists>s'. (scan_step db resp)\<^sup>*\<^sup>* s s' \<and> scan_done s'"
proof (induction "2 * length (sc_queue s) + length (sc_busy s)" arbitrary: s rule: less_induct)
  case less
  show ?case
  proof (cases "sc_busy s")
    case (Cons p post)
    let ?s1 = "s\<lparr>sc_busy := post, sc_found := snd (check_path (db_target db) p (resp p) (sc_found s))\<rparr>"
    have st: "scan_step db resp s ?s1" using scan_step.finish [of s "[]" p post] Cons by simp
    then obtain s' where "(scan_step db resp)\<^sup>*\<^sup>* ?s1 s'" "scan_done s'"
      using less scan_step_measure [OF st] by blast
    then show ?thesis using st by (meson converse_rtranclp_into_rtranclp)
  next
    case Nil
    show ?thesis
    proof (cases "sc_queue s")
      case Nil': Nil
      then show ?thesis using Nil by (auto simp: scan_done_def)
    next
      case (Cons p q)
      let ?s1 = "s\<lparr>sc_queue := q, sc_busy := sc_busy s @ [p]\<rparr>"
      have st: "scan_step db resp s ?s1" using scan_step.take [of s db p q] Cons Nil assms by simp
      then obtain s' where "(scan_step db resp)\<^sup>*\<^sup>* ?s1 s'" "scan_done s'"
        using less scan_step_measure [OF st] by blast
      then show ?thesis using st by (meson converse_rtranclp_into_rtranclp)
    qed
  qed
qed

text \<open>C23: With zero or a negative number of threads and a non-empty wordlist no worker ever takes a path, so the scan never completes: queue.join() blocks forever.\<close>

theorem scan_deadlock:
  assumes "db_threads db \<le> 0" and "load_wordlist (db_wordlist db) \<noteq> []"
  shows "\<not> (\<exists>s. (scan_step db resp)\<^sup>*\<^sup>* (scan_start db) s \<and> scan_done s)"
proof -
  have stuck: "\<not> scan_step db resp (scan_start db) s'" for s'
  proof
    assume "scan_step db resp (scan_start db) s'"
    then show False using assms(1) by cases (auto simp: scan_start_def)
  qed
  have eq: "s = scan_start db" if "(scan_step db resp)\<^sup>*\<^sup>* (scan_start db) s" for s
    using that stuck by (auto elim: converse_rtranclpE)
  show ?thesis
  proof
    assume "\<exists>s. (scan_step db resp)\<^sup>*\<^sup>* (scan_start db) s \<and> scan_done s"
    then obtain s where r: "(scan_step db resp)\<^sup>*\<^sup>* (scan_start db) s" and d: "scan_done s" by blast
    from r have "s = scan_start db" by (rule eq)
    with d assms(2) show False by (simp add: scan_done_def scan_start_def)
  qed
qed

lemma foldl_report_add:
  "foldl report_add r fs =
     r\<lparr>rp_critical := rp_critical r @ [f \<leftarrow> fs. classify_path f = CRITICAL],
       rp_high := rp_high r @ [f \<leftarrow> fs. classify_path f = HIGH],
       rp_medium := rp_medium r @ [f \<leftarrow> fs. classify_path f = MEDIUM],
       rp_info := rp_info r @ [f \<leftarrow> fs. classify_path f \<notin> {CRITICAL, HIGH, MEDIUM}]\<rparr>"
  by (induction fs arbitrary: r) (auto simp: report_add_def Let_def)

lemma classify_path_range: "classify_path f \<in> {CRITICAL, HIGH, MEDIUM, INFO}"
  by (simp add: classify_path_def Let_def)

lemma classify_path_info:
  "(classify_path f \<noteq> CRITICAL \<and> classify_path f \<noteq> HIGH \<and> classify_path f \<noteq> MEDIUM) \<longleftrightarrow>
   classify_path f = INFO"
  using classify_path_range [of f] by auto

text \<open>C25: generate_report puts each found path in the category classify_path gives it, in found order, and the total is the sum of the category sizes.\<close>

theorem generate_report_partition:
  "rp_critical (generate_report now db) = [f \<leftarrow> db_found db. classify_path f = CRITICAL] \<and>
   rp_high (generate_report now db) = [f \<leftarrow> db_found db. classify_path f = HIGH] \<and>
   rp_medium (generate_report now db) = [f \<leftarrow> db_found db. classify_path f = MEDIUM] \<and>
   rp_info (generate_report now db) = [f \<leftarrow> db_found db. classify_path f = INFO] \<and>
   rp_total_found (generate_report now db) =
     length (rp_critical (generate_report now db)) + length (rp_high (generate_report now db)) +
     length (rp_medium (generate_report now db)) + length (rp_info (generate_report now db))"
proof -
  have len: "length fs = length [f \<leftarrow> fs. classify_path f = CRITICAL] + length [f \<leftarrow> fs. classify_path f = HIGH] +
      length [f \<leftarrow> fs. classify_path f = MEDIUM] + length [f \<leftarrow> fs. classify_path f = INFO]" for fs
    using classify_path_range by (induction fs) auto
  show ?thesis by (simp add: generate_report_def foldl_report_add classify_path_info len [symmetric])
qed

text \<open>C20: Whatever the interleaving of the worker threads, a scan that completes has appended to found_paths exactly the found result of each wordlist entry, once per entry: as multisets, the found paths are the previous ones plus the hits of every path of the wordlist.\<close>

theorem scan_complete_found:
  assumes "(scan_step db resp)\<^sup>*\<^sup>* (scan_start db) s" and "scan_done s"
  shows "mset (sc_found s) = mset (db_found db) +
    mset (concat (map (\<lambda>p. path_hits (db_target db) p (resp p)) (load_wordlist (db_wordlist db))))"
  using scan_found_inv [OF assms(1)] assms(2) by (auto simp: scan_done_def mset_concat_map)

text \<open>C21: Two completed scans of the same wordlist against the same server, under any two interleavings of the threads, give reports with the same number of findings and the same multiset of findings in each category.\<close>

theorem scan_report_interleaving:
  assumes "(scan_step db resp)\<^sup>*\<^sup>* (scan_start db) s1" and "scan_done s1"
    and "(scan_step db resp)\<^sup>*\<^sup>* (scan_start db) s2" and "scan_done s2"
  shows "rp_total_found (generate_report now (db\<lparr>db_found := sc_found s1\<rparr>)) =
      rp_total_found (generate_report now (db\<lparr>db_found := sc_found s2\<rparr>)) \<and>
    mset (rp_critical (generate_report now (db\<lparr>db_found := sc_found s1\<rparr>))) =
      mset (rp_critical (generate_report now (db\<lparr>db_found := sc_found s2\<rparr>))) \<and>
    mset (rp_high (generate_report now (db\<lparr>db_found := sc_found s1\<rparr>))) =
      mset (rp_high (generate_report now (db\<lparr>db_found := sc_found s2\<rparr>))) \<and>
    mset (rp_medium (generate_report now (db\<lparr>db_found := sc_found s1\<rparr>))) =
      mset (rp_medium (generate_report now (db\<lparr>db_found := sc_found s2\<rparr>))) \<and>
    mset (rp_info (generate_report now (db\<lparr>db_found := sc_found s1\<rparr>))) =
      mset (rp_info (generate_report now (db\<lparr>db_found := sc_found s2\<rparr>)))"
proof -
  have m: "mset (sc_found s1) = mset (sc_found s2)"
    using scan_found_inv [OF assms(1)] scan_found_inv [OF assms(3)] assms(2,4)
    by (auto simp: scan_done_def)
  then have "length (sc_found s1) = length (sc_found s2)" by (metis size_mset)
  with m show ?thesis by (simp add: generate_report_def foldl_report_add)
qed

text \<open>The classification of the examples of the specification: /.env with 200 is CRITICAL, /admin with 401 is HIGH, /uploads with 403 is MEDIUM and / with 200 is INFO.\<close>

lemma classify_path_examples:
  "classify_path \<lparr>pr_url = ''http://h/.env'', pr_path = ''/.env'', pr_status = 200, pr_size = 0, pr_found = True\<rparr> = CRITICAL \<and>
   classify_path \<lparr>pr_url = ''http://h/admin'', pr_path = ''/admin'', pr_status = 401, pr_size = 0, pr_found = True\<rparr> = HIGH \<and>
   classify_path \<lparr>pr_url = ''http://h/uploads'', pr_path = ''/uploads'', pr_status = 403, pr_size = 0, pr_found = True\<rparr> = MEDIUM \<and>
   classify_path \<lparr>pr_url = ''http://h/'', pr_path = ''/'', pr_status = 200, pr_size = 0, pr_found = True\<rparr> = INFO"
  by (simp add: classify_path_def lower_char_def)

text \<open>C26: print_report prints at most four sections, only non-empty ones, and each lists exactly the first min(n, 10) of its n findings.\<close>

theorem print_report_bounds:
  "length (print_report r) \<le> 4 \<and>
   (\<forall>(name, n, shown) \<in> set (print_report r). 0 < n \<and> length shown = min n 10)"
  by (auto simp: print_report_def)


theorem scan_terminates_witness:
  "\<exists>s'. (scan_step \<lparr>db_target = ''http://h'', db_wordlist = None, db_threads = 10, db_found = []\<rparr>
      (\<lambda>p. Timeout))\<^sup>*\<^sup>* (scan_start \<lparr>db_target = ''http://h'', db_wordlist = None, db_threads = 10, db_found = []\<rparr>) s'
    \<and> scan_done s'"
  by (rule scan_terminates) simp

theorem scan_deadlock_witness:
  "\<not> (\<exists>s. (scan_step \<lparr>db_target = ''http://h'', db_wordlist = None, db_threads = 0, db_found = []\<rparr>
      (\<lambda>p. Timeout))\<^sup>*\<^sup>* (scan_start \<lparr>db_target = ''http://h'', db_wordlist = None, db_threads = 0, db_found = []\<rparr>) s
    \<and> scan_done s)"
  by (rule scan_deadlock) (simp_all add: load_wordlist_def default_wordlist_def)

theorem scan_report_interleaving_witness:
  "\<exists>s1 s2.
     (scan_step \<lparr>db_target = ''http://h'', db_wordlist = Some [''.env'', ''admin''], db_threads = 2, db_found = []\<rparr>
        (\<lambda>p. Response 200 7))\<^sup>*\<^sup>*
       (scan_start \<lparr>db_target = ''http://h'', db_wordlist = Some [''.env'', ''admin''], db_threads = 2, db_found = []\<rparr>) s1 \<and>
     scan_done s1 \<and>
     (scan_step \<lparr>db_target = ''http://h'', db_wordlist = Some [''.env'', ''admin''], db_threads = 2, db_found = []\<rparr>
        (\<lambda>p. Response 200 7))\<^sup>*\<^sup>*
       (scan_start \<lparr>db_target = ''http://h'', db_wordlist = Some [''.env'', ''admin''], db_threads = 2, db_found = []\<rparr>) s2 \<and>
     scan_done s2 \<and> sc_found s1 \<noteq> sc_found s2 \<and>
     mset (rp_critical (generate_report ''t'' (\<lparr>db_target = ''http://h'', db_wordlist = Some [''.env'', ''admin''],
        db_threads = 2, db_found = []\<rparr>\<lparr>db_found := sc_found s1\<rparr>))) =
     mset (rp_critical (generate_report ''t'' (\<lparr>db_target = ''http://h'', db_wordlist = Some [''.env'', ''admin''],
        db_threads = 2, db_found = []\<rparr>\<lparr>db_found := sc_found s2\<rparr>)))"
proof -
  define db where "db = \<lparr>db_target = ''http://h'', db_wordlist = Some [''.env'', ''admin''], db_threads = 2,
    db_found = ([] :: path_result list)\<rparr>"
  define resp :: "string \<Rightarrow> response" where "resp = (\<lambda>p. Response 200 7)"
  define e where "e = \<lparr>pr_url = ''http://h/.env'', pr_path = ''.env'', pr_status = 200, pr_size = 7, pr_found = True\<rparr>"
  define a where "a = \<lparr>pr_url = ''http://h/admin'', pr_path = ''admin'', pr_status = 200, pr_size = 7, pr_found = True\<rparr>"
  have hit: "snd (check_path ''http://h'' ''.env'' (Response 200 7) fs) = fs @ [e]"
    "snd (check_path ''http://h'' ''admin'' (Response 200 7) fs) = fs @ [a]" for fs
    by (simp_all add: check_path_def urljoin_def url_split_def found_statuses_def e_def a_def Let_def)
  have t1: "scan_step db resp (scan_start db) \<lparr>sc_queue = [''admin''], sc_busy = [''.env''], sc_found = []\<rparr>"
    using scan_step.take [of "scan_start db" db "''.env''" "[''admin'']" resp]
    by (simp add: db_def scan_start_def load_wordlist_def py_strip_def py_isspace_def)
  have t2: "scan_step db resp \<lparr>sc_queue = [''admin''], sc_busy = [''.env''], sc_found = []\<rparr>
      \<lparr>sc_queue = [], sc_busy = [''.env'', ''admin''], sc_found = []\<rparr>"
    using scan_step.take [of "\<lparr>sc_queue = [''admin''], sc_busy = [''.env''], sc_found = []\<rparr>" db "''admin''" "[]" resp]
    by (simp add: db_def)
  have fA1: "scan_step db resp \<lparr>sc_queue = [], sc_busy = [''.env'', ''admin''], sc_found = []\<rparr>
      \<lparr>sc_queue = [], sc_busy = [''admin''], sc_found = [e]\<rparr>"
    using scan_step.finish [of "\<lparr>sc_queue = [], sc_busy = [''.env'', ''admin''], sc_found = []\<rparr>" "[]" "''.env''" "[''admin'']" db resp]
    by (simp add: db_def resp_def hit)
  have fA2: "scan_step db resp \<lparr>sc_queue = [], sc_busy = [''admin''], sc_found = [e]\<rparr>
      \<lparr>sc_queue = [], sc_busy = [], sc_found = [e, a]\<rparr>"
    using scan_step.finish [of "\<lparr>sc_queue = [], sc_busy = [''admin''], sc_found = [e]\<rparr>" "[]" "''admin''" "[]" db resp]
    by (simp add: db_def resp_def hit)
  have fB1: "scan_step db resp \<lparr>sc_queue = [], sc_busy = [''.env'', ''admin''], sc_found = []\<rparr>
      \<lparr>sc_queue = [], sc_busy = [''.env''], sc_found = [a]\<rparr>"
    using scan_step.finish [of "\<lparr>sc_queue = [], sc_busy = [''.env'', ''admin''], sc_found = []\<rparr>" "[''.env'']" "''admin''" "[]" db resp]
    by (simp add: db_def resp_def hit)
  have fB2: "scan_step db resp \<lparr>sc_queue = [], sc_busy = [''.env''], sc_found = [a]\<rparr>
      \<lparr>sc_queue = [], sc_busy = [], sc_found = [a, e]\<rparr>"
    using scan_step.finish [of "\<lparr>sc_queue = [], sc_busy = [''.env''], sc_found = [a]\<rparr>" "[]" "''.env''" "[]" db resp]
    by (simp add: db_def resp_def hit)
  let ?s1 = "\<lparr>sc_queue = [], sc_busy = [], sc_found = [e, a]\<rparr>"
  let ?s2 = "\<lparr>sc_queue = [], sc_busy = [], sc_found = [a, e]\<rparr>"
  have r1: "(scan_step db resp)\<^sup>*\<^sup>* (scan_start db) ?s1"
    using t1 t2 fA1 fA2 by (meson converse_rtranclp_into_rtranclp rtranclp.rtrancl_refl)
  have r2: "(scan_step db resp)\<^sup>*\<^sup>* (scan_start db) ?s2"
    using t1 t2 fB1 fB2 by (meson converse_rtranclp_into_rtranclp rtranclp.rtrancl_refl)
  have d: "scan_done ?s1" "scan_done ?s2" by (simp_all add: scan_done_def)
  have ne: "sc_found ?s1 \<noteq> sc_found ?s2" by (simp add: e_def a_def)
  show ?thesis
    using scan_report_interleaving [OF r1 d(1) r2 d(2), of "''t''"] r1 r2 d ne
    unfolding db_def resp_def by blast
qed

theorem scan_complete_found_witness:
  "(scan_step \<lparr>db_target = ''http://h'', db_wordlist = Some [''.env''], db_threads = 1, db_found = []\<rparr>
      (\<lambda>p. Response 200 7))\<^sup>*\<^sup>*
     (scan_start \<lparr>db_target = ''http://h'', db_wordlist = Some [''.env''], db_threads = 1, db_found = []\<rparr>)
     \<lparr>sc_queue = [], sc_busy = [], sc_found = [\<lparr>pr_url = ''http://h/.env'', pr_path = ''.env'', pr_status = 200,
        pr_size = 7, pr_found = True\<rparr>]\<rparr> \<and>
   mset [\<lparr>pr_url = ''http://h/.env'', pr_path = ''.env'', pr_status = 200, pr_size = 7, pr_found = True\<rparr>] =
   mset (concat (map (\<lambda>p. path_hits ''http://h'' p (Response 200 7)) [''.env'']))"
proof -
  define db where "db = \<lparr>db_target = ''http://h'', db_wordlist = Some [''.env''], db_threads = 1,
    db_found = ([] :: path_result list)\<rparr>"
  define resp :: "string \<Rightarrow> response" where "resp = (\<lambda>p. Response 200 7)"
  define e where "e = \<lparr>pr_url = ''http://h/.env'', pr_path = ''.env'', pr_status = 200, pr_size = 7, pr_found = True\<rparr>"
  have t1: "scan_step db resp (scan_start db) \<lparr>sc_queue = [], sc_busy = [''.env''], sc_found = []\<rparr>"
    using scan_step.take [of "scan_start db" db "''.env''" "[]" resp]
    by (simp add: db_def scan_start_def load_wordlist_def py_strip_def py_isspace_def)
  have f1: "scan_step db resp \<lparr>sc_queue = [], sc_busy = [''.env''], sc_found = []\<rparr>
      \<lparr>sc_queue = [], sc_busy = [], sc_found = [e]\<rparr>"
    using scan_step.finish [of "\<lparr>sc_queue = [], sc_busy = [''.env''], sc_found = []\<rparr>" "[]" "''.env''" "[]" db resp]
    by (simp add: db_def resp_def check_path_def urljoin_def url_split_def found_statuses_def e_def Let_def)
  have r: "(scan_step db resp)\<^sup>*\<^sup>* (scan_start db) \<lparr>sc_queue = [], sc_busy = [], sc_found = [e]\<rparr>"
    using t1 f1 by (meson converse_rtranclp_into_rtranclp rtranclp.rtrancl_refl)
  have "mset [e] = mset (concat (map (\<lambda>p. path_hits ''http://h'' p (Response 200 7)) [''.env'']))"
    using scan_complete_found [OF r] by (simp add: scan_done_def db_def resp_def load_wordlist_def
        py_strip_def py_isspace_def)
  then show ?thesis using r unfolding db_def resp_def e_def by simp
qed

text \<open>C27: Every entry of the loaded wordlist is non-empty and already stripped, whether it comes from a file or from the default list.\<close>

theorem load_wordlist_clean:
  "\<forall>w \<in> set (load_wordlist file_lines). w \<noteq> [] \<and> py_strip w = w"
proof (cases file_lines)
  case None
  then show ?thesis by (simp add: load_wordlist_def default_wordlist_def py_strip_def py_isspace_def)
qed (auto simp: load_wordlist_def)

theorem print_report_bounds_witness:
  "length (print_report
     \<lparr>rp_timestamp = ''t'', rp_target = ''http://h'', rp_total_found = 12,
      rp_critical = replicate 12 \<lparr>pr_url = ''http://h/.git'', pr_path = ''.git'', pr_status = 200,
        pr_size = 7, pr_found = True\<rparr>,
      rp_high = [], rp_medium = [], rp_info = []\<rparr>) = 1 \<and>
   length (snd (snd (hd (print_report
     \<lparr>rp_timestamp = ''t'', rp_target = ''http://h'', rp_total_found = 12,
      rp_critical = replicate 12 \<lparr>pr_url = ''http://h/.git'', pr_path = ''.git'', pr_status = 200,
        pr_size = 7, pr_found = True\<rparr>,
      rp_high = [], rp_medium = [], rp_info = []\<rparr>)))) = 10"
  using print_report_bounds [of "\<lparr>rp_timestamp = ''t'', rp_target = ''http://h'', rp_total_found = 12,
      rp_critical = replicate 12 \<lparr>pr_url = ''http://h/.git'', pr_path = ''.git'', pr_status = 200,
        pr_size = 7, pr_found = True\<rparr>,
      rp_high = [], rp_medium = [], rp_info = []\<rparr>"]
  by (simp add: print_report_def)

theorem load_wordlist_clean_witness:
  "load_wordlist (Some [''  admin '', '' '', ''.env'']) = [''admin'', ''.env''] \<and>
   py_strip (hd (load_wordlist (Some [''  admin '', '' '', ''.env'']))) =
     hd (load_wordlist (Some [''  admin '', '' '', ''.env'']))"
  using load_wordlist_clean [of "Some [''  admin '', '' '', ''.env'']"]
  by (simp add: load_wordlist_def py_strip_def py_isspace_def)

end
