(* ===== verification/Nmap.thy ===== *)
theory Nmap
  imports PyValue
begin
text \<open>
  The reconnaissance driver \<open>NmapRecon\<close> of
  \<open>src/redteam-operations/recon_tools/nmap_recon.py\<close>: the parsers of nmap's text output
  (open ports, services, OS details, NSE vulnerability blocks, discovered hosts), the five
  scan methods with their fallbacks (demo results when nmap is missing or the parse raises,
  an empty dict when host discovery fails), the \<open>self.results\<close> dict they fill and the
  run of \<open>main\<close> that decides what is saved.

  A subprocess run is given by its outcome: the captured standard output, nmap not being
  installed (\<open>FileNotFoundError\<close>), or another exception (a timeout, a failed
  \<open>sudo\<close>). \<open>datetime.now().isoformat()\<close> is the input \<open>now\<close>.
\<close>

section \<open>String helpers\<close>

text \<open>\<open>s.isdigit()\<close> and \<open>int(s)\<close> on a string of \<open>isdigit\<close> characters: \<open>int\<close> only
  accepts decimal digits, so a superscript digit raises \<open>ValueError\<close>.\<close>

definition py_isdigit :: "string \<Rightarrow> bool" where
  "py_isdigit s \<longleftrightarrow> s \<noteq> [] \<and> list_all py_isdigit_char s"

definition py_int_digits :: "string \<Rightarrow> py_error + int" where
  "py_int_digits s = (if list_all is_decimal s then Inr (int (digits_value s)) else Inl ValueError)"



definition output_lines :: "string \<Rightarrow> string list" where
  "output_lines output = str_split [CHR 0x0A] output"

section \<open>The parsers\<close>

text \<open>\<open>_parse_nmap_output\<close>\<close>

fun parse_ports :: "string list \<Rightarrow> py_error + int list" where
  "parse_ports [] = Inr []"
| "parse_ports (line # lines) =
     (if str_in ''/tcp'' line \<and> str_in ''open'' line then
        (let port = py_strip (hd (str_split ''/'' line)) in
         if py_isdigit port
         then sbind (py_int_digits port) (\<lambda>n. sbind (parse_ports lines) (\<lambda>ports. Inr (n # ports)))
         else parse_ports lines)
      else parse_ports lines)"

definition parse_nmap_output :: "string \<Rightarrow> py_error + int list" where
  "parse_nmap_output output = parse_ports (output_lines output)"




text \<open>\<open>_parse_os_info\<close>: the dict starts as \<open>{'matches': []}\<close>; each line with a marker
  overwrites the corresponding key.\<close>

record os_info =
  os_matches :: "string list"
  os_detected :: "string option"
  os_cpe :: "string option"

definition os_line :: "os_info \<Rightarrow> string \<Rightarrow> os_info" where
  "os_line info line =
     (let info1 = (if str_in ''OS details:'' line
                   then info\<lparr>os_detected := Some (py_strip (last (str_split ''OS details:'' line)))\<rparr>
                   else info)
      in if str_in ''OS CPE:'' line
         then info1\<lparr>os_cpe := Some (py_strip (last (str_split ''OS CPE:'' line)))\<rparr>
         else info1)"

definition parse_os_info :: "string \<Rightarrow> os_info" where
  "parse_os_info output =
     foldl os_line \<lparr>os_matches = [], os_detected = None, os_cpe = None\<rparr> (output_lines output)"

text \<open>\<open>_parse_vuln_output\<close>: \<open>current_vuln\<close> is \<open>{}\<close> (falsy, \<open>None\<close> here) until the
  first \<open>VULNERABLE:\<close> line, and a dict with a description afterwards.\<close>

record vuln =
  v_description :: string
  v_details :: "string option"

definition vuln_line :: "vuln list \<times> vuln option \<Rightarrow> string \<Rightarrow> vuln list \<times> vuln option" where
  "vuln_line st line =
     (let (vulns, current) = st in
      if str_in ''VULNERABLE:'' line then
        ((case current of Some v \<Rightarrow> vulns @ [v] | None \<Rightarrow> vulns),
         Some \<lparr>v_description = py_strip line, v_details = None\<rparr>)
      else (case current of
              Some v \<Rightarrow> if str_in ''CVE'' line \<or> str_in ''Risk'' line
                        then (vulns, Some (v\<lparr>v_details := Some (py_strip line)\<rparr>))
                        else (vulns, current)
            | None \<Rightarrow> (vulns, current)))"

definition parse_vuln_output :: "string \<Rightarrow> vuln list" where
  "parse_vuln_output output =
     (let (vulns, current) = foldl vuln_line ([], None) (output_lines output)
      in vulns @ (case current of Some v \<Rightarrow> [v] | None \<Rightarrow> []))"


section \<open>Results as JSON values\<close>




section \<open>The demo results\<close>






section \<open>The scanner and its results\<close>










section \<open>main\<close>




text \<open>The line nmap prints for an open TCP port, used to state the round trip of the parser.\<close>

definition port_line :: "nat \<Rightarrow> string \<Rightarrow> string" where
  "port_line p rest = nat_str p @ ''/tcp open'' @ rest"

text \<open>The vulnerabilities the parser would return at this point of the loop.\<close>

definition vuln_pending :: "vuln list \<times> vuln option \<Rightarrow> vuln list" where
  "vuln_pending st = fst st @ (case snd st of Some v \<Rightarrow> [v] | None \<Rightarrow> [])"




section \<open>Properties\<close>


lemma parse_port_line:
  "parse_ports (port_line p rest # lines) = sbind (parse_ports lines) (\<lambda>ps. Inr (int p # ps))"
proof -
  have split: "hd (str_split ''/'' (port_line p rest)) = nat_str p"
    using hd_str_split [of "CHR ''/''" "nat_str p" "''tcp open'' @ rest"] nat_str_chars
    by (auto simp: port_line_def)
  have "sublist ''/tcp'' (nat_str p @ ''/tcp'' @ '' open'' @ rest)"
    by (rule sublist_appendI)
  moreover have "sublist ''open'' ((nat_str p @ ''/tcp '') @ ''open'' @ rest)"
    by (rule sublist_appendI)
  ultimately have tcp: "str_in ''/tcp'' (port_line p rest) \<and> str_in ''open'' (port_line p rest)"
    by (simp add: port_line_def py_simps)
  have dig: "py_isdigit (nat_str p)" and int: "py_int_digits (nat_str p) = Inr (int p)"
    using nat_str_chars [of _ p] by (auto simp: py_isdigit_def py_int_digits_def list_all_iff)
  show ?thesis using split tcp dig int by (simp add: Let_def)
qed

text \<open>C29: Round trip of the open-port parser: for nmap lines of the form port/tcp open ... whose tails hold no newline, _parse_nmap_output returns exactly the printed port numbers, in order.\<close>

theorem parse_nmap_output_roundtrip:
  assumes "\<forall>(p, rest) \<in> set xs. CHR 0x0A \<notin> set rest"
  shows "parse_nmap_output (py_join [CHR 0x0A] (map (\<lambda>(p, rest). port_line p rest) xs)) =
    Inr (map (\<lambda>(p, rest). int p) xs)"
proof (cases "xs = []")
  case True
  then show ?thesis by (simp add: parse_nmap_output_def output_lines_def str_split_def)
next
  case False
  have "\<forall>l \<in> set (map (\<lambda>(p, rest). port_line p rest) xs). CHR 0x0A \<notin> set l"
    using assms nat_str_chars by (fastforce simp: port_line_def)
  then have "output_lines (py_join [CHR 0x0A] (map (\<lambda>(p, rest). port_line p rest) xs)) =
      map (\<lambda>(p, rest). port_line p rest) xs"
    using False by (simp add: output_lines_def str_split_py_join)
  moreover have "parse_ports (map (\<lambda>(p, rest). port_line p rest) ys) = Inr (map (\<lambda>(p, rest). int p) ys)" for ys
  proof (induction ys)
    case (Cons y ys)
    then show ?case by (cases y) (simp add: parse_port_line del: parse_ports.simps)
  qed simp
  ultimately show ?thesis by (simp add: parse_nmap_output_def)
qed

lemma vuln_line_descriptions:
  "map v_description (vuln_pending (foldl vuln_line st lines)) =
   map v_description (vuln_pending st) @ map py_strip (filter (str_in ''VULNERABLE:'') lines)"
proof (induction lines arbitrary: st)
  case (Cons l lines)
  obtain vs cur where st: "st = (vs, cur)" by fastforce
  have "map v_description (vuln_pending (vuln_line st l)) =
      map v_description (vuln_pending st) @ (if str_in ''VULNERABLE:'' l then [py_strip l] else [])"
    by (cases cur) (auto simp: st vuln_line_def vuln_pending_def)
  then show ?case using Cons.IH [of "vuln_line st l"] by simp
qed simp

text \<open>C30: _parse_vuln_output returns one vulnerability per line containing VULNERABLE:, in order, each described by that line stripped.\<close>

theorem parse_vuln_output_blocks:
  "map v_description (parse_vuln_output output) =
     map py_strip (filter (str_in ''VULNERABLE:'') (output_lines output))"
proof -
  have "parse_vuln_output output = vuln_pending (foldl vuln_line ([], None) (output_lines output))"
    by (simp add: parse_vuln_output_def vuln_pending_def split_beta)
  then show ?thesis using vuln_line_descriptions [of "([], None)" "output_lines output"]
    by (simp add: vuln_pending_def)
qed

lemma os_detected_foldl:
  "os_detected (foldl os_line info lines) =
     (if filter (str_in ''OS details:'') lines = [] then os_detected info
      else Some (py_strip (last (str_split ''OS details:'' (last (filter (str_in ''OS details:'') lines))))))"
  by (induction lines arbitrary: info rule: rev_induct) (simp_all add: os_line_def Let_def)

text \<open>C31: _parse_os_info reports as detected OS the text after the marker on the last line containing OS details:, and nothing when there is no such line.\<close>

theorem parse_os_info_last:
  "os_detected (parse_os_info output) =
     (case filter (str_in ''OS details:'') (output_lines output) of
        [] \<Rightarrow> None
      | ls \<Rightarrow> Some (py_strip (last (str_split ''OS details:'' (last ls)))))"
  by (simp add: parse_os_info_def os_detected_foldl split: list.split)






theorem parse_nmap_output_roundtrip_witness:
  "parse_nmap_output (py_join [CHR 0x0A] [port_line 22 '' ssh'', port_line 80 ''  http'']) = Inr [22, 80]"
  using parse_nmap_output_roundtrip [of "[(22, '' ssh''), (80, ''  http'')]"] by simp

end
