(* ===== verification/Json.thy ===== *)
theory Json
  imports PyValue
begin

text \<open>
  \<open>json.loads\<close> and \<open>json.dumps(..., ensure_ascii=False)\<close>, the JSON reading and
  writing of the scripts (\<open>json.load(f)\<close> is \<open>json.loads(f.read())\<close>).

  The reader follows the scanner of CPython's \<open>json\<close> package (\<open>scanner.py\<close>,
  \<open>decoder.py\<close>, whose C versions are used at run time): a value at the current
  position, \<open>JSONArray\<close> and \<open>JSONObject\<close> with the whitespace skips between tokens,
  \<open>scanstring\<close> in strict mode (control characters rejected, the escapes of
  \<open>BACKSLASH\<close> and \<open>\uXXXX\<close>), \<open>NUMBER_RE\<close>, and \<open>dict(pairs)\<close> for an object (a
  repeated key keeps its first position and its last value). A \<open>JSONDecodeError\<close> is
  \<open>JErr\<close> (a \<open>ValueError\<close>). What the model cannot represent is \<open>JOut\<close>: a
  number with a fraction or an exponent, \<open>NaN\<close> and \<open>Infinity\<close> (floats), and a
  \<open>\uXXXX\<close> escape above \<open>00FF\<close>. The mutual recursion runs on fuel; the fuel
  \<open>json_loads\<close> gives (one more than twice the length of the text) is enough:
  every call consumes input, and \<open>json_loads_fuel\<close> shows that any larger fuel gives
  the same result, so \<open>JOut\<close> never comes from the fuel.

  The lemmas show that reading back what \<open>json.dumps\<close> printed gives the value again
  (\<open>json_loads_dumps\<close>, for values whose dicts have distinct keys, \<open>json_wf\<close>),
  through the string escapes, integers, arrays and objects, and that every step of
  the reader leaves a shorter remainder.
\<close>

section \<open>json.dumps with ensure_ascii=False\<close>

text \<open>\<open>ESCAPE_DCT\<close>: backslash, quote and the short escapes, every other control
  character below 32 as \<open>\u00XX\<close> in lower-case hex; all other characters are written
  as they are.\<close>

definition json_escape_raw :: "char \<Rightarrow> string" where
  "json_escape_raw c =
     (let n = of_char c :: nat in
      if c = CHR 0x22 \<or> c = CHR 0x5C then [CHR 0x5C, c]
      else if c = CHR 0x0A then [CHR 0x5C, CHR ''n'']
      else if c = CHR 0x0D then [CHR 0x5C, CHR ''r'']
      else if c = CHR 0x09 then [CHR 0x5C, CHR ''t'']
      else if c = CHR 0x08 then [CHR 0x5C, CHR ''b'']
      else if c = CHR 0x0C then [CHR 0x5C, CHR ''f'']
      else if n < 32
        then [CHR 0x5C, CHR ''u'', CHR ''0'', CHR ''0'', hex_digit (n div 16), hex_digit (n mod 16)]
      else [c])"

definition json_str_raw :: "string \<Rightarrow> string" where
  "json_str_raw s = CHR 0x22 # concat (map json_escape_raw s) @ [CHR 0x22]"

fun json_dumps_raw :: "pyval \<Rightarrow> string" where
  "json_dumps_raw PNone = ''null''"
| "json_dumps_raw (PBool b) = (if b then ''true'' else ''false'')"
| "json_dumps_raw (PInt i) = int_str i"
| "json_dumps_raw (PStr s) = json_str_raw s"
| "json_dumps_raw (PList xs) = ''['' @ py_join '', '' (map json_dumps_raw xs) @ '']''"
| "json_dumps_raw (PDict kvs) =
     ''{'' @ py_join '', '' (map (\<lambda>(k, v). json_str_raw k @ '': '' @ json_dumps_raw v) kvs) @ ''}''"

section \<open>json.loads\<close>

datatype 'a jres = JOk 'a string | JErr | JOut

text \<open>\<open>WHITESPACE = r'[ \t\n\r]*'\<close>.\<close>

definition json_ws :: "char \<Rightarrow> bool" where
  "json_ws c \<longleftrightarrow> c = CHR '' '' \<or> c = CHR 0x09 \<or> c = CHR 0x0A \<or> c = CHR 0x0D"

definition skip_ws :: "string \<Rightarrow> string" where
  "skip_ws = dropWhile json_ws"

text \<open>A hex digit of \<open>\uXXXX\<close> (either case), four of them, and the table \<open>BACKSLASH\<close>.\<close>

definition hex_val :: "char \<Rightarrow> nat option" where
  "hex_val c = (let n = of_char c :: nat in
     if 48 \<le> n \<and> n \<le> 57 then Some (n - 48)
     else if 97 \<le> n \<and> n \<le> 102 then Some (n - 87)
     else if 65 \<le> n \<and> n \<le> 70 then Some (n - 55)
     else None)"

definition hex4 :: "string \<Rightarrow> nat option" where
  "hex4 s = (case s of
      [a, b, c, d] \<Rightarrow>
        (case (hex_val a, hex_val b, hex_val c, hex_val d) of
           (Some w, Some x, Some y, Some z) \<Rightarrow> Some (4096 * w + 256 * x + 16 * y + z)
         | _ \<Rightarrow> None)
    | _ \<Rightarrow> None)"

definition esc_char :: "char \<Rightarrow> char option" where
  "esc_char e =
     (if e = CHR 0x22 \<or> e = CHR 0x5C \<or> e = CHR ''/'' then Some e
      else if e = CHR ''b'' then Some (CHR 0x08)
      else if e = CHR ''f'' then Some (CHR 0x0C)
      else if e = CHR ''n'' then Some (CHR 0x0A)
      else if e = CHR ''r'' then Some (CHR 0x0D)
      else if e = CHR ''t'' then Some (CHR 0x09)
      else None)"

text \<open>\<open>scanstring(s, end, strict=True)\<close> after the opening quote; \<open>acc\<close> holds the
  characters read so far, last first.\<close>

function jstring :: "string \<Rightarrow> string \<Rightarrow> string jres" where
  "jstring acc [] = JErr"
| "jstring acc (c # s) =
     (if c = CHR 0x22 then JOk (rev acc) s
      else if c = CHR 0x5C then
        (case s of
           [] \<Rightarrow> JErr
         | e # s' \<Rightarrow>
             (if e = CHR ''u'' then
                (case hex4 (take 4 s') of
                   None \<Rightarrow> JErr
                 | Some n \<Rightarrow> if n < 256 then jstring (char_of n # acc) (drop 4 s') else JOut)
              else (case esc_char e of
                      None \<Rightarrow> JErr
                    | Some c' \<Rightarrow> jstring (c' # acc) s')))
      else if of_char c < (32::nat) then JErr
      else jstring (c # acc) s)"
  by pat_completeness auto
termination by (relation "measure (\<lambda>(acc, s). length s)") auto

text \<open>\<open>NUMBER_RE = r'(-?(?:0|[1-9]\d*))(\.\d+)?([eE][-+]?\d+)?'\<close>: the integer part,
  and whether a fraction or an exponent follows (then the number is a float).\<close>

definition int_part :: "string \<Rightarrow> (string \<times> string) option" where
  "int_part s = (case s of
      [] \<Rightarrow> None
    | d # r \<Rightarrow>
        (if d = CHR ''0'' then Some ([d], r)
         else if is_decimal d then Some (d # takeWhile is_decimal r, dropWhile is_decimal r)
         else None))"

definition float_tail :: "string \<Rightarrow> bool" where
  "float_tail r \<longleftrightarrow>
     (case r of
        c # r' \<Rightarrow>
          (c = CHR ''.'' \<and> (case r' of d # _ \<Rightarrow> is_decimal d | [] \<Rightarrow> False)) \<or>
          ((c = CHR ''e'' \<or> c = CHR ''E'') \<and>
           (case r' of
              d # r'' \<Rightarrow> is_decimal d \<or>
                ((d = CHR ''+'' \<or> d = CHR ''-'') \<and> (case r'' of e # _ \<Rightarrow> is_decimal e | [] \<Rightarrow> False))
            | [] \<Rightarrow> False))
      | [] \<Rightarrow> False)"

text \<open>A number, or \<open>NaN\<close>, \<open>Infinity\<close>, \<open>-Infinity\<close>; anything else is not a value
  (\<open>StopIteration\<close>, reported as \<open>Expecting value\<close>).\<close>

definition jnumber :: "string \<Rightarrow> pyval jres" where
  "jnumber s =
     (let (neg, s1) = (case s of c # r \<Rightarrow> if c = CHR ''-'' then (True, r) else (False, s) | [] \<Rightarrow> (False, s))
      in case int_part s1 of
           None \<Rightarrow> (if prefix ''NaN'' s \<or> prefix ''Infinity'' s \<or> prefix ''-Infinity'' s then JOut else JErr)
         | Some (ds, r) \<Rightarrow>
             (if float_tail r then JOut
              else JOk (PInt (if neg then - int (digits_value ds) else int (digits_value ds))) r))"

definition dict_of_pairs :: "(string \<times> pyval) list \<Rightarrow> (string \<times> pyval) list" where
  "dict_of_pairs ps = foldl (\<lambda>d (k, v). dict_set k v d) [] ps"

text \<open>\<open>scan_once\<close> (a value at the current position), \<open>JSONArray\<close> after the first
  element position and \<open>JSONObject\<close> after the opening quote of a key.\<close>

fun jvalue :: "nat \<Rightarrow> string \<Rightarrow> pyval jres"
and jelems :: "nat \<Rightarrow> pyval list \<Rightarrow> string \<Rightarrow> pyval jres"
and jmembers :: "nat \<Rightarrow> (string \<times> pyval) list \<Rightarrow> string \<Rightarrow> pyval jres" where
  "jvalue 0 s = JOut"
| "jvalue (Suc n) [] = JErr"
| "jvalue (Suc n) (c # s) =
     (if c = CHR 0x22 then (case jstring [] s of JOk t r \<Rightarrow> JOk (PStr t) r | JErr \<Rightarrow> JErr | JOut \<Rightarrow> JOut)
      else if c = CHR ''{'' then
        (case skip_ws s of
           [] \<Rightarrow> JErr
         | d # r \<Rightarrow> if d = CHR ''}'' then JOk (PDict []) r
                    else if d = CHR 0x22 then jmembers n [] r else JErr)
      else if c = CHR ''['' then
        (case skip_ws s of
           [] \<Rightarrow> JErr
         | d # r \<Rightarrow> if d = CHR '']'' then JOk (PList []) r else jelems n [] (d # r))
      else if prefix ''null'' (c # s) then JOk PNone (drop 3 s)
      else if prefix ''true'' (c # s) then JOk (PBool True) (drop 3 s)
      else if prefix ''false'' (c # s) then JOk (PBool False) (drop 4 s)
      else jnumber (c # s))"
| "jelems 0 acc s = JOut"
| "jelems (Suc n) acc s =
     (case jvalue n s of
        JOk v r \<Rightarrow>
          (case skip_ws r of
             [] \<Rightarrow> JErr
           | d # r' \<Rightarrow> if d = CHR '']'' then JOk (PList (rev (v # acc))) r'
                       else if d = CHR '','' then jelems n (v # acc) (skip_ws r') else JErr)
      | JErr \<Rightarrow> JErr
      | JOut \<Rightarrow> JOut)"
| "jmembers 0 ps s = JOut"
| "jmembers (Suc n) ps s =
     (case jstring [] s of
        JOk k r \<Rightarrow>
          (case skip_ws r of
             [] \<Rightarrow> JErr
           | d # r' \<Rightarrow>
               if d \<noteq> CHR '':'' then JErr
               else (case jvalue n (skip_ws r') of
                       JOk v r'' \<Rightarrow>
                         (case skip_ws r'' of
                            [] \<Rightarrow> JErr
                          | e # t \<Rightarrow>
                              if e = CHR ''}'' then JOk (PDict (dict_of_pairs (ps @ [(k, v)]))) t
                              else if e = CHR '','' then
                                (case skip_ws t of
                                   [] \<Rightarrow> JErr
                                 | q # t' \<Rightarrow> if q = CHR 0x22 then jmembers n (ps @ [(k, v)]) t' else JErr)
                              else JErr)
                     | JErr \<Rightarrow> JErr
                     | JOut \<Rightarrow> JOut))
      | JErr \<Rightarrow> JErr
      | JOut \<Rightarrow> JOut)"

text \<open>\<open>json.loads(s)\<close>: leading whitespace, one value, trailing whitespace, else
  \<open>Extra data\<close>. \<open>None\<close> is a text the model does not represent.\<close>

definition json_loads :: "string \<Rightarrow> (py_error + pyval) option" where
  "json_loads s =
     (let s1 = skip_ws s in
      case jvalue (Suc (2 * length s1)) s1 of
        JOk v r \<Rightarrow> Some (if skip_ws r = [] then Inr v else Inl ValueError)
      | JErr \<Rightarrow> Some (Inl ValueError)
      | JOut \<Rightarrow> None)"


text \<open>The values \<open>json.dumps\<close> writes and \<open>json.loads\<close> reads back unchanged: dicts
  without repeated keys, all the way down; and what may follow a value inside a text
  \<open>json.dumps\<close> wrote.\<close>

fun json_wf :: "pyval \<Rightarrow> bool" where
  "json_wf (PList xs) = (\<forall>x \<in> set xs. json_wf x)"
| "json_wf (PDict kvs) = (distinct (map fst kvs) \<and> (\<forall>kv \<in> set kvs. json_wf (snd kv)))"
| "json_wf _ = True"

definition value_end :: "string \<Rightarrow> bool" where
  "value_end r \<longleftrightarrow> (case r of [] \<Rightarrow> True | c # _ \<Rightarrow> c = CHR '','' \<or> c = CHR '']'' \<or> c = CHR ''}'')"

text \<open>The induction hypothesis of the reading-back lemma, for one value.\<close>

definition reads_back :: "pyval \<Rightarrow> bool" where
  "reads_back v \<longleftrightarrow> (\<forall>n r. value_end r \<longrightarrow> 2 * length (json_dumps_raw v @ r) < n \<longrightarrow>
                        jvalue n (json_dumps_raw v @ r) = JOk v r)"

section \<open>Properties\<close>

subsection \<open>Characters and whitespace\<close>

lemma skip_ws_Nil [simp]: "skip_ws [] = []"
  and skip_ws_Cons: "skip_ws (c # s) = (if json_ws c then skip_ws s else c # s)"
  by (simp_all add: skip_ws_def)

lemma skip_ws_append_non_ws [simp]: "s \<noteq> [] \<Longrightarrow> \<not> json_ws (hd s) \<Longrightarrow> skip_ws (s @ r) = s @ r"
  by (cases s) (simp_all add: skip_ws_Cons)

lemma length_skip_ws: "length (skip_ws s) \<le> length s"
  by (simp add: skip_ws_def length_dropWhile_le)

lemma hex_val_hex_digit [simp]: "d < 16 \<Longrightarrow> hex_val (hex_digit d) = Some d"
  by (auto simp: hex_val_def hex_digit_def Let_def)

lemma hex4_escape:
  "n < 32 \<Longrightarrow> hex4 [CHR ''0'', CHR ''0'', hex_digit (n div 16), hex_digit (n mod 16)] = Some n"
proof -
  assume "n < 32"
  have "hex_val (CHR ''0'') = Some 0" by (simp add: hex_val_def)
  moreover have "n div 16 < 16" "n mod 16 < 16" using \<open>n < 32\<close> by simp_all
  ultimately show ?thesis by (simp add: hex4_def)
qed

lemma jstring_escape_char:
  "jstring acc (json_escape_raw c @ s) = jstring (c # acc) s"
proof -
  let ?n = "of_char c :: nat"
  have c: "char_of ?n = c" by simp
  show ?thesis
  proof (cases "c = CHR 0x22 \<or> c = CHR 0x5C \<or> c = CHR 0x0A \<or> c = CHR 0x0D \<or> c = CHR 0x09 \<or> c = CHR 0x08 \<or> c = CHR 0x0C")
    case True
    then show ?thesis by (auto simp: json_escape_raw_def esc_char_def)
  next
    case False
    show ?thesis
    proof (cases "?n < 32")
      case True
      then show ?thesis using False hex4_escape [OF True]
        by (simp add: json_escape_raw_def Let_def)
    next
      case ge: False
      then have "c \<noteq> CHR 0x22" "c \<noteq> CHR 0x5C" using False by auto
      then show ?thesis using False ge by (simp add: json_escape_raw_def Let_def)
    qed
  qed
qed

lemma jstring_escape:
  "jstring acc (concat (map json_escape_raw s) @ CHR 0x22 # r) = JOk (rev acc @ s) r"
  by (induction s arbitrary: acc) (simp_all add: jstring_escape_char)

subsection \<open>Numbers\<close>

lemma nat_str_Cons: "\<exists>c cs. nat_str m = c # cs \<and> is_decimal c \<and> (\<forall>d \<in> set cs. is_decimal d) \<and> (0 < m \<longrightarrow> c \<noteq> CHR ''0'')"
proof (induction m rule: nat_str.induct)
  case (1 m)
  show ?case
  proof (cases "m < 10")
    case True
    have "digit_char m \<noteq> CHR ''0''" if "0 < m"
    proof
      assume "digit_char m = CHR ''0''"
      then have "of_char (digit_char m) = (of_char (CHR ''0'') :: nat)" by simp
      then show False using True that by simp
    qed
    then show ?thesis using True
      by (intro exI [of _ "digit_char m"] exI [of _ "[]"]) (simp add: nat_str.simps [of m])
  next
    case False
    then obtain c cs where "nat_str (m div 10) = c # cs" "is_decimal c" "\<forall>d \<in> set cs. is_decimal d"
      "c \<noteq> CHR ''0''"
      using "1.IH" by fastforce
    then show ?thesis using False nat_str_decimal [of m]
      by (auto simp: nat_str.simps [of m])
  qed
qed

lemma nat_str_zero: "nat_str 0 = ''0''"
  by (simp add: nat_str.simps digit_char_def char_of_eq_iff)

lemma value_end_not_decimal: "value_end r \<Longrightarrow> r = [] \<or> \<not> is_decimal (hd r)"
  by (cases r) (auto simp: value_end_def is_decimal_def)

lemma value_end_not_float: "value_end r \<Longrightarrow> \<not> float_tail r"
  by (cases r) (auto simp: value_end_def float_tail_def)

lemma decimal_prefix:
  "\<forall>d \<in> set cs. P d \<Longrightarrow> r = [] \<or> \<not> P (hd r) \<Longrightarrow> takeWhile P (cs @ r) = cs \<and> dropWhile P (cs @ r) = r"
proof (induction cs)
  case Nil
  then show ?case by (cases r) auto
qed auto

lemma int_part_nat_str: "value_end r \<Longrightarrow> int_part (nat_str m @ r) = Some (nat_str m, r)"
proof -
  assume r: "value_end r"
  obtain c cs where m: "nat_str m = c # cs" "is_decimal c" "\<forall>d \<in> set cs. is_decimal d"
    "0 < m \<longrightarrow> c \<noteq> CHR ''0''"
    using nat_str_Cons [of m] by blast
  show ?thesis
  proof (cases "m = 0")
    case True
    then show ?thesis by (simp add: nat_str_zero int_part_def)
  next
    case False
    then have c: "c \<noteq> CHR ''0''" using m(4) by simp
    have tw: "takeWhile is_decimal (cs @ r) = cs" and dw: "dropWhile is_decimal (cs @ r) = r"
      using decimal_prefix [OF m(3) value_end_not_decimal [OF r]] by simp_all
    have "int_part (c # cs @ r) = Some (c # cs, r)"
      unfolding int_part_def using c m(2) tw dw by simp
    then show ?thesis unfolding m(1) by simp
  qed
qed

lemma decimal_not_token:
  "is_decimal c \<Longrightarrow> c \<noteq> CHR 0x22 \<and> c \<noteq> CHR ''{'' \<and> c \<noteq> CHR ''['' \<and> CHR ''n'' \<noteq> c \<and>
     CHR ''t'' \<noteq> c \<and> CHR ''f'' \<noteq> c \<and> c \<noteq> CHR ''-'' \<and> \<not> json_ws c"
  by (auto simp: is_decimal_def json_ws_def)

lemma jvalue_int_str: "value_end r \<Longrightarrow> jvalue (Suc n) (int_str i @ r) = JOk (PInt i) r"
proof -
  assume r: "value_end r"
  obtain c cs where m: "nat_str (nat \<bar>i\<bar>) = c # cs" "is_decimal c"
    using nat_str_Cons [of "nat \<bar>i\<bar>"] by blast
  have ip: "int_part (nat_str (nat \<bar>i\<bar>) @ r) = Some (nat_str (nat \<bar>i\<bar>), r)"
    by (rule int_part_nat_str [OF r])
  show ?thesis
  proof (cases "i < 0")
    case True
    then have "int_str i = CHR ''-'' # nat_str (nat \<bar>i\<bar>)" by (simp add: int_str_def)
    moreover have "digits_value (nat_str (nat \<bar>i\<bar>)) = nat \<bar>i\<bar>" by simp
    ultimately show ?thesis using True ip value_end_not_float [OF r]
      by (simp add: jnumber_def)
  next
    case False
    then have "int_str i = nat_str (nat \<bar>i\<bar>)" by (simp add: int_str_def)
    moreover have "digits_value (c # cs) = nat \<bar>i\<bar>" using m(1) digits_value_nat_str by metis
    ultimately show ?thesis using False ip m decimal_not_token [OF m(2)] value_end_not_float [OF r]
      by (simp add: jnumber_def)
  qed
qed

subsection \<open>Printing and reading back\<close>

lemma dumps_hd:
  "json_dumps_raw v \<noteq> [] \<and> \<not> json_ws (hd (json_dumps_raw v)) \<and> hd (json_dumps_raw v) \<noteq> CHR '']''"
proof (cases v)
  case (PInt i)
  obtain c cs where m: "nat_str (nat \<bar>i\<bar>) = c # cs" "is_decimal c"
    using nat_str_Cons [of "nat \<bar>i\<bar>"] by blast
  then show ?thesis using PInt decimal_not_token [OF m(2)]
    by (auto simp: int_str_def json_ws_def is_decimal_def)
qed (auto simp: json_ws_def json_str_raw_def)

lemma skip_ws_dumps [simp]: "skip_ws (json_dumps_raw v @ r) = json_dumps_raw v @ r"
  using dumps_hd [of v] by simp

lemma join_dumps_hd:
  "xs \<noteq> [] \<Longrightarrow> \<exists>t. py_join sep (map f xs) = f (hd xs) @ t"
proof (induction xs)
  case (Cons x xs)
  then show ?case by (cases xs) (auto simp: py_join_Cons)
qed simp

lemma skip_ws_join_dumps [simp]:
  "xs \<noteq> [] \<Longrightarrow> skip_ws (py_join sep (map json_dumps_raw xs) @ r) = py_join sep (map json_dumps_raw xs) @ r"
  using join_dumps_hd [of xs sep json_dumps_raw] dumps_hd [of "hd xs"] by auto

lemma jelems_dumps:
  "\<forall>x \<in> set xs. reads_back x \<Longrightarrow> xs \<noteq> [] \<Longrightarrow>
   2 * length (py_join '', '' (map json_dumps_raw xs) @ CHR '']'' # r) + 1 < n \<Longrightarrow>
   jelems n acc (py_join '', '' (map json_dumps_raw xs) @ CHR '']'' # r) = JOk (PList (rev acc @ xs)) r"
proof (induction xs arbitrary: acc n)
  case (Cons x xs)
  obtain n' where n: "n = Suc n'" using Cons.prems(3) by (cases n) auto
  have x: "reads_back x" using Cons.prems(1) by simp
  show ?case
  proof (cases "xs = []")
    case True
    have "jvalue n' (json_dumps_raw x @ CHR '']'' # r) = JOk x (CHR '']'' # r)"
      using x Cons.prems(3) n True by (simp add: reads_back_def value_end_def)
    then show ?thesis using True n by (simp add: skip_ws_Cons json_ws_def)
  next
    case False
    let ?t = "py_join '', '' (map json_dumps_raw xs) @ CHR '']'' # r"
    have j: "py_join '', '' (map json_dumps_raw (x # xs)) @ CHR '']'' # r = json_dumps_raw x @ '', '' @ ?t"
      using False by (simp add: py_join_Cons)
    have "jvalue n' (json_dumps_raw x @ '', '' @ ?t) = JOk x ('', '' @ ?t)"
      using x Cons.prems(3) n j by (simp add: reads_back_def value_end_def)
    moreover have "jelems n' (x # acc) ?t = JOk (PList (rev (x # acc) @ xs)) r"
      using Cons.IH [of n' "x # acc"] Cons.prems(1,3) False n j by simp
    ultimately show ?thesis using j n False by (simp add: skip_ws_Cons json_ws_def)
  qed
qed simp

lemma jmembers_dumps:
  "\<forall>kv \<in> set kvs. reads_back (snd kv) \<Longrightarrow> kvs \<noteq> [] \<Longrightarrow>
   2 * length (py_join '', '' (map (\<lambda>(k, v). json_str_raw k @ '': '' @ json_dumps_raw v) kvs) @ CHR ''}'' # r) + 1 < n \<Longrightarrow>
   jmembers n ps (tl (py_join '', '' (map (\<lambda>(k, v). json_str_raw k @ '': '' @ json_dumps_raw v) kvs) @ CHR ''}'' # r))
     = JOk (PDict (dict_of_pairs (ps @ kvs))) r"
proof (induction kvs arbitrary: ps n)
  case (Cons kv kvs)
  obtain k v where kv: "kv = (k, v)" by (cases kv)
  obtain n' where n: "n = Suc n'" using Cons.prems(3) by (cases n) auto
  have v: "reads_back v" using Cons.prems(1) kv by simp
  let ?item = "\<lambda>(k, v). json_str_raw k @ '': '' @ json_dumps_raw v"
  let ?e = "concat (map json_escape_raw k)"
  show ?case
  proof (cases "kvs = []")
    case True
    have "jvalue n' (json_dumps_raw v @ CHR ''}'' # r) = JOk v (CHR ''}'' # r)"
      using v Cons.prems(3) n True kv by (simp add: reads_back_def value_end_def json_str_raw_def)
    then show ?thesis using True n kv
      by (simp add: json_str_raw_def jstring_escape skip_ws_Cons json_ws_def)
  next
    case False
    let ?t = "py_join '', '' (map ?item kvs) @ CHR ''}'' # r"
    have j: "py_join '', '' (map ?item (kv # kvs)) @ CHR ''}'' # r
               = CHR 0x22 # ?e @ CHR 0x22 # '': '' @ json_dumps_raw v @ '', '' @ ?t"
      using False kv by (simp add: py_join_Cons json_str_raw_def)
    obtain t' where t': "?t = CHR 0x22 # t'"
      using join_dumps_hd [of kvs "'', ''" ?item] False
      by (cases "hd kvs") (auto simp: json_str_raw_def)
    have "jvalue n' (json_dumps_raw v @ '', '' @ ?t) = JOk v ('', '' @ ?t)"
      using v Cons.prems(3) n j by (simp add: reads_back_def value_end_def)
    moreover have "jmembers n' (ps @ [(k, v)]) t' = JOk (PDict (dict_of_pairs ((ps @ [(k, v)]) @ kvs))) r"
      using Cons.IH [of n' "ps @ [(k, v)]"] Cons.prems(1,3) False n j t' by simp
    ultimately show ?thesis using j n t' kv
      by (simp add: jstring_escape skip_ws_Cons json_ws_def)
  qed
qed simp

lemma foldl_dict_set_distinct:
  "distinct (map fst (d @ kvs)) \<Longrightarrow> foldl (\<lambda>d (k, v). dict_set k v d) d kvs = d @ kvs"
proof (induction kvs arbitrary: d)
  case (Cons kv kvs)
  obtain k v where kv: "kv = (k, v)" by (cases kv)
  have "foldl (\<lambda>d (k, v). dict_set k v d) (d @ [(k, v)]) kvs = (d @ [(k, v)]) @ kvs"
    using Cons.IH [of "d @ [(k, v)]"] Cons.prems kv by simp
  then show ?case using Cons.prems kv by (simp add: dict_set_def)
qed simp

lemma dict_of_pairs_distinct: "distinct (map fst kvs) \<Longrightarrow> dict_of_pairs kvs = kvs"
  using foldl_dict_set_distinct [of "[]" kvs] by (simp add: dict_of_pairs_def)

lemma jvalue_keywords:
  "0 < n \<Longrightarrow> jvalue n (''null'' @ r) = JOk PNone r"
  "0 < n \<Longrightarrow> jvalue n (''true'' @ r) = JOk (PBool True) r"
  "0 < n \<Longrightarrow> jvalue n (''false'' @ r) = JOk (PBool False) r"
  by (cases n; simp)+

lemma jvalue_dumps: "json_wf v \<Longrightarrow> reads_back v"
proof (induction v rule: json_dumps_raw.induct)
  case (3 i)
  { fix n r assume "value_end r" "2 * length (int_str i @ r) < n"
    then have "jvalue n (int_str i @ r) = JOk (PInt i) r"
      using jvalue_int_str [of r _ i] by (cases n) auto }
  then show ?case by (simp add: reads_back_def)
next
  case (4 s)
  { fix n r assume "2 * length (json_str_raw s @ r) < n"
    then have "jvalue n (json_str_raw s @ r) = JOk (PStr s) r"
      by (cases n) (auto simp: json_str_raw_def jstring_escape) }
  then show ?case by (simp add: reads_back_def)
next
  case (5 xs)
  show ?case
  proof (cases "xs = []")
    case False
    have h: "hd (py_join '', '' (map json_dumps_raw xs) @ CHR '']'' # r) \<noteq> CHR '']''" for r
      using join_dumps_hd [of xs "'', ''" json_dumps_raw] dumps_hd [of "hd xs"] False by auto
    { fix n r assume e: "value_end r" and l: "2 * length (json_dumps_raw (PList xs) @ r) < n"
      obtain n' where n: "n = Suc n'" using l by (cases n) auto
      let ?t = "py_join '', '' (map json_dumps_raw xs) @ CHR '']'' # r"
      obtain d t where t: "?t = d # t" by (cases ?t) auto
      have "jelems n' [] ?t = JOk (PList xs) r"
        using jelems_dumps [of xs r n' "[]"] 5 False l n by auto
      moreover have "skip_ws ?t = ?t" using False by simp
      ultimately have "jvalue n (json_dumps_raw (PList xs) @ r) = JOk (PList xs) r"
        using n t h [of r] by simp }
    then show ?thesis by (simp add: reads_back_def)
  next
    case True
    { fix n r assume "2 * length (json_dumps_raw (PList xs) @ r) < n"
      then have "jvalue n (json_dumps_raw (PList xs) @ r) = JOk (PList xs) r"
        using True by (cases n) (auto simp: skip_ws_Cons json_ws_def) }
    then show ?thesis by (simp add: reads_back_def)
  qed
next
  case (6 kvs)
  let ?item = "\<lambda>(k, v). json_str_raw k @ '': '' @ json_dumps_raw v"
  show ?case
  proof (cases "kvs = []")
    case False
    { fix n r assume e: "value_end r" and l: "2 * length (json_dumps_raw (PDict kvs) @ r) < n"
      obtain n' where n: "n = Suc n'" using l by (cases n) auto
      let ?t = "py_join '', '' (map ?item kvs) @ CHR ''}'' # r"
      obtain t' where t': "?t = CHR 0x22 # t'"
        using join_dumps_hd [of kvs "'', ''" ?item] False
        by (cases "hd kvs") (auto simp: json_str_raw_def)
      have "jmembers n' [] (tl ?t) = JOk (PDict (dict_of_pairs ([] @ kvs))) r"
        using jmembers_dumps [of kvs r n' "[]"] 6 False l n by fastforce
      then have "jvalue n (json_dumps_raw (PDict kvs) @ r) = JOk (PDict kvs) r"
        using n t' 6(2) by (simp add: skip_ws_Cons json_ws_def dict_of_pairs_distinct)  }
    then show ?thesis by (simp add: reads_back_def)
  next
    case True
    { fix n r assume "2 * length (json_dumps_raw (PDict kvs) @ r) < n"
      then have "jvalue n (json_dumps_raw (PDict kvs) @ r) = JOk (PDict kvs) r"
        using True by (cases n) (auto simp: skip_ws_Cons json_ws_def) }
    then show ?thesis by (simp add: reads_back_def)
  qed
qed (auto simp: reads_back_def jvalue_keywords [simplified])

lemma json_loads_dumps: "json_wf v \<Longrightarrow> json_loads (json_dumps_raw v) = Some (Inr v)"
proof -
  assume "json_wf v"
  then have "jvalue (Suc (2 * length (json_dumps_raw v))) (json_dumps_raw v @ []) = JOk v []"
  proof -
    have "reads_back v" using jvalue_dumps \<open>json_wf v\<close> by blast
    then show ?thesis unfolding reads_back_def value_end_def
      by (erule_tac x = "Suc (2 * length (json_dumps_raw v))" in allE, erule_tac x = "[]" in allE) simp
  qed
  moreover have "skip_ws (json_dumps_raw v) = json_dumps_raw v"
    using skip_ws_dumps [of v "[]"] by simp
  ultimately show ?thesis by (simp add: json_loads_def)
qed

subsection \<open>Fuel\<close>

lemma dropWhile_shorter [simp]: "length (dropWhile P xs) < Suc (length xs)"
  using length_dropWhile_le [of P xs] by simp

lemma jstring_len: "jstring acc s = JOk t r \<Longrightarrow> length r < length s"
proof (induction acc s rule: jstring.induct)
  case (2 acc c s)
  show ?case
  proof (cases "c = CHR 0x22")
    case False
    show ?thesis
    proof (cases "c = CHR 0x5C")
      case bs: True
      obtain e s' where s: "s = e # s'" using 2(4) False bs by (cases s) auto
      show ?thesis
      proof (cases "e = CHR ''u''")
        case True
        obtain m where m: "hex4 (take 4 s') = Some m" "m < 256"
          "jstring (char_of m # acc) (drop 4 s') = JOk t r"
          using 2(4) False bs s True by (auto split: option.splits if_splits)
        then show ?thesis using 2(1) [OF False bs s True m(1) m(2)] s by simp
      next
        case nu: False
        obtain c' where c': "esc_char e = Some c'" "jstring (c' # acc) s' = JOk t r"
          using 2(4) False bs s nu by (auto split: option.splits)
        then show ?thesis using 2(2) [OF False bs s nu c'(1)] s by simp
      qed
    next
      case nb: False
      then have "jstring (c # acc) s = JOk t r" using 2(4) False by (simp split: if_splits)
      then show ?thesis using 2(3) False nb 2(4) by (simp split: if_splits)
    qed
  qed (use 2(4) in simp)
qed simp

lemma int_part_len: "int_part s = Some (ds, r) \<Longrightarrow> length r < length s"
  by (cases s) (auto simp: int_part_def split: if_splits)

lemma jnumber_len: "jnumber s = JOk v r \<Longrightarrow> length r < length s"
proof -
  assume j: "jnumber s = JOk v r"
  obtain neg s1 where s1: "(case s of c # r \<Rightarrow> if c = CHR ''-'' then (True, r) else (False, s) | [] \<Rightarrow> (False, s)) = (neg, s1)"
    by (metis surj_pair)
  have l: "length s1 \<le> length s" using s1 by (cases s) (auto split: if_splits)
  obtain ds where "int_part s1 = Some (ds, r)"
    using j s1 by (auto simp: jnumber_def split: option.splits if_splits)
  then show ?thesis using int_part_len l by fastforce
qed

lemma skip_ws_Cons_len: "skip_ws s = d # r \<Longrightarrow> length r < length s"
  using length_skip_ws [of s] by simp

lemma jvalue_len:
  shows "jvalue n s = JOk v r \<Longrightarrow> length r < length s"
    and "jelems n acc s = JOk v r \<Longrightarrow> length r < length s"
    and "jmembers n ps s = JOk v r \<Longrightarrow> length r < length s"
proof (induction n s and n acc s and n ps s arbitrary: v r and v r and v r rule: jvalue_jelems_jmembers.induct)
  case (3 n c s)
  show ?case
  proof (cases "c = CHR 0x22")
    case True
    then show ?thesis using 3(3) jstring_len by (fastforce split: jres.splits)
  next
    case nq: False
    show ?thesis
    proof (cases "c = CHR ''{''")
      case True
      obtain d r' where sk: "skip_ws s = d # r'" using 3(3) nq True by (auto split: list.splits)
      have "length r < length (d # r')"
      proof (cases "d = CHR ''}''")
        case False
        then have "d = CHR 0x22 \<and> jmembers n [] r' = JOk v r" using 3(3) nq True sk
          by (simp split: if_splits)
        then show ?thesis using 3(1) [OF nq True sk False] by fastforce
      qed (use 3(3) nq True sk in simp)
      then show ?thesis using length_skip_ws [of s] sk by simp
    next
      case nb: False
      show ?thesis
      proof (cases "c = CHR ''[''")
        case True
        obtain d r' where sk: "skip_ws s = d # r'" using 3(3) nq nb True by (auto split: list.splits)
        have "length r < length (d # r')"
        proof (cases "d = CHR '']''")
          case False
          then have "jelems n [] (d # r') = JOk v r" using 3(3) nq nb True sk by simp
          then show ?thesis using 3(2) [OF nq nb True sk False] by simp
        qed (use 3(3) nq nb True sk in simp)
        then show ?thesis using length_skip_ws [of s] sk by simp
      next
        case False
        then have "r = drop 3 s \<or> r = drop 4 s \<or> jnumber (c # s) = JOk v r"
          using 3(3) nq nb by (simp only: jvalue.simps if_False split: if_splits) auto
        then show ?thesis using jnumber_len by fastforce
      qed
    qed
  qed
next
  case (5 n acc s)
  obtain x r0 where jv: "jvalue n s = JOk x r0" using 5(3) by (auto split: jres.splits)
  obtain d r' where sk: "skip_ws r0 = d # r'" using 5(3) jv by (auto split: list.splits)
  have "length r0 < length s" using 5(1) [OF jv] .
  moreover have "length r < length r0"
  proof (cases "d = CHR '']''")
    case True
    then show ?thesis using 5(3) jv sk skip_ws_Cons_len [OF sk] by simp
  next
    case False
    then have "d = CHR '','' \<and> jelems n (x # acc) (skip_ws r') = JOk v r" using 5(3) jv sk
      by (simp split: if_splits)
    then have "length r < length (skip_ws r')" using 5(2) [OF jv sk False] by fastforce
    then show ?thesis using length_skip_ws [of r'] skip_ws_Cons_len [OF sk] by simp
  qed
  ultimately show ?case by simp
next
  case (7 n ps s)
  obtain k r1 where js: "jstring [] s = JOk k r1" using 7(3) by (auto split: jres.splits)
  obtain d r' where sk1: "skip_ws r1 = d # r'" using 7(3) js by (auto split: list.splits)
  have dc: "\<not> d \<noteq> CHR '':''" using 7(3) js sk1 by (auto split: if_splits)
  obtain x r'' where jv: "jvalue n (skip_ws r') = JOk x r''"
    using 7(3) js sk1 dc by (auto split: jres.splits)
  obtain e t where sk2: "skip_ws r'' = e # t" using 7(3) js sk1 dc jv by (auto split: list.splits)
  have "length r1 < length s" using jstring_len [OF js] .
  moreover have "length r'' < length r1"
    using 7(1) [OF js sk1 dc jv] length_skip_ws [of r'] skip_ws_Cons_len [OF sk1] by simp
  moreover have "length r < length r''"
  proof (cases "e = CHR ''}''")
    case True
    then show ?thesis using 7(3) js sk1 dc jv sk2 skip_ws_Cons_len [OF sk2] by simp
  next
    case ne: False
    then have ec: "e = CHR '',''" using 7(3) js sk1 dc jv sk2 by (simp split: if_splits)
    obtain q t' where sk3: "skip_ws t = q # t'" using 7(3) js sk1 dc jv sk2 ne ec
      by (auto split: list.splits)
    have "q = CHR 0x22 \<and> jmembers n (ps @ [(k, x)]) t' = JOk v r" using 7(3) js sk1 dc jv sk2 ne ec sk3
      by (simp split: if_splits)
    then have "length r < length t'" using 7(2) [OF js sk1 dc jv sk2 ne ec sk3] by fastforce
    then show ?thesis using skip_ws_Cons_len [OF sk3] skip_ws_Cons_len [OF sk2] by simp
  qed
  ultimately show ?case by simp
qed simp_all

lemma jvalue_fuel:
  shows "2 * length s < n \<Longrightarrow> n \<le> m \<Longrightarrow> jvalue m s = jvalue n s"
    and "2 * length s + 1 < n \<Longrightarrow> n \<le> m \<Longrightarrow> jelems m acc s = jelems n acc s"
    and "2 * length s + 1 < n \<Longrightarrow> n \<le> m \<Longrightarrow> jmembers m ps s = jmembers n ps s"
proof (induction n s and n acc s and n ps s arbitrary: m and m and m rule: jvalue_jelems_jmembers.induct)
  case (3 n c s)
  obtain m' where m: "m = Suc m'" "n \<le> m'" using 3(4) by (cases m) auto
  show ?case
  proof (cases "c \<noteq> CHR 0x22 \<and> (c = CHR ''{'' \<or> c = CHR ''['')")
    case True
    then have nq: "c \<noteq> CHR 0x22" by simp
    show ?thesis
    proof (cases "skip_ws s")
      case (Cons d r)
      have l: "2 * length r + 1 < n" using 3(3) length_skip_ws [of s] Cons by simp
      show ?thesis
      proof (cases "c = CHR ''{''")
        case True
        then show ?thesis using m Cons nq 3(1) [OF nq True Cons _ _ l m(2)] by simp
      next
        case nb: False
        then have nl: "c = CHR ''[''" using \<open>c \<noteq> CHR 0x22 \<and> _\<close> by simp
        have "2 * length (d # r) + 1 < n" using 3(3) length_skip_ws [of s] Cons by simp
        then show ?thesis using m Cons nq nb 3(2) [OF nq nb nl Cons _ _ m(2)] by simp
      qed
    qed (use m in simp)
  qed (use m in auto)
next
  case (5 n acc s)
  obtain m' where m: "m = Suc m'" "n \<le> m'" using 5(4) by (cases m) auto
  have l: "2 * length s < n" using 5(3) by simp
  have jv: "jvalue m' s = jvalue n s" using 5(1) [OF l m(2)] .
  show ?case
  proof (cases "jvalue n s")
    case (JOk x r0)
    show ?thesis
    proof (cases "skip_ws r0")
      case (Cons d r')
      show ?thesis
      proof (cases "d \<noteq> CHR '']'' \<and> d = CHR '',''")
        case True
        have "length r0 < length s" using jvalue_len(1) [OF JOk] .
        then have "2 * length (skip_ws r') + 1 < n"
          using l length_skip_ws [of r'] skip_ws_Cons_len [OF Cons] by simp
        then show ?thesis using m jv JOk Cons True 5(2) [OF JOk Cons _ _ _ m(2)] by simp
      qed (use m jv JOk Cons in auto)
    qed (use m jv JOk in simp)
  qed (use m jv in simp_all)
next
  case (7 n ps s)
  obtain m' where m: "m = Suc m'" "n \<le> m'" using 7(4) by (cases m) auto
  show ?case
  proof (cases "jstring [] s")
    case js: (JOk k r1)
    show ?thesis
    proof (cases "skip_ws r1")
      case sk1: (Cons d r')
      show ?thesis
      proof (cases "\<not> d \<noteq> CHR '':''")
        case dc: True
        have l1: "length r1 < length s" using jstring_len [OF js] .
        have "2 * length (skip_ws r') < n"
          using 7(3) l1 length_skip_ws [of r'] skip_ws_Cons_len [OF sk1] by simp
        then have jv: "jvalue m' (skip_ws r') = jvalue n (skip_ws r')" by (rule 7(1) [OF js sk1 dc _ m(2)])
        show ?thesis
        proof (cases "jvalue n (skip_ws r')")
          case jo: (JOk x r'')
          show ?thesis
          proof (cases "skip_ws r''")
            case sk2: (Cons e t)
            show ?thesis
            proof (cases "e \<noteq> CHR ''}'' \<and> e = CHR '',''")
              case ec: True
              show ?thesis
              proof (cases "skip_ws t")
                case sk3: (Cons q t')
                show ?thesis
                proof (cases "q = CHR 0x22")
                  case qc: True
                  have "length r'' < length (skip_ws r')" using jvalue_len(1) [OF jo] .
                  then have "2 * length t' + 1 < n"
                    using 7(3) l1 length_skip_ws [of r'] length_skip_ws [of t] skip_ws_Cons_len [OF sk1]
                      skip_ws_Cons_len [OF sk2] skip_ws_Cons_len [OF sk3] by simp
                  then show ?thesis
                    using m js sk1 dc jv jo sk2 ec sk3 qc
                      7(2) [OF js sk1 dc jo sk2 conjunct1 [OF ec] conjunct2 [OF ec] sk3 qc _ m(2)] by simp
                qed (use m js sk1 dc jv jo sk2 ec sk3 in simp)
              qed (use m js sk1 dc jv jo sk2 ec in simp)
            qed (use m js sk1 dc jv jo sk2 in auto)
          qed (use m js sk1 dc jv jo in simp)
        qed (use m js sk1 dc jv in simp_all)
      qed (use m js sk1 in simp)
    qed (use m js in simp)
  qed (use m in simp_all)
qed (auto dest: Suc_le_D)

lemma json_loads_fuel:
  "2 * length (skip_ws s) < n \<Longrightarrow>
   json_loads s = (case jvalue n (skip_ws s) of
                     JOk v r \<Rightarrow> Some (if skip_ws r = [] then Inr v else Inl ValueError)
                   | JErr \<Rightarrow> Some (Inl ValueError) | JOut \<Rightarrow> None)"
  using jvalue_fuel(1) [of "skip_ws s" "Suc (2 * length (skip_ws s))" n]
  by (simp add: json_loads_def Let_def)

lemma json_wf_dict_set:
  "json_wf (PDict kvs) \<Longrightarrow> json_wf v \<Longrightarrow> json_wf (PDict (dict_set k v kvs))"
  using map_fst_dict_set [of k v kvs] by (auto simp: dict_set_def split: if_splits)

subsection \<open>The printed text\<close>

lemma set_py_join: "set (py_join sep xs) \<subseteq> set sep \<union> (\<Union>x \<in> set xs. set x)"
  by (induction sep xs rule: py_join.induct) auto

lemma hex_digit_printable: "d < 16 \<Longrightarrow> 32 \<le> (of_char (hex_digit d) :: nat)"
  by (simp add: hex_digit_def)

lemma escape_printable: "c' \<in> set (json_escape_raw c) \<Longrightarrow> 32 \<le> (of_char c' :: nat)"
  by (auto simp: json_escape_raw_def Let_def hex_digit_printable split: if_splits)

lemma decimal_printable: "is_decimal c \<Longrightarrow> 32 \<le> (of_char c :: nat)"
  by (simp add: is_decimal_def Let_def)

text \<open>Every character \<open>json.dumps\<close> prints is at least a space: no line break.\<close>

lemma dumps_printable: "c \<in> set (json_dumps_raw v) \<Longrightarrow> 32 \<le> (of_char c :: nat)"
proof (induction v arbitrary: c rule: json_dumps_raw.induct)
  case (1)
  then show ?case by auto
next
  case (2 b)
  then show ?case by (cases b) auto
next
  case (3 i)
  then show ?case
    by (cases "i < 0") (auto simp: int_str_def intro: decimal_printable dest: nat_str_decimal [rule_format])
next
  case (4 s)
  then show ?case by (auto simp: json_str_raw_def intro: escape_printable)
next
  case (5 xs)
  then show ?case using set_py_join [of "'', ''" "map json_dumps_raw xs"] by auto
next
  case (6 kvs)
  let ?item = "\<lambda>(k, v). json_str_raw k @ '': '' @ json_dumps_raw v"
  have "c \<in> set ''{}, '' \<or> (\<exists>kv \<in> set kvs. c \<in> set (?item kv))"
    using 6(2) set_py_join [of "'', ''" "map ?item kvs"] by auto
  then show ?case
  proof
    assume "\<exists>kv \<in> set kvs. c \<in> set (?item kv)"
    then obtain k v where kv: "(k, v) \<in> set kvs" "c \<in> set (json_str_raw k @ '': '' @ json_dumps_raw v)"
      by auto
    then show ?thesis using 6(1) [OF kv(1) refl] by (auto simp: json_str_raw_def intro: escape_printable)
  qed auto
qed

lemma decimal_not_space: "is_decimal c \<Longrightarrow> \<not> py_isspace c"
  by (simp add: is_decimal_def py_isspace_def Let_def)

text \<open>The printed text starts and ends with a character that \<open>str.strip\<close> keeps.\<close>

lemma dumps_ends:
  "\<not> py_isspace (hd (json_dumps_raw v)) \<and> \<not> py_isspace (last (json_dumps_raw v))"
proof (cases v)
  case (PInt i)
  obtain c cs where m: "nat_str (nat \<bar>i\<bar>) = c # cs" "is_decimal c" "\<forall>d \<in> set cs. is_decimal d"
    using nat_str_Cons [of "nat \<bar>i\<bar>"] by blast
  have "is_decimal (last (c # cs))" using m(2,3) by (cases cs rule: rev_cases) auto
  then have "\<not> py_isspace c" "\<not> py_isspace (last (c # cs))" "\<not> py_isspace CHR ''-''"
    using m(2) decimal_not_space by (auto simp: py_isspace_def)
  then show ?thesis using PInt m(1) by (cases "i < 0") (simp_all add: int_str_def last_ConsR del: last.simps)
next
  case (PBool b)
  then show ?thesis by (cases b) (simp_all add: py_isspace_def)
qed (simp_all add: py_isspace_def json_str_raw_def)

end
