(* ===== verification/LogGen.thy ===== *)
theory LogGen
  imports PyValue Counter Json Complex_Main "HOL-Library.State_Monad"
begin

text \<open>
  The synthetic dataset generator of the Splunk case
  (\<open>cases_soc-operations/case003_splunk_threat_case_creator/log_generator.py\<close>).

  The program draws all its randomness from one \<open>random.Random(seed)\<close>. The
  generator is an interface here: a type \<open>'r\<close> of generator states with CPython's
  two primitive draws, \<open>_randbelow(n)\<close> and \<open>random()\<close>, and the seeding
  (\<open>'r rng\<close>). On top of them \<open>randint\<close>, \<open>choice\<close>, \<open>choices\<close>
  (with its \<open>bisect_right\<close>) and \<open>shuffle\<close> are written as CPython's
  \<open>random.py\<close> writes them, and the generator state is threaded through the
  program with \<open>HOL-Library.State_Monad\<close>. The Mersenne Twister itself is not
  modelled: the lemmas hold for every generator that meets the contract
  \<open>rng_ok\<close> (a draw below \<open>n\<close> is below \<open>n\<close>, \<open>random()\<close> lies in
  \<open>[0, 1)\<close>).

  Timestamps are seconds since the epoch (UTC) and \<open>_iso\<close> formats them with the
  proleptic Gregorian calendar. Float weights are exact rationals. Events are the
  dicts of the code, as \<^typ>\<open>pyval\<close>. The JSONL file is its text: \<open>write_jsonl\<close>
  prints it with the \<open>json.dumps\<close> of \<open>Json\<close>, \<open>load_jsonl\<close> reads it back
  line by line in text mode, and \<open>gen_run\<close> is the whole of \<open>main\<close>, whose summary
  is taken on the events read back from the file.
\<close>

section \<open>The generator interface and CPython's random.py\<close>

record 'r rng =
  r_seed :: "int \<Rightarrow> 'r"
  r_below :: "'r \<Rightarrow> nat \<Rightarrow> nat \<times> 'r"
  r_random :: "'r \<Rightarrow> rat \<times> 'r"

definition rng_ok :: "'r rng \<Rightarrow> bool" where
  "rng_ok R \<longleftrightarrow> (\<forall>r n. 0 < n \<longrightarrow> fst (r_below R r n) < n)
               \<and> (\<forall>r. 0 \<le> fst (r_random R r) \<and> fst (r_random R r) < 1)"

definition randbelow :: "'r rng \<Rightarrow> nat \<Rightarrow> ('r, nat) state" where
  "randbelow R n = State (\<lambda>r. r_below R r n)"

definition py_random :: "'r rng \<Rightarrow> ('r, rat) state" where
  "py_random R = State (r_random R)"

text \<open>\<open>randint(a, b) = randrange(a, b + 1) = a + _randbelow(b + 1 - a)\<close>; every call
  of the program has \<open>a \<le> b\<close>, so the \<open>ValueError\<close> of an empty range is not reached.\<close>

definition randint :: "'r rng \<Rightarrow> int \<Rightarrow> int \<Rightarrow> ('r, int) state" where
  "randint R a b = do { k \<leftarrow> randbelow R (nat (b + 1 - a)); State_Monad.return (a + int k) }"

text \<open>\<open>choice(seq) = seq[_randbelow(len(seq))]\<close>; every population of the program is
  a non-empty literal, so the \<open>IndexError\<close> is not reached.\<close>

definition choice :: "'r rng \<Rightarrow> 'a list \<Rightarrow> ('r, 'a) state" where
  "choice R xs = do { i \<leftarrow> randbelow R (length xs); State_Monad.return (xs ! i) }"

text \<open>\<open>bisect.bisect_right(a, x, lo, hi)\<close>: the binary search of \<open>_bisectmodule.c\<close>.\<close>

function bisect_right :: "'a::linorder list \<Rightarrow> 'a \<Rightarrow> nat \<Rightarrow> nat \<Rightarrow> nat" where
  "bisect_right a x lo hi =
     (if lo < hi then
        (let mid = (lo + hi) div 2 in
         if x < a ! mid then bisect_right a x lo mid else bisect_right a x (Suc mid) hi)
      else lo)"
  by pat_completeness auto
termination by (relation "measure (\<lambda>(a, x, lo, hi). hi - lo)") auto

declare bisect_right.simps [simp del]

text \<open>\<open>itertools.accumulate(weights)\<close>: the running sums.\<close>

fun accumulate :: "rat \<Rightarrow> rat list \<Rightarrow> rat list" where
  "accumulate s [] = []"
| "accumulate s (w # ws) = (s + w) # accumulate (s + w) ws"

text \<open>\<open>choices(population, weights=ws, k=1)[0]\<close>:
  \<open>population[bisect(cum_weights, random() * total, 0, n - 1)]\<close>. The weights of
  the program are positive literals, one per member of the population.\<close>

definition choices1 :: "'r rng \<Rightarrow> 'a list \<Rightarrow> rat list \<Rightarrow> ('r, 'a) state" where
  "choices1 R pop ws = do {
     u \<leftarrow> py_random R;
     let cum = accumulate 0 ws;
     let total = last cum;
     State_Monad.return (pop ! bisect_right cum (u * total) 0 (length pop - 1)) }"

text \<open>\<open>shuffle(x)\<close>: for \<open>i\<close> in \<open>reversed(range(1, len(x)))\<close>,
  \<open>j = _randbelow(i + 1)\<close> and \<open>x[i], x[j] = x[j], x[i]\<close>.\<close>

fun shuffle_from :: "'r rng \<Rightarrow> nat list \<Rightarrow> 'a list \<Rightarrow> ('r, 'a list) state" where
  "shuffle_from R [] xs = State_Monad.return xs"
| "shuffle_from R (i # is) xs = do {
     j \<leftarrow> randbelow R (Suc i);
     shuffle_from R is (xs[i := xs ! j, j := xs ! i]) }"

definition shuffle :: "'r rng \<Rightarrow> 'a list \<Rightarrow> ('r, 'a list) state" where
  "shuffle R xs = shuffle_from R (rev [1..<length xs]) xs"

section \<open>Timestamps\<close>

text \<open>Days since 1970-01-01 to a proleptic Gregorian (year, month, day), and
  \<open>_iso(ts) = ts.strftime("%Y-%m-%dT%H:%M:%SZ")\<close> on seconds since the epoch.\<close>

definition civil_from_days :: "int \<Rightarrow> int \<times> int \<times> int" where
  "civil_from_days z0 =
     (let z = z0 + 719468;
          era = z div 146097;
          doe = z - era * 146097;
          yoe = (doe - doe div 1460 + doe div 36524 - doe div 146096) div 365;
          doy = doe - (365 * yoe + yoe div 4 - yoe div 100);
          mp = (5 * doy + 2) div 153;
          d = doy - (153 * mp + 2) div 5 + 1;
          m = (if mp < 10 then mp + 3 else mp - 9);
          y = yoe + era * 400
      in (if m \<le> 2 then y + 1 else y, m, d))"

definition pad2 :: "int \<Rightarrow> string" where
  "pad2 n = (if n < 10 then CHR ''0'' # int_str n else int_str n)"

definition iso_utc :: "int \<Rightarrow> string" where
  "iso_utc t =
     (let (y, m, d) = civil_from_days (t div 86400);
          s = t mod 86400
      in int_str y @ ''-'' @ pad2 m @ ''-'' @ pad2 d @ ''T'' @ pad2 (s div 3600) @ '':'' @
         pad2 (s mod 3600 div 60) @ '':'' @ pad2 (s mod 60) @ ''Z'')"

section \<open>Configuration and IP addresses\<close>

record gen_config =
  gc_out :: string
  gc_seed :: int
  gc_windows_events :: int
  gc_waf_events :: int
  gc_start :: int

definition ip_pools :: "(int \<times> int \<times> int) list" where
  "ip_pools = [(45, 0, 255), (62, 0, 255), (80, 0, 255), (103, 0, 255), (146, 0, 255), (185, 0, 255)]"

definition dotted :: "int \<Rightarrow> int \<Rightarrow> int \<Rightarrow> int \<Rightarrow> string" where
  "dotted a b c d = int_str a @ ''.'' @ int_str b @ ''.'' @ int_str c @ ''.'' @ int_str d"

definition rand_ip :: "'r rng \<Rightarrow> bool \<Rightarrow> ('r, string) state" where
  "rand_ip R public =
     (if \<not> public then do {
        b \<leftarrow> randint R 0 255; c \<leftarrow> randint R 0 255; d \<leftarrow> randint R 1 254;
        State_Monad.return (dotted 10 b c d) }
      else do {
        (a, bmin, bmax) \<leftarrow> choice R ip_pools;
        b \<leftarrow> randint R bmin bmax; c \<leftarrow> randint R 0 255; d \<leftarrow> randint R 1 254;
        State_Monad.return (dotted a b c d) })"

section \<open>Windows Security events\<close>

definition win_host :: string where "win_host = ''WIN-DC01''"

definition target_users :: "string list" where
  "target_users = [''j.doe'', ''a.smith'', ''finance'', ''support'', ''admin'']"

definition fail_reason :: string where "fail_reason = ''Unknown user name or bad password''"

definition brute_user :: string where "brute_user = ''j.doe''"

text \<open>The fields every Windows event starts with.\<close>

definition win_fields :: "int \<Rightarrow> int \<Rightarrow> string \<Rightarrow> string \<Rightarrow> (string \<times> pyval) list" where
  "win_fields ts code user ip =
     [(''_time'', PStr (iso_utc ts)), (''index'', PStr ''win''),
      (''sourcetype'', PStr ''WinEventLog:Security''), (''EventCode'', PInt code),
      (''user'', PStr user), (''src_ip'', PStr ip), (''host'', PStr win_host)]"

text \<open>One iteration of the spray burst: a random target user, from \<open>attacker_ips[0]\<close>.\<close>

definition spray_event :: "'r rng \<Rightarrow> int \<Rightarrow> string \<Rightarrow> nat \<Rightarrow> ('r, pyval) state" where
  "spray_event R t ip i = do {
     user \<leftarrow> choice R target_users;
     State_Monad.return (PDict (win_fields (t + 30 * int i) 4625 user ip @
                                [(''FailureReason'', PStr fail_reason)])) }"

definition brute_event :: "int \<Rightarrow> string \<Rightarrow> nat \<Rightarrow> pyval" where
  "brute_event base ip i =
     PDict (win_fields (base + 20 * int i) 4625 brute_user ip @ [(''FailureReason'', PStr fail_reason)])"

definition success_event :: "int \<Rightarrow> string \<Rightarrow> pyval" where
  "success_event base ip = PDict (win_fields (base + 360) 4624 brute_user ip @ [(''LogonType'', PInt 3)])"

definition admin_event :: "int \<Rightarrow> string \<Rightarrow> pyval" where
  "admin_event base ip = PDict (win_fields (base + 720) 4728 brute_user ip @
     [(''Group'', PStr ''Domain Admins''), (''Action'', PStr ''AddedMember'')])"

text \<open>One benign event: the code drawn 3:1 between 4624 and 4625, a user, one of the
  two benign addresses, and for a failure a second draw for the reason.\<close>

definition benign_win_event :: "'r rng \<Rightarrow> int \<Rightarrow> string list \<Rightarrow> nat \<Rightarrow> ('r, pyval) state" where
  "benign_win_event R base ips i = do {
     code \<leftarrow> choices1 R [4624, 4625] [3/4, 1/4];
     user \<leftarrow> choice R [''svc_backup'', ''it.admin'', ''helpdesk'', ''a.smith''];
     ip \<leftarrow> choice R ips;
     let ev = win_fields (base + 45 * int i) code user ip;
     (if code = 4625 then do {
        u \<leftarrow> py_random R;
        State_Monad.return (PDict (ev @ [(''FailureReason'',
          PStr (if u < 1/10 then ''Account locked out'' else fail_reason))])) }
      else State_Monad.return (PDict ev)) }"

definition spray_attempts :: "gen_config \<Rightarrow> int" where
  "spray_attempts cfg = max 10 (gc_windows_events cfg div 3)"

definition brute_attempts :: "gen_config \<Rightarrow> int" where
  "brute_attempts cfg = max 12 (gc_windows_events cfg div 3)"

definition generate_windows_events :: "'r rng \<Rightarrow> gen_config \<Rightarrow> ('r, pyval list) state" where
  "generate_windows_events R cfg = do {
     a0 \<leftarrow> rand_ip R True; a1 \<leftarrow> rand_ip R True;
     let attacker_ips = [a0, a1];
     b0 \<leftarrow> rand_ip R False; b1 \<leftarrow> rand_ip R False;
     let benign_ips = [b0, b1];
     let t = gc_start cfg;
     spray \<leftarrow> traverse_list (spray_event R t (attacker_ips ! 0)) [0..<nat (spray_attempts cfg)];
     let base = t + 600;
     let brute = map (brute_event base (attacker_ips ! 1)) [0..<nat (brute_attempts cfg)];
     let events = spray @ brute @ [success_event base (attacker_ips ! 1), admin_event base (attacker_ips ! 1)];
     let remaining = max 0 (gc_windows_events cfg - int (length events));
     benign \<leftarrow> traverse_list (benign_win_event R (t + 1800) benign_ips) [0..<nat remaining];
     State_Monad.return (events @ benign) }"

section \<open>WAF events\<close>

definition user_agents_attack :: "string list" where
  "user_agents_attack = [''python-requests/2.31'', ''curl/8.4.0'', ''Go-http-client/1.1'',
     ''Mozilla/5.0 (compatible; credential-stuffer/1.0)'']"

definition user_agents_benign :: "string list" where
  "user_agents_benign = [
     ''Mozilla/5.0 (Macintosh; Intel Mac OS X 14_6) AppleWebKit/537.36 Chrome/120.0'',
     ''Mozilla/5.0 (Windows NT 10.0; Win64; x64) AppleWebKit/537.36 Chrome/121.0'',
     ''Mozilla/5.0 (iPhone; CPU iPhone OS 17_2 like Mac OS X) AppleWebKit/605.1.15 Mobile'']"

definition endpoints :: "string list" where
  "endpoints = [''/'', ''/login'', ''/signin'', ''/auth'', ''/api/v1/login'', ''/admin'', ''/robots.txt'', ''/.env'']"

definition waf_event :: "int \<Rightarrow> string \<Rightarrow> string \<Rightarrow> string \<Rightarrow> int \<Rightarrow> string \<Rightarrow> pyval" where
  "waf_event ts ip meth uri status ua =
     PDict [(''_time'', PStr (iso_utc ts)), (''index'', PStr ''waf''), (''sourcetype'', PStr ''waf:access''),
            (''src_ip'', PStr ip), (''http_method'', PStr meth), (''uri_path'', PStr uri),
            (''status'', PInt status), (''user_agent'', PStr ua)]"

definition attack_event :: "'r rng \<Rightarrow> int \<Rightarrow> string \<Rightarrow> nat \<Rightarrow> ('r, pyval) state" where
  "attack_event R t ip i = do {
     status \<leftarrow> choices1 R [401, 403, 429] [3/5, 7/20, 1/20];
     ua \<leftarrow> choice R user_agents_attack;
     State_Monad.return (waf_event (t + 10 * int i) ip ''POST'' ''/login'' status ua) }"

definition scan_event :: "'r rng \<Rightarrow> int \<Rightarrow> string \<Rightarrow> nat \<Rightarrow> ('r, pyval) state" where
  "scan_event R base ip i = do {
     uri \<leftarrow> choice R endpoints;
     status \<leftarrow> choices1 R [404, 403, 401, 500] [11/20, 1/4, 3/20, 1/20];
     meth \<leftarrow> choice R [''GET'', ''POST''];
     ua \<leftarrow> choice R user_agents_attack;
     State_Monad.return (waf_event (base + 12 * int i) ip meth uri status ua) }"

definition benign_waf_event :: "'r rng \<Rightarrow> int \<Rightarrow> nat \<Rightarrow> ('r, pyval) state" where
  "benign_waf_event R base i = do {
     ip \<leftarrow> rand_ip R False;
     uri \<leftarrow> choice R [''/'', ''/login'', ''/pricing'', ''/docs'', ''/account''];
     status \<leftarrow> choices1 R [200, 302, 401] [22/25, 2/25, 1/25];
     meth \<leftarrow> choice R [''GET'', ''POST''];
     ua \<leftarrow> choice R user_agents_benign;
     State_Monad.return (waf_event (base + 18 * int i) ip meth uri status ua) }"

definition attack_count :: "gen_config \<Rightarrow> int" where
  "attack_count cfg = max 30 (gc_waf_events cfg div 2)"

definition scan_count :: "gen_config \<Rightarrow> int" where
  "scan_count cfg = max 25 (gc_waf_events cfg div 3)"

definition generate_waf_events :: "'r rng \<Rightarrow> gen_config \<Rightarrow> string list \<Rightarrow> ('r, pyval list) state" where
  "generate_waf_events R cfg attacker_ips = do {
     let t = gc_start cfg;
     attacks \<leftarrow> traverse_list (attack_event R t (attacker_ips ! 0)) [0..<nat (attack_count cfg)];
     scans \<leftarrow> traverse_list (scan_event R (t + 480) (attacker_ips ! 1)) [0..<nat (scan_count cfg)];
     let events = attacks @ scans;
     let remaining = max 0 (gc_waf_events cfg - int (length events));
     benign \<leftarrow> traverse_list (benign_waf_event R (t + 1500)) [0..<nat remaining];
     State_Monad.return (events @ benign) }"

section \<open>main\<close>

text \<open>\<open>parse_args\<close> after argparse: both counts are raised to at least 10, the
  start is the parsed timestamp.\<close>

record gen_args =
  ga_out :: string
  ga_seed :: int
  ga_windows_events :: int
  ga_waf_events :: int
  ga_start :: int

definition gen_config_of :: "gen_args \<Rightarrow> gen_config" where
  "gen_config_of a = \<lparr>gc_out = ga_out a, gc_seed = ga_seed a,
     gc_windows_events = max 10 (ga_windows_events a), gc_waf_events = max 10 (ga_waf_events a),
     gc_start = ga_start a\<rparr>"

definition public_prefixes :: "string list" where
  "public_prefixes = [''45.'', ''62.'', ''80.'', ''103.'', ''146.'', ''185.'']"

text \<open>One iteration of main's loop over the Windows events: a \<open>win\<close> event with a
  truthy \<open>src_ip\<close> that starts with a public prefix gets \<open>rng.choice(attacker_ips)\<close>
  as its address (\<open>ev.get\<close> of a non-dict and \<open>startswith\<close> of a non-string raise).\<close>

definition remap_event :: "'r rng \<Rightarrow> string list \<Rightarrow> pyval \<Rightarrow> ('r, py_error + pyval) state" where
  "remap_event R ats ev = (case ev of
      PDict kvs \<Rightarrow>
        (if dget kvs ''index'' PNone = PStr ''win'' \<and> py_truthy (dget kvs ''src_ip'' PNone) then
           (case py_startswith_any (dget kvs ''src_ip'' PNone) public_prefixes of
              Inl e \<Rightarrow> State_Monad.return (Inl e)
            | Inr False \<Rightarrow> State_Monad.return (Inr ev)
            | Inr True \<Rightarrow> do {
                ip \<leftarrow> choice R ats;
                State_Monad.return (Inr (PDict (dict_set ''src_ip'' (PStr ip) kvs))) })
         else State_Monad.return (Inr ev))
    | _ \<Rightarrow> State_Monad.return (Inl AttributeError))"

fun remap_windows :: "'r rng \<Rightarrow> string list \<Rightarrow> pyval list \<Rightarrow> ('r, py_error + pyval list) state" where
  "remap_windows R ats [] = State_Monad.return (Inr [])"
| "remap_windows R ats (ev # evs) = do {
     r \<leftarrow> remap_event R ats ev;
     (case r of
        Inl e \<Rightarrow> State_Monad.return (Inl e)
      | Inr ev' \<Rightarrow> do {
          rest \<leftarrow> remap_windows R ats evs;
          State_Monad.return (sbind rest (\<lambda>evs'. Inr (ev' # evs'))) }) }"

text \<open>\<open>main\<close> from the seeded generator to the shuffled stream that is written out
  (the JSONL file is written and read back unchanged).\<close>

definition gen_events :: "'r rng \<Rightarrow> gen_config \<Rightarrow> ('r, py_error + pyval list) state" where
  "gen_events R cfg = do {
     a0 \<leftarrow> rand_ip R True; a1 \<leftarrow> rand_ip R True;
     let attacker_ips = [a0, a1];
     windows \<leftarrow> generate_windows_events R cfg;
     rw \<leftarrow> remap_windows R attacker_ips windows;
     (case rw of
        Inl e \<Rightarrow> State_Monad.return (Inl e)
      | Inr windows' \<Rightarrow> do {
          waf \<leftarrow> generate_waf_events R cfg attacker_ips;
          events \<leftarrow> shuffle R (windows' @ waf);
          State_Monad.return (Inr events) }) }"

definition gen_main :: "'r rng \<Rightarrow> gen_args \<Rightarrow> py_error + pyval list" where
  "gen_main R args = (let cfg = gen_config_of args in fst (run_state (gen_events R cfg) (r_seed R (gc_seed cfg))))"

section \<open>The dataset summary\<close>

text \<open>\<open>print_summary\<close> on the loaded dicts: the counters it prints, the five most
  common source addresses (\<open>most_common(5)\<close>: a stable sort by decreasing count) and
  the addresses seen in both indexes (the printed count is its length).\<close>

record gen_summary =
  gs_total :: nat
  gs_by_sourcetype :: "pyval counter"
  gs_by_index :: "pyval counter"
  gs_win_codes :: "pyval counter"
  gs_waf_status :: "pyval counter"
  gs_top_ips :: "pyval counter"
  gs_overlap :: "pyval list"

definition most_common :: "nat \<Rightarrow> 'k counter \<Rightarrow> 'k counter" where
  "most_common n c = take n (sort_key (\<lambda>(k, m). - int m) c)"

definition index_ips :: "string \<Rightarrow> (string \<times> pyval) list list \<Rightarrow> pyval list" where
  "index_ips ix evs = [dget ev ''src_ip'' PNone. ev \<leftarrow> evs,
                        dget ev ''index'' PNone = PStr ix \<and> py_truthy (dget ev ''src_ip'' PNone)]"

definition print_summary :: "(string \<times> pyval) list list \<Rightarrow> gen_summary" where
  "print_summary evs =
     \<lparr>gs_total = length evs,
      gs_by_sourcetype = count_keys (map (\<lambda>ev. dget ev ''sourcetype'' (PStr ''unknown'')) evs),
      gs_by_index = count_keys (map (\<lambda>ev. dget ev ''index'' (PStr ''unknown'')) evs),
      gs_win_codes = count_keys [dget ev ''EventCode'' PNone. ev \<leftarrow> evs, dget ev ''index'' PNone = PStr ''win''],
      gs_waf_status = count_keys [dget ev ''status'' PNone. ev \<leftarrow> evs, dget ev ''index'' PNone = PStr ''waf''],
      gs_top_ips = most_common 5 (count_keys [dget ev ''src_ip'' PNone. ev \<leftarrow> evs, py_truthy (dget ev ''src_ip'' PNone)]),
      gs_overlap = filter (\<lambda>ip. ip \<in> set (index_ips ''waf'' evs)) (remdups (index_ips ''win'' evs))\<rparr>"

text \<open>The dicts of a list of events (all events the program writes are dicts).\<close>

definition event_dicts :: "pyval list \<Rightarrow> (string \<times> pyval) list list option" where
  "event_dicts evs = those (map (\<lambda>v. case v of PDict kvs \<Rightarrow> Some kvs | _ \<Rightarrow> None) evs)"

section \<open>The JSONL file\<close>

text \<open>\<open>write_jsonl\<close>: one \<open>json.dumps(ev, ensure_ascii=False)\<close> and a newline per
  event, the text of the file (\<open>"w"\<close> mode writes \<open>\n\<close> unchanged on POSIX).\<close>

definition write_jsonl :: "pyval list \<Rightarrow> string" where
  "write_jsonl evs = concat (map (\<lambda>ev. json_dumps_raw ev @ [CHR 0x0A]) evs)"

text \<open>Reading the file in text mode (\<open>newline=None\<close>): \<open>\r\n\<close> and a lone \<open>\r\<close>
  become \<open>\n\<close>; iterating the file then yields the lines, each with its \<open>\n\<close>,
  the last one without it when the text does not end in a newline.\<close>

fun universal_newlines :: "string \<Rightarrow> string" where
  "universal_newlines [] = []"
| "universal_newlines [c] = (if c = CHR 0x0D then [CHR 0x0A] else [c])"
| "universal_newlines (c # d # s) =
     (if c = CHR 0x0D then CHR 0x0A # universal_newlines (if d = CHR 0x0A then s else d # s)
      else c # universal_newlines (d # s))"

function file_lines :: "string \<Rightarrow> string list" where
  "file_lines s =
     (if s = [] then []
      else (let r = dropWhile (\<lambda>c. c \<noteq> CHR 0x0A) s
            in (takeWhile (\<lambda>c. c \<noteq> CHR 0x0A) s @ take 1 r) # file_lines (drop 1 r)))"
  by pat_completeness auto
termination
proof (relation "measure length")
  show "wf (measure (length :: string \<Rightarrow> nat))" by simp
next
  fix s :: string and r
  assume "s \<noteq> []" "r = dropWhile (\<lambda>c. c \<noteq> CHR 0x0A) s"
  then show "(drop 1 r, s) \<in> measure length"
    using length_dropWhile_le [of "\<lambda>c. c \<noteq> CHR 0x0A" s] by (cases s) auto
qed

declare file_lines.simps [simp del]

text \<open>\<open>load_jsonl\<close>: each line stripped, blank lines skipped, \<open>json.loads\<close> of the rest;
  the first line that does not parse raises. \<open>None\<close> is a line outside the JSON
  subset of the model.\<close>

fun load_lines :: "string list \<Rightarrow> (py_error + pyval list) option" where
  "load_lines [] = Some (Inr [])"
| "load_lines (l # ls) =
     (let t = py_strip l in
      if t = [] then load_lines ls
      else (case json_loads t of
              None \<Rightarrow> None
            | Some (Inl e) \<Rightarrow> Some (Inl e)
            | Some (Inr v) \<Rightarrow> map_option (\<lambda>r. sbind r (\<lambda>vs. Inr (v # vs))) (load_lines ls)))"

definition load_jsonl :: "string \<Rightarrow> (py_error + pyval list) option" where
  "load_jsonl text = load_lines (file_lines (universal_newlines text))"

text \<open>The whole of \<open>main\<close>: the stream written to \<open>cfg.out\<close>, read back, the count it
  prints (\<open>len(loaded)\<close>) and the summary of the loaded events (\<open>ev.get\<close> of a
  loaded value that is not a dict raises).\<close>

definition gen_run :: "'r rng \<Rightarrow> gen_args \<Rightarrow> (py_error + nat \<times> gen_summary) option" where
  "gen_run R args =
     (case gen_main R args of
        Inl e \<Rightarrow> Some (Inl e)
      | Inr evs \<Rightarrow>
          map_option (\<lambda>r. sbind r (\<lambda>loaded.
              case event_dicts loaded of
                None \<Rightarrow> Inl AttributeError
              | Some kvss \<Rightarrow> Inr (length loaded, print_summary kvss)))
            (load_jsonl (write_jsonl evs)))"

text \<open>Reading the generated events: \<open>ev.get(k, d)\<close> on an event, a public-looking
  address (one of main's prefixes), and the shape every generated event has: a dict
  with a string timestamp, a non-empty string address, and the index, sourcetype and
  code fields of its source.\<close>

definition ev_get :: "string \<Rightarrow> pyval \<Rightarrow> pyval \<Rightarrow> pyval" where
  "ev_get k d ev = (case ev of PDict kvs \<Rightarrow> dget kvs k d | _ \<Rightarrow> d)"

definition is_public_ip :: "pyval \<Rightarrow> bool" where
  "is_public_ip v = (case v of PStr s \<Rightarrow> list_ex (starts_with s) public_prefixes | _ \<Rightarrow> False)"

definition gen_event_ok :: "pyval \<Rightarrow> bool" where
  "gen_event_ok ev \<longleftrightarrow> json_wf ev \<and> (case ev of
      PDict kvs \<Rightarrow>
        (case dget kvs ''_time'' PNone of PStr _ \<Rightarrow> True | _ \<Rightarrow> False) \<and>
        (case dget kvs ''src_ip'' PNone of PStr s \<Rightarrow> s \<noteq> [] | _ \<Rightarrow> False) \<and>
        (dget kvs ''index'' PNone = PStr ''win'' \<and>
           dget kvs ''sourcetype'' PNone = PStr ''WinEventLog:Security'' \<and>
           dget kvs ''EventCode'' PNone \<in> PInt ` {4624, 4625, 4728} \<or>
         dget kvs ''index'' PNone = PStr ''waf'' \<and>
           dget kvs ''sourcetype'' PNone = PStr ''waf:access'' \<and>
           dget kvs ''status'' PNone \<in> PInt ` {200, 302, 401, 403, 404, 429, 500})
    | _ \<Rightarrow> False)"

definition event_in :: "string \<Rightarrow> pyval \<Rightarrow> bool" where
  "event_in ix ev \<longleftrightarrow> gen_event_ok ev \<and> ev_get ''index'' PNone ev = PStr ix"

section \<open>A concrete generator\<close>

text \<open>A linear congruential generator meeting the contract, and the default
  arguments of \<open>parse_args\<close> with the smallest counts; the witnesses run on them.\<close>

definition lcg_next :: "nat \<Rightarrow> nat" where
  "lcg_next r = (1103515245 * r + 12345) mod 2147483648"

definition demo_rng :: "nat rng" where
  "demo_rng = \<lparr>r_seed = (\<lambda>s. nat s), r_below = (\<lambda>r n. (r mod n, lcg_next r)),
     r_random = (\<lambda>r. (of_nat (r mod 1000) / 1000, lcg_next r))\<rparr>"

definition demo_args :: gen_args where
  "demo_args = \<lparr>ga_out = ''sample_events.jsonl'', ga_seed = 1337, ga_windows_events = 10,
     ga_waf_events = 10, ga_start = 1765702800\<rparr>"

section \<open>Properties\<close>

subsection \<open>Results of state computations\<close>

lemma pred_state_iff: "pred_state P m \<longleftrightarrow> (\<forall>s. P (fst (run_state m s)))"
  by (auto intro!: pred_stateI dest: pred_state_run_state) (metis fst_conv)

lemma pred_state_return [simp]: "pred_state P (State_Monad.return x) \<longleftrightarrow> P x"
  by (auto simp: pred_state_def State_Monad.return_def)

lemma pred_state_mono: "pred_state Q m \<Longrightarrow> (\<And>x. Q x \<Longrightarrow> P x) \<Longrightarrow> pred_state P m"
  by (auto simp: pred_state_def)

lemma pred_state_bindI:
  "pred_state Q m \<Longrightarrow> (\<And>x. Q x \<Longrightarrow> pred_state P (f x)) \<Longrightarrow> pred_state P (m \<bind> f)"
  by (rule bind_predI) (auto simp: pred_state_def)

lemma pred_state_bind_all: "(\<And>x. pred_state P (f x)) \<Longrightarrow> pred_state P (m \<bind> f)"
  by (rule pred_state_bindI [where Q = "\<lambda>_. True"]) (auto simp: pred_state_def)

lemma pred_state_traverse:
  "(\<And>x. x \<in> set xs \<Longrightarrow> pred_state Q (f x)) \<Longrightarrow>
   pred_state (\<lambda>ys. length ys = length xs \<and> list_all Q ys) (traverse_list f xs)"
proof (induction xs)
  case (Cons x xs)
  show ?case
    by (auto intro!: pred_state_bindI [OF Cons.prems] pred_state_bindI [OF Cons.IH] simp: Cons.prems)
qed simp

lemma pred_state_fst_run: "pred_state P m \<Longrightarrow> P (fst (run_state m r))"
  by (rule pred_state_run_state)

subsection \<open>The draws\<close>

lemma rng_okD:
  "rng_ok R \<Longrightarrow> 0 < n \<Longrightarrow> fst (r_below R r n) < n"
  "rng_ok R \<Longrightarrow> 0 \<le> fst (r_random R r)"
  "rng_ok R \<Longrightarrow> fst (r_random R r) < 1"
  by (auto simp: rng_ok_def)

lemma pred_state_randbelow: "rng_ok R \<Longrightarrow> 0 < n \<Longrightarrow> pred_state (\<lambda>i. i < n) (randbelow R n)"
  by (simp add: pred_state_iff randbelow_def rng_okD)

lemma pred_state_choice: "rng_ok R \<Longrightarrow> xs \<noteq> [] \<Longrightarrow> pred_state (\<lambda>x. x \<in> set xs) (choice R xs)"
  unfolding choice_def
  by (rule pred_state_bindI [OF pred_state_randbelow]) auto

lemma pred_state_randint:
  "rng_ok R \<Longrightarrow> a \<le> b \<Longrightarrow> pred_state (\<lambda>k. a \<le> k \<and> k \<le> b) (randint R a b)"
  unfolding randint_def
  by (rule pred_state_bindI [OF pred_state_randbelow]) auto

lemma bisect_right_bounds: "lo \<le> hi \<Longrightarrow> lo \<le> bisect_right a x lo hi \<and> bisect_right a x lo hi \<le> hi"
proof (induction a x lo hi rule: bisect_right.induct)
  case (1 a x lo hi)
  show ?case
  proof (cases "lo < hi")
    case True
    have "lo \<le> (lo + hi) div 2" "(lo + hi) div 2 < hi" using True by arith+
    then show ?thesis using 1 True by (auto simp: bisect_right.simps [of a x lo hi] Let_def)
  qed (unfold bisect_right.simps [of a x lo hi], use 1(3) in simp)
qed

lemma bisect_right_nth_mem: "pop \<noteq> [] \<Longrightarrow> pop ! bisect_right a x 0 (length pop - 1) \<in> set pop"
  using bisect_right_bounds [of 0 "length pop - 1" a x] by (simp add: less_Suc_eq_le [symmetric])

lemma pred_state_choices1:
  "pop \<noteq> [] \<Longrightarrow> pred_state (\<lambda>x. x \<in> set pop) (choices1 R pop ws)"
  unfolding choices1_def Let_def by (rule pred_state_bind_all) (simp add: bisect_right_nth_mem [simplified])

subsection \<open>Binary search\<close>



subsection \<open>Shuffle\<close>

lemma shuffle_from_mset:
  "rng_ok R \<Longrightarrow> \<forall>i \<in> set is. i < length xs \<Longrightarrow>
   pred_state (\<lambda>ys. mset ys = mset xs) (shuffle_from R is xs)"
proof (induction "is" arbitrary: xs)
  case (Cons i "is")
  show ?case
  proof (simp, rule pred_state_bindI [OF pred_state_randbelow [OF Cons.prems(1)]])
    fix j assume "j < Suc i"
    then have "j < length xs" "i < length xs" using Cons.prems(2) by auto
    then show "pred_state (\<lambda>ys. mset ys = mset xs) (shuffle_from R is (xs[i := xs ! j, j := xs ! i]))"
      using Cons.IH [OF Cons.prems(1), of "xs[i := xs ! j, j := xs ! i]"] Cons.prems(2)
      by (simp add: mset_swap)
  qed simp
qed simp

subsection \<open>Addresses\<close>

lemma dotted_not_Nil [simp]: "dotted a b c d \<noteq> []"
  by (simp add: dotted_def int_str_def)

lemma int_str_pools: "map (\<lambda>(a, _, _). int_str a @ ''.'') ip_pools = public_prefixes"
  by (simp add: ip_pools_def public_prefixes_def int_str_def nat_str.simps digit_char_def char_of_eq_iff)

lemma pool_dotted_public:
  "(a, bmin, bmax) \<in> set ip_pools \<Longrightarrow> is_public_ip (PStr (dotted a b c d))"
proof -
  assume "(a, bmin, bmax) \<in> set ip_pools"
  then have "int_str a @ ''.'' \<in> set public_prefixes"
    using int_str_pools by (metis (mono_tags, lifting) case_prod_conv image_eqI list.set_map)
  then show ?thesis
    unfolding is_public_ip_def list_ex_iff starts_with_prefix dotted_def
    by (auto intro!: bexI [where x = "int_str a @ ''.''"])
qed

lemma private_not_public: "\<not> is_public_ip (PStr (dotted 10 b c d))"
  by (simp add: is_public_ip_def public_prefixes_def dotted_def int_str_def nat_str.simps digit_char_def
      char_of_eq_iff)

lemma pred_state_rand_ip_public:
  "rng_ok R \<Longrightarrow> pred_state (\<lambda>s. s \<noteq> [] \<and> is_public_ip (PStr s)) (rand_ip R True)"
proof -
  assume R: "rng_ok R"
  have "ip_pools \<noteq> []" by (simp add: ip_pools_def)
  then show ?thesis
    unfolding rand_ip_def not_True_eq_False if_False
    by (rule pred_state_bindI [OF pred_state_choice [OF R]])
       (auto intro!: pred_state_bind_all simp: pool_dotted_public split: prod.splits)
qed

lemma pred_state_rand_ip_private:
  "pred_state (\<lambda>s. s \<noteq> [] \<and> \<not> is_public_ip (PStr s)) (rand_ip R False)"
  unfolding rand_ip_def by (auto intro!: pred_state_bind_all simp: private_not_public)

subsection \<open>The events\<close>

lemmas event_simps = event_in_def gen_event_ok_def ev_get_def dget_def win_fields_def waf_event_def

lemma fixed_win_events_ok:
  "ip \<noteq> [] \<Longrightarrow> event_in ''win'' (brute_event base ip i)"
  "ip \<noteq> [] \<Longrightarrow> event_in ''win'' (success_event base ip)"
  "ip \<noteq> [] \<Longrightarrow> event_in ''win'' (admin_event base ip)"
  by (simp_all add: event_simps brute_event_def success_event_def admin_event_def)

lemma spray_event_ok:
  "ip \<noteq> [] \<Longrightarrow> is_public_ip (PStr ip) \<Longrightarrow>
   pred_state (\<lambda>ev. event_in ''win'' ev \<and> is_public_ip (ev_get ''src_ip'' PNone ev)) (spray_event R t ip i)"
  unfolding spray_event_def by (rule pred_state_bind_all) (simp add: event_simps)

lemma benign_win_event_ok:
  assumes R: "rng_ok R" and ips: "ips \<noteq> []" "\<forall>ip \<in> set ips. ip \<noteq> []"
  shows "pred_state (event_in ''win'') (benign_win_event R base ips i)"
  unfolding benign_win_event_def Let_def
  by (rule pred_state_bindI [OF pred_state_choices1], simp, rule pred_state_bind_all,
      rule pred_state_bindI [OF pred_state_choice [OF R ips(1)]])
     (use ips(2) in \<open>auto intro!: pred_state_bind_all simp: event_simps\<close>)

lemma attack_event_ok:
  "ip \<noteq> [] \<Longrightarrow> pred_state (\<lambda>ev. event_in ''waf'' ev \<and> ev_get ''src_ip'' PNone ev = PStr ip)
     (attack_event R t ip i)"
  unfolding attack_event_def
  by (rule pred_state_bindI [OF pred_state_choices1], simp)
     (auto intro!: pred_state_bind_all simp: event_simps)

lemma scan_event_ok:
  "ip \<noteq> [] \<Longrightarrow> pred_state (\<lambda>ev. event_in ''waf'' ev \<and> ev_get ''src_ip'' PNone ev = PStr ip)
     (scan_event R base ip i)"
  unfolding scan_event_def
  by (rule pred_state_bind_all, rule pred_state_bindI [OF pred_state_choices1], simp)
     (auto intro!: pred_state_bind_all simp: event_simps)

lemma benign_waf_event_ok: "pred_state (event_in ''waf'') (benign_waf_event R base i)"
  unfolding benign_waf_event_def
  by (rule pred_state_bindI [OF pred_state_rand_ip_private], rule pred_state_bind_all,
      rule pred_state_bindI [OF pred_state_choices1], simp)
     (auto intro!: pred_state_bind_all simp: event_simps)

subsection \<open>The generators\<close>

lemma nat_fill: "0 \<le> s \<Longrightarrow> nat s + nat (max 0 (n - s)) = nat (max n s)"
  by simp

lemma fill_count:
  "0 \<le> a \<Longrightarrow> 0 \<le> b \<Longrightarrow> l = nat (max 0 (n - int (nat a + nat b + k))) \<Longrightarrow>
   nat a + nat b + k + l = nat (max n (a + b + int k))"
proof -
  assume "0 \<le> a" "0 \<le> b" and l: "l = nat (max 0 (n - int (nat a + nat b + k)))"
  then have "int (nat a + nat b + k) = a + b + int k" "nat a + nat b + k = nat (a + b + int k)"
    by simp_all
  then show ?thesis using l nat_fill [of "a + b + int k" n] \<open>0 \<le> a\<close> \<open>0 \<le> b\<close> by simp
qed

lemma list_all_ex: "list_all P xs \<Longrightarrow> xs \<noteq> [] \<Longrightarrow> \<exists>x \<in> set xs. P x"
  by (cases xs) auto

lemma generate_windows_ok:
  assumes R: "rng_ok R"
  shows "pred_state (\<lambda>ws. length ws = nat (max (gc_windows_events cfg) (spray_attempts cfg + brute_attempts cfg + 2))
            \<and> list_all (event_in ''win'') ws \<and> (\<exists>ev \<in> set ws. is_public_ip (ev_get ''src_ip'' PNone ev)))
           (generate_windows_events R cfg)"
proof -
  have sa: "10 \<le> spray_attempts cfg" and ba: "12 \<le> brute_attempts cfg"
    by (simp_all add: spray_attempts_def brute_attempts_def)
  show ?thesis
    unfolding generate_windows_events_def Let_def
    apply (rule pred_state_bindI [OF pred_state_rand_ip_public [OF R]])
    apply (rule pred_state_bindI [OF pred_state_rand_ip_public [OF R]])
    apply (rule pred_state_bindI [OF pred_state_rand_ip_private])
    apply (rule pred_state_bindI [OF pred_state_rand_ip_private])
    apply (rule pred_state_bindI [OF pred_state_traverse
             [where Q = "\<lambda>ev. event_in ''win'' ev \<and> is_public_ip (ev_get ''src_ip'' PNone ev)"]])
    subgoal by (auto intro: spray_event_ok)
    apply (rule pred_state_bindI [OF pred_state_traverse [where Q = "event_in ''win''"]])
    subgoal by (auto intro: benign_win_event_ok [OF R])
    subgoal premises prems for a0 a1 b0 b1 spray benign
    proof -
      let ?m = "nat (spray_attempts cfg) + nat (brute_attempts cfg) + 2"
      have a1: "a1 \<noteq> []" and sp: "length spray = nat (spray_attempts cfg)"
        and spray: "list_all (\<lambda>ev. event_in ''win'' ev \<and> is_public_ip (ev_get ''src_ip'' PNone ev)) spray"
        and bn: "length benign = nat (max 0 (gc_windows_events cfg - int ?m))"
        and benign: "list_all (event_in ''win'') benign"
        using prems by simp_all
      have "spray \<noteq> []" using sp sa by auto
      then obtain ev evs where "spray = ev # evs" by (cases spray) auto
      then have ex: "\<exists>ev \<in> set spray. is_public_ip (ev_get ''src_ip'' PNone ev)"
        using spray by auto
      have len: "?m + length benign = nat (max (gc_windows_events cfg) (spray_attempts cfg + brute_attempts cfg + 2))"
        using fill_count [OF _ _ bn] sa ba by simp
      show ?thesis
        using ex len sp a1 spray benign by (auto simp: fixed_win_events_ok list_all_iff)
    qed
    done
qed

lemma generate_waf_ok:
  assumes a: "a0 \<noteq> []" "a1 \<noteq> []"
  shows "pred_state (\<lambda>wf. length wf = nat (max (gc_waf_events cfg) (attack_count cfg + scan_count cfg))
            \<and> list_all (event_in ''waf'') wf
            \<and> (\<exists>ev \<in> set wf. ev_get ''src_ip'' PNone ev = PStr a0)
            \<and> (\<exists>ev \<in> set wf. ev_get ''src_ip'' PNone ev = PStr a1))
           (generate_waf_events R cfg [a0, a1])"
proof -
  have ac: "30 \<le> attack_count cfg" and sc: "25 \<le> scan_count cfg"
    by (simp_all add: attack_count_def scan_count_def)
  show ?thesis
    unfolding generate_waf_events_def Let_def
    apply (rule pred_state_bindI [OF pred_state_traverse
             [where Q = "\<lambda>ev. event_in ''waf'' ev \<and> ev_get ''src_ip'' PNone ev = PStr a0"]])
    subgoal using attack_event_ok a(1) by simp
    apply (rule pred_state_bindI [OF pred_state_traverse
             [where Q = "\<lambda>ev. event_in ''waf'' ev \<and> ev_get ''src_ip'' PNone ev = PStr a1"]])
    subgoal using scan_event_ok a(2) by simp
    apply (rule pred_state_bindI [OF pred_state_traverse [where Q = "event_in ''waf''"]])
    subgoal by (rule benign_waf_event_ok)
    subgoal premises prems for attacks scans benign
    proof -
      have at: "length attacks = nat (attack_count cfg)"
        "list_all (\<lambda>ev. event_in ''waf'' ev \<and> ev_get ''src_ip'' PNone ev = PStr a0) attacks"
        and sn: "length scans = nat (scan_count cfg)"
        "list_all (\<lambda>ev. event_in ''waf'' ev \<and> ev_get ''src_ip'' PNone ev = PStr a1) scans"
        and bn: "length benign = nat (max 0 (gc_waf_events cfg - int (nat (attack_count cfg) + nat (scan_count cfg) + 0)))"
        "list_all (event_in ''waf'') benign"
        using prems by simp_all
      have "attacks \<noteq> []" "scans \<noteq> []" using at(1) sn(1) ac sc by auto
      then obtain e0 es0 e1 es1 where "attacks = e0 # es0" "scans = e1 # es1"
        by (metis list.exhaust)
      then have ex: "\<exists>ev \<in> set attacks. ev_get ''src_ip'' PNone ev = PStr a0"
        "\<exists>ev \<in> set scans. ev_get ''src_ip'' PNone ev = PStr a1"
        using at(2) sn(2) by auto
      have len: "nat (attack_count cfg) + nat (scan_count cfg) + 0 + length benign =
                 nat (max (gc_waf_events cfg) (attack_count cfg + scan_count cfg + int 0))"
        using fill_count [OF _ _ bn(1)] ac sc by simp
      show ?thesis
        using ex len at sn bn(2) by (auto simp: list_all_iff)
    qed
    done
qed

lemma event_in_set_src:
  "event_in ix (PDict kvs) \<Longrightarrow> a \<noteq> [] \<Longrightarrow> event_in ix (PDict (dict_set ''src_ip'' (PStr a) kvs))"
proof -
  assume ev: "event_in ix (PDict kvs)" and a: "a \<noteq> []"
  then have "json_wf (PDict (dict_set ''src_ip'' (PStr a) kvs))"
    by (intro json_wf_dict_set) (simp_all add: event_in_def gen_event_ok_def)
  then show ?thesis using ev a by (auto simp: event_in_def gen_event_ok_def ev_get_def simp del: json_wf.simps)
qed

lemma remap_event_ok:
  assumes R: "rng_ok R" and ats: "ats \<noteq> []" "\<forall>a \<in> set ats. a \<noteq> []" and ev: "event_in ''win'' ev"
  shows "pred_state (\<lambda>res. \<exists>ev'. res = Inr ev' \<and> event_in ''win'' ev' \<and>
            (is_public_ip (ev_get ''src_ip'' PNone ev) \<longrightarrow> ev_get ''src_ip'' PNone ev' \<in> PStr ` set ats))
          (remap_event R ats ev)"
proof -
  obtain kvs s where kvs: "ev = PDict kvs" "dget kvs ''src_ip'' PNone = PStr s" "s \<noteq> []"
    using ev by (auto simp: event_in_def gen_event_ok_def split: pyval.splits)
  have idx: "dget kvs ''index'' PNone = PStr ''win''"
    using ev kvs(1) by (simp add: event_in_def ev_get_def)
  have pub: "is_public_ip (PStr s) = list_ex (starts_with s) public_prefixes"
    by (simp add: is_public_ip_def)
  show ?thesis
  proof (cases "is_public_ip (PStr s)")
    case True
    show ?thesis
      using kvs idx ev True pub ats(2) unfolding remap_event_def
      by (auto intro!: pred_state_bindI [OF pred_state_choice [OF R ats(1)]] event_in_set_src
               simp: py_startswith_any_def ev_get_def)
  next
    case False
    then show ?thesis
      using kvs idx ev pub unfolding remap_event_def
      by (auto simp: py_startswith_any_def ev_get_def)
  qed
qed

lemma remap_windows_ok:
  assumes R: "rng_ok R" and ats: "ats \<noteq> []" "\<forall>a \<in> set ats. a \<noteq> []"
  shows "list_all (event_in ''win'') ws \<Longrightarrow>
    pred_state (\<lambda>res. \<exists>ws'. res = Inr ws' \<and> length ws' = length ws \<and> list_all (event_in ''win'') ws' \<and>
       ((\<exists>ev \<in> set ws. is_public_ip (ev_get ''src_ip'' PNone ev)) \<longrightarrow>
        (\<exists>ev \<in> set ws'. ev_get ''src_ip'' PNone ev \<in> PStr ` set ats)))
     (remap_windows R ats ws)"
proof (induction ws)
  case (Cons ev ws)
  have ev: "event_in ''win'' ev" and ws: "list_all (event_in ''win'') ws" using Cons.prems by simp_all
  show ?case
    apply simp
    apply (rule pred_state_bindI [OF remap_event_ok [OF R ats ev]])
    apply (elim exE conjE)
    apply simp
    apply (rule pred_state_bindI [OF Cons.IH [OF ws]])
    by (auto simp: image_iff)
qed simp

lemma shuffle_mset_state: "rng_ok R \<Longrightarrow> pred_state (\<lambda>ys. mset ys = mset xs) (shuffle R xs)"
  unfolding shuffle_def by (rule shuffle_from_mset) auto

subsection \<open>A whole run\<close>

text \<open>What a run of \<open>main\<close> produces: it does not fail, the stream is a permutation of
  the (remapped) Windows events followed by the WAF events, with their counts, and
  some attacker address occurs in both parts.\<close>

lemma gen_events_ok:
  assumes R: "rng_ok R"
  shows "pred_state (\<lambda>res. \<exists>evs ws wf a. res = Inr evs \<and> mset evs = mset (ws @ wf) \<and>
      length ws = nat (max (gc_windows_events cfg) (spray_attempts cfg + brute_attempts cfg + 2)) \<and>
      length wf = nat (max (gc_waf_events cfg) (attack_count cfg + scan_count cfg)) \<and>
      list_all (event_in ''win'') ws \<and> list_all (event_in ''waf'') wf \<and> a \<noteq> [] \<and>
      (\<exists>ev \<in> set ws. ev_get ''src_ip'' PNone ev = PStr a) \<and>
      (\<exists>ev \<in> set wf. ev_get ''src_ip'' PNone ev = PStr a))
    (gen_events R cfg)"
  unfolding gen_events_def Let_def
  apply (rule pred_state_bindI [OF pred_state_rand_ip_public [OF R]])
  apply (rule pred_state_bindI [OF pred_state_rand_ip_public [OF R]])
  apply (rule pred_state_bindI [OF generate_windows_ok [OF R]])
  apply (rule pred_state_bindI [OF remap_windows_ok [OF R]])
     apply simp
    apply simp
   apply simp
  apply (elim exE conjE)
  apply simp
  apply (rule pred_state_bindI [OF generate_waf_ok])
    apply assumption
   apply assumption
  apply (rule pred_state_bindI [OF shuffle_mset_state [OF R]])
  subgoal premises prems for a0 a1 ws rw ws' wf evs
  proof -
    have ex: "\<exists>ev \<in> set ws'. ev_get ''src_ip'' PNone ev \<in> PStr ` set [a0, a1]"
      using prems by auto
    then obtain a where a: "a \<in> set [a0, a1]" "\<exists>ev \<in> set ws'. ev_get ''src_ip'' PNone ev = PStr a"
      by auto
    have "a \<noteq> []" "\<exists>ev \<in> set wf. ev_get ''src_ip'' PNone ev = PStr a" using a(1) prems by auto
    then show ?thesis using a(2) prems by auto
  qed
  done

lemma gen_main_ok:
  "rng_ok R \<Longrightarrow> \<exists>evs ws wf a. gen_main R args = Inr evs \<and> mset evs = mset (ws @ wf) \<and>
      length ws = nat (max (gc_windows_events (gen_config_of args))
                          (spray_attempts (gen_config_of args) + brute_attempts (gen_config_of args) + 2)) \<and>
      length wf = nat (max (gc_waf_events (gen_config_of args))
                          (attack_count (gen_config_of args) + scan_count (gen_config_of args))) \<and>
      list_all (event_in ''win'') ws \<and> list_all (event_in ''waf'') wf \<and> a \<noteq> [] \<and>
      (\<exists>ev \<in> set ws. ev_get ''src_ip'' PNone ev = PStr a) \<and>
      (\<exists>ev \<in> set wf. ev_get ''src_ip'' PNone ev = PStr a)"
  unfolding gen_main_def Let_def by (rule pred_state_fst_run [OF gen_events_ok])

lemma demo_rng_ok: "rng_ok demo_rng"
proof -
  have "of_nat (r mod 1000) / 1000 < (1::rat)" for r :: nat
  proof -
    have "of_nat (r mod 1000) < (1000::rat)" by (simp add: of_nat_less_iff [of _ 1000, simplified])
    then show ?thesis by simp
  qed
  then show ?thesis by (simp add: rng_ok_def demo_rng_def)
qed

lemma event_in_ok: "event_in ix ev \<Longrightarrow> gen_event_ok ev"
  by (simp add: event_in_def)

lemma event_in_index:
  assumes "event_in ix ev" shows "ev_get ''index'' d ev = PStr ix"
proof (cases ev)
  case (PDict kvs)
  then show ?thesis
    using assms by (auto simp: event_in_def ev_get_def dget_def split: option.splits)
qed (use assms in \<open>simp_all add: event_in_def gen_event_ok_def\<close>)

lemma event_dicts_ok: "list_all gen_event_ok evs \<Longrightarrow> \<exists>kvss. event_dicts evs = Some kvss \<and> evs = map PDict kvss"
  by (induction evs) (auto simp: event_dicts_def gen_event_ok_def split: pyval.splits)

lemma index_ips_member:
  "kv \<in> set kvss \<Longrightarrow> event_in ix (PDict kv) \<Longrightarrow> ev_get ''src_ip'' PNone (PDict kv) = PStr a \<Longrightarrow>
   a \<noteq> [] \<Longrightarrow> PStr a \<in> set (index_ips ix kvss)"
  by (auto simp: index_ips_def event_in_def ev_get_def intro!: bexI [where x = kv])

lemma image_mset_const: "list_all (\<lambda>x. f x = c) xs \<Longrightarrow> image_mset f (mset xs) = replicate_mset (length xs) c"
  by (induction xs) auto

subsection \<open>Writing and reading the JSONL file\<close>

text \<open>The lines of the written file are the printed events: \<open>json.dumps\<close> prints
  no line break and no leading or trailing blank, so \<open>strip\<close> gives the printed
  text back and \<open>json.loads\<close> the event.\<close>

lemma universal_newlines_id: "CHR 0x0D \<notin> set s \<Longrightarrow> universal_newlines s = s"
  by (induction s rule: universal_newlines.induct) auto

lemma file_lines_Nil [simp]: "file_lines [] = []"
  by (subst file_lines.simps) simp

lemma file_lines_line:
  "CHR 0x0A \<notin> set l \<Longrightarrow> file_lines (l @ CHR 0x0A # s) = (l @ [CHR 0x0A]) # file_lines s"
proof -
  assume l: "CHR 0x0A \<notin> set l"
  have "takeWhile (\<lambda>c. c \<noteq> CHR 0x0A) (l @ CHR 0x0A # s) = l"
    "dropWhile (\<lambda>c. c \<noteq> CHR 0x0A) (l @ CHR 0x0A # s) = CHR 0x0A # s"
    using l by (induction l) auto
  then show ?thesis by (subst file_lines.simps) (simp add: Let_def)
qed

lemma dumps_no_break: "CHR 0x0A \<notin> set (json_dumps_raw v)" "CHR 0x0D \<notin> set (json_dumps_raw v)"
  using dumps_printable [of "CHR 0x0A" v] dumps_printable [of "CHR 0x0D" v] by auto

lemma file_lines_write_jsonl:
  "file_lines (write_jsonl evs) = map (\<lambda>ev. json_dumps_raw ev @ [CHR 0x0A]) evs"
  by (induction evs) (simp_all add: write_jsonl_def file_lines_line dumps_no_break)

lemma write_jsonl_no_cr: "CHR 0x0D \<notin> set (write_jsonl evs)"
  by (auto simp: write_jsonl_def dumps_no_break)

lemma strip_dumps_line: "py_strip (json_dumps_raw v @ [CHR 0x0A]) = json_dumps_raw v"
proof -
  let ?d = "json_dumps_raw v"
  have ne: "?d \<noteq> []" using dumps_hd [of v] by simp
  have e: "\<not> py_isspace (hd ?d)" "\<not> py_isspace (last ?d)" using dumps_ends [of v] by simp_all
  have "dropWhile py_isspace (?d @ [CHR 0x0A]) = ?d @ [CHR 0x0A]"
    using ne e(1) by (cases ?d) simp_all
  moreover have "dropWhile py_isspace (rev ?d) = rev ?d"
    using ne e(2) by (cases ?d rule: rev_cases) simp_all
  moreover have "py_isspace (CHR 0x0A)" by (simp add: py_isspace_def)
  ultimately show ?thesis by (simp add: py_strip_def)
qed

lemma load_lines_dumps:
  "list_all json_wf evs \<Longrightarrow> load_lines (map (\<lambda>ev. json_dumps_raw ev @ [CHR 0x0A]) evs) = Some (Inr evs)"
proof (induction evs)
  case (Cons ev evs)
  have "json_dumps_raw ev \<noteq> []" using dumps_hd [of ev] by simp
  then show ?case using Cons json_loads_dumps [of ev] by (simp add: strip_dumps_line)
qed simp

lemma gen_run_written:
  "gen_main R args = Inr evs \<Longrightarrow> list_all json_wf evs \<Longrightarrow> event_dicts evs = Some kvss \<Longrightarrow>
   gen_run R args = Some (Inr (length evs, print_summary kvss))"
  by (simp add: gen_run_def load_jsonl_def universal_newlines_id write_jsonl_no_cr
      file_lines_write_jsonl load_lines_dumps)

text \<open>A run of main as the summary reads it: the written events are the dicts
  \<open>kvss\<close>, a permutation of the Windows and the WAF events.\<close>

lemma gen_main_dicts:
  assumes R: "rng_ok R"
  obtains evs kvss ws wf a where
    "gen_main R args = Inr evs" "event_dicts evs = Some kvss" "evs = map PDict kvss"
    "gen_run R args = Some (Inr (length evs, print_summary kvss))"
    "mset evs = mset (ws @ wf)" "set evs = set ws \<union> set wf"
    "length ws = nat (max (gc_windows_events (gen_config_of args)) (spray_attempts (gen_config_of args) + brute_attempts (gen_config_of args) + 2))"
    "length wf = nat (max (gc_waf_events (gen_config_of args)) (attack_count (gen_config_of args) + scan_count (gen_config_of args)))"
    "list_all (event_in ''win'') ws" "list_all (event_in ''waf'') wf" "a \<noteq> []"
    "\<exists>ev \<in> set ws. ev_get ''src_ip'' PNone ev = PStr a" "\<exists>ev \<in> set wf. ev_get ''src_ip'' PNone ev = PStr a"
proof -
  obtain evs ws wf a where run: "gen_main R args = Inr evs" and m: "mset evs = mset (ws @ wf)"
    and lw: "length ws = nat (max (gc_windows_events (gen_config_of args)) (spray_attempts (gen_config_of args) + brute_attempts (gen_config_of args) + 2))"
    and lf: "length wf = nat (max (gc_waf_events (gen_config_of args)) (attack_count (gen_config_of args) + scan_count (gen_config_of args)))"
    and ws: "list_all (event_in ''win'') ws" and wf: "list_all (event_in ''waf'') wf" and a: "a \<noteq> []"
    and in_ws: "\<exists>ev \<in> set ws. ev_get ''src_ip'' PNone ev = PStr a"
    and in_wf: "\<exists>ev \<in> set wf. ev_get ''src_ip'' PNone ev = PStr a"
    using gen_main_ok [OF R, of args] by blast
  have set_evs: "set evs = set ws \<union> set wf" using mset_eq_setD [OF m] by simp
  then have ok: "list_all gen_event_ok evs" using ws wf by (auto simp: list_all_iff event_in_ok)
  then obtain kvss where kvss: "event_dicts evs = Some kvss" "evs = map PDict kvss"
    using event_dicts_ok by blast
  have "list_all json_wf evs" using ok by (simp add: list_all_iff gen_event_ok_def)
  then have "gen_run R args = Some (Inr (length evs, print_summary kvss))"
    using gen_run_written [OF run _ kvss(1)] by simp
  then show ?thesis using that run kvss m set_evs lw lf ws wf a in_ws in_wf by blast
qed

text \<open>main's remapping draws \<open>rng.choice(attacker_ips)\<close> once per event, so two
  events of the one-address brute-force burst can end up with different attacker
  addresses.\<close>

lemma remap_splits_burst:
  "(case fst (run_state (remap_windows demo_rng [''45.1.1.1'', ''62.2.2.2'']
       [brute_event 0 ''45.9.9.9'' 0, brute_event 0 ''45.9.9.9'' 1]) 0) of
      Inr evs \<Rightarrow> map (ev_get ''src_ip'' PNone) evs | Inl _ \<Rightarrow> [])
   = [PStr ''45.1.1.1'', PStr ''62.2.2.2'']"
  by (simp add: remap_event_def brute_event_def win_fields_def dget_def py_startswith_any_def
      public_prefixes_def choice_def randbelow_def demo_rng_def lcg_next_def ev_get_def dict_set_def
      flip: numeral_2_eq_2)

subsection \<open>The claims on the generator\<close>

text \<open>C24: the file \<open>main\<close> writes reads back: for events whose dicts have distinct
  keys (every event of the generator has, C40), \<open>load_jsonl\<close> of the text
  \<open>write_jsonl\<close> writes returns exactly the events, in order.\<close>

theorem write_load_jsonl: "list_all json_wf evs \<Longrightarrow> load_jsonl (write_jsonl evs) = Some (Inr evs)"
  by (simp add: load_jsonl_def universal_newlines_id write_jsonl_no_cr file_lines_write_jsonl
      load_lines_dumps)

text \<open>C36: a run of \<open>main\<close> does not fail: it writes the stream, reads the file back,
  and the summary of the loaded events reports at least one address seen in both the \<open>win\<close> and the \<open>waf\<close> index: the
  correlation that main's comment promises holds for every generator.\<close>

theorem gen_run_overlap:
  "rng_ok R \<Longrightarrow> \<exists>n sm. gen_run R args = Some (Inr (n, sm)) \<and> gs_overlap sm \<noteq> []"
proof -
  assume R: "rng_ok R"
  obtain evs kvss ws wf a where
    run: "gen_main R args = Inr evs" and kvss: "event_dicts evs = Some kvss" "evs = map PDict kvss"
    and grun: "gen_run R args = Some (Inr (length evs, print_summary kvss))"
    and set_evs: "set evs = set ws \<union> set wf"
    and ws: "list_all (event_in ''win'') ws" and wf: "list_all (event_in ''waf'') wf" and a: "a \<noteq> []"
    and in_ws: "\<exists>ev \<in> set ws. ev_get ''src_ip'' PNone ev = PStr a"
    and in_wf: "\<exists>ev \<in> set wf. ev_get ''src_ip'' PNone ev = PStr a"
    by (rule gen_main_dicts [OF R, of args]) blast
  have "PStr a \<in> set (index_ips ix kvss)"
    if p: "list_all (event_in ix) xs" "set xs \<subseteq> set evs" "\<exists>ev \<in> set xs. ev_get ''src_ip'' PNone ev = PStr a" for ix xs
  proof -
    obtain ev where ev: "ev \<in> set xs" "ev_get ''src_ip'' PNone ev = PStr a" using p(3) by blast
    then have "ev \<in> set (map PDict kvss)" "event_in ix ev" using p(1,2) kvss(2) by (auto simp: list_all_iff)
    then show ?thesis using index_ips_member ev(2) a by fastforce
  qed
  then have "PStr a \<in> set (index_ips ''win'' kvss)" "PStr a \<in> set (index_ips ''waf'' kvss)"
    using ws wf in_ws in_wf set_evs by blast+
  then have "PStr a \<in> set (gs_overlap (print_summary kvss))" by (simp add: print_summary_def)
  then show ?thesis using grun by auto
qed

text \<open>C37: the stream has
  \<open>max(windows_events, max(10, n // 3) + max(12, n // 3) + 2)\<close> Windows events and
  \<open>max(waf_events, max(30, m // 2) + max(25, m // 3))\<close> WAF events, with both counts
  first raised to 10 by \<open>parse_args\<close>; after the file is written and read back, the
  count main prints, the summary's total and its counter by index say so.\<close>

theorem gen_run_index_counts:
  "rng_ok R \<Longrightarrow>
   \<exists>n sm. gen_run R args = Some (Inr (n, sm)) \<and>
     (let w = max 10 (ga_windows_events args); f = max 10 (ga_waf_events args);
          nw = nat (max w (max 10 (w div 3) + max 12 (w div 3) + 2));
          nf = nat (max f (max 30 (f div 2) + max 25 (f div 3)))
      in n = nw + nf \<and> gs_total sm = nw + nf \<and>
         counter_abs (gs_by_index sm) = replicate_mset nw (PStr ''win'') + replicate_mset nf (PStr ''waf''))"
proof -
  assume R: "rng_ok R"
  obtain evs kvss ws wf where
    run: "gen_main R args = Inr evs" and kvss: "event_dicts evs = Some kvss" "evs = map PDict kvss"
    and grun: "gen_run R args = Some (Inr (length evs, print_summary kvss))"
    and m: "mset evs = mset (ws @ wf)"
    and lw: "length ws = nat (max (gc_windows_events (gen_config_of args)) (spray_attempts (gen_config_of args) + brute_attempts (gen_config_of args) + 2))"
    and lf: "length wf = nat (max (gc_waf_events (gen_config_of args)) (attack_count (gen_config_of args) + scan_count (gen_config_of args)))"
    and ws: "list_all (event_in ''win'') ws" and wf: "list_all (event_in ''waf'') wf"
    by (rule gen_main_dicts [OF R, of args]) blast
  let ?f = "ev_get ''index'' (PStr ''unknown'')"
  have idx: "list_all (\<lambda>ev. ?f ev = PStr ix) xs" if "list_all (event_in ix) xs" for ix xs
    using that event_in_index by (simp add: list_all_iff)
  have "map (\<lambda>ev. dget ev ''index'' (PStr ''unknown'')) kvss = map ?f evs"
    using kvss(2) by (simp add: ev_get_def)
  then have "counter_abs (gs_by_index (print_summary kvss)) = image_mset ?f (mset ws) + image_mset ?f (mset wf)"
    using m by (simp add: print_summary_def)
  also have "\<dots> = replicate_mset (length ws) (PStr ''win'') + replicate_mset (length wf) (PStr ''waf'')"
    using image_mset_const [OF idx [OF ws]] image_mset_const [OF idx [OF wf]] by simp
  finally have c: "counter_abs (gs_by_index (print_summary kvss)) =
      replicate_mset (length ws) (PStr ''win'') + replicate_mset (length wf) (PStr ''waf'')" .
  have le: "length evs = length ws + length wf" using m by (metis length_append size_mset)
  then have t: "gs_total (print_summary kvss) = length ws + length wf"
    using kvss(2) by (simp add: print_summary_def)
  let ?w = "max 10 (ga_windows_events args)" and ?f = "max 10 (ga_waf_events args)"
  have lw': "length ws = nat (max ?w (max 10 (?w div 3) + max 12 (?w div 3) + 2))"
    using lw by (simp only: gen_config_of_def spray_attempts_def brute_attempts_def gen_config.simps)
  have lf': "length wf = nat (max ?f (max 30 (?f div 2) + max 25 (?f div 3)))"
    using lf by (simp only: gen_config_of_def attack_count_def scan_count_def gen_config.simps)
  show ?thesis
    unfolding Let_def
  proof (intro exI conjI)
    show "gen_run R args = Some (Inr (length evs, print_summary kvss))" by (rule grun)
  qed (simp_all only: le t c lw' lf')
qed



text \<open>C40: every event of the stream is a dict with distinct keys, a string timestamp, a
  non-empty string address, and either the Windows index, sourcetype and one of the
  codes 4624, 4625, 4728, or the WAF index, sourcetype and one of the statuses the code draws.\<close>

theorem gen_main_typed: "rng_ok R \<Longrightarrow> \<exists>evs. gen_main R args = Inr evs \<and> list_all gen_event_ok evs"
proof -
  assume R: "rng_ok R"
  obtain evs ws wf where run: "gen_main R args = Inr evs" and set_evs: "set evs = set ws \<union> set wf"
    and ws: "list_all (event_in ''win'') ws" and wf: "list_all (event_in ''waf'') wf"
    by (rule gen_main_dicts [OF R, of args]) blast
  show ?thesis using run set_evs ws wf by (auto simp: list_all_iff event_in_ok)
qed

subsection \<open>Witnesses\<close>

theorem gen_run_overlap_witness:
  "rng_ok demo_rng \<and> (\<exists>n sm. gen_run demo_rng demo_args = Some (Inr (n, sm)) \<and> gs_overlap sm \<noteq> [])"
  by (rule conjI [OF demo_rng_ok gen_run_overlap [OF demo_rng_ok]])

theorem gen_run_index_counts_witness:
  "rng_ok demo_rng \<and> (\<exists>n sm. gen_run demo_rng demo_args = Some (Inr (n, sm)) \<and> n = 24 + 55 \<and>
     gs_total sm = 24 + 55 \<and>
     counter_abs (gs_by_index sm) = replicate_mset 24 (PStr ''win'') + replicate_mset 55 (PStr ''waf''))"
proof -
  have w: "nat (max (max 10 (10::int)) (max 10 (max 10 10 div 3) + max 12 (max 10 10 div 3) + 2)) = 24" by simp
  have f: "nat (max (max 10 (10::int)) (max 30 (max 10 10 div 2) + max 25 (max 10 10 div 3))) = 55" by simp
  show ?thesis
    using gen_run_index_counts [OF demo_rng_ok, of demo_args] demo_rng_ok
    unfolding demo_args_def gen_args.simps Let_def w f by blast
qed



theorem write_load_jsonl_witness:
  "list_all json_wf [PDict [(''a'', PStr [CHR 0x0A, CHR 0x22]), (''b'', PInt (-12))], PList [PNone]] \<and>
   load_jsonl (write_jsonl [PDict [(''a'', PStr [CHR 0x0A, CHR 0x22]), (''b'', PInt (-12))], PList [PNone]])
     = Some (Inr [PDict [(''a'', PStr [CHR 0x0A, CHR 0x22]), (''b'', PInt (-12))], PList [PNone]])"
  using write_load_jsonl [of "[PDict [(''a'', PStr [CHR 0x0A, CHR 0x22]), (''b'', PInt (-12))], PList [PNone]]"]
  by simp

theorem gen_main_typed_witness:
  "rng_ok demo_rng \<and> (\<exists>evs. gen_main demo_rng demo_args = Inr evs \<and> list_all gen_event_ok evs)"
  by (rule conjI [OF demo_rng_ok gen_main_typed [OF demo_rng_ok]])

end
