(* ===== verification/Spec2Isabelle.thy ===== *)
theory Spec2Isabelle
  imports IRTriage Detectors EDR DirBuster Nmap LogGen
begin

text \<open>
  \<^bold>\<open>A verification library for the security-event triage scripts.\<close>

  The repository is a set of Python scripts that triage security events: per-event
  detectors over JSON log records (\<open>src/triage_parser.py\<close>,
  \<open>src/soc-operations/case002_triage_basics/triage_parser_v2.py\<close> and its copy under
  \<open>src/cases_soc-operations/\<close>), a keyword triage of EDR events
  (\<open>src/soc-operations/edr_triage.py\<close> and its copy), the incident-response analyzer
  of auth.log and syslog with count-based detections, a severity policy and
  recommendations (\<open>src/incident-response/triage_script.py\<close>), a directory scanner that
  classifies the HTTP paths it finds and a driver that parses nmap's output
  (\<open>src/redteam-operations/recon_tools/\<close>), and a generator of synthetic events.
  Every script reads already-materialised input (a JSON file, the lines of a log, the
  text a scanner printed, the responses of a server) and reports; the model starts from
  that input. The scripts do not call each other; they share the severity scale and the
  Python primitives of the prelude.

  \<^bold>\<open>Theories.\<close>
  \<^item> \<open>Prelude\<close>: the Python errors as a datatype and a bind for \<open>py_error + 'a\<close>;
    Python's string primitives on \<open>char list\<close> (a \<open>char\<close> is a code point below 256):
    \<open>in\<close> (\<open>str_in\<close>, proved equal to \<open>sublist\<close>), \<open>startswith\<close>, \<open>lower\<close>,
    \<open>isspace\<close>/\<open>strip\<close> (idempotent), \<open>split\<close>/\<open>join\<close> (round trips both ways for a
    one-character separator), \<open>str(int)\<close> and the digit reader (round trip), the classes
    \<open>\w\<close> and \<open>\d\<close> of \<open>re\<close>, and \<open>re_search\<close>, the leftmost search of \<open>re.search\<close>.
  \<^item> \<open>PyValue\<close>: JSON values and Python dicts (\<open>pyval\<close>), truthiness, \<open>get\<close>,
    iteration, \<open>in\<close>, \<open>lower()\<close>, \<open>startswith(tuple)\<close> with the error each raises on a
    value of the wrong type, \<open>str\<close>/\<open>repr\<close> and \<open>json.dumps\<close>.
  \<^item> \<open>Counter\<close>: \<open>defaultdict(int)\<close> with \<open>+= 1\<close> as an insertion-ordered association
    list and the threshold comprehension; refinement to the multiset of keys.
  \<^item> \<open>AuthLog\<close> and \<open>Syslog\<close>: the line loops of \<open>analyze_auth_log\<close> and
    \<open>analyze_syslog\<close>, the regular expressions as anchored matchers run by \<open>re_search\<close>.
  \<^item> \<open>Severity\<close>: the severity scale as a \<open>linorder\<close> instance and \<open>max_severity\<close>.
  \<^item> \<open>IRTriage\<close>: \<open>IRTriageAnalyzer\<close> (\<open>self.findings\<close> as an ordered association list
    of levels), each method as a function of the analyzer record, \<open>main\<close>, and the analyzer
    as a state machine (\<open>ir_step\<close>, \<open>ir_reachable\<close>).
  \<^item> \<open>Detectors\<close>: the four detectors of \<open>triage_parser_v2.py\<close> as functions
    \<open>pyval \<Rightarrow> py_error + finding option\<close>, the main loop (\<open>collect_findings\<close>, an
    exception aborting the run), the grouping and recommendations, and the script of
    version 1 with the alerts it prints before an exception stops it.
  \<^item> \<open>EDR\<close>: \<open>analyze_event\<close> over the lower-cased \<open>json.dumps\<close> of an event,
    \<open>triage_logs\<close>, the risk level, the listing with its \<open>event.get\<close> calls, \<open>main\<close>.
  \<^item> \<open>DirBuster\<close>: \<open>DirBusterSim\<close>: the wordlist, \<open>check_path\<close> with the server's
    response as input, the pool of worker threads as a step relation (\<open>scan_step\<close>) whose
    runs are all interleavings, \<open>generate_report\<close> and \<open>print_report\<close>.
  \<^item> \<open>Nmap\<close>: \<open>NmapRecon\<close>: the five parsers of nmap's output, the scan methods with
    their demo and error fallbacks, \<open>self.results\<close> and the run of \<open>main\<close>.
  \<^item> \<open>LogGen\<close>: the synthetic-event generator
    (\<open>src/cases_soc-operations/case003_splunk_threat_case_creator/log_generator.py\<close>).
    The generator state of \<open>random.Random\<close> is threaded through every function with
    \<open>HOL-Library.State_Monad\<close>; the generator is an interface (\<open>'r rng\<close>) of its
    seeding and CPython's two primitive draws \<open>_randbelow\<close> and \<open>random()\<close>, with
    \<open>randint\<close>, \<open>choice\<close>, \<open>choices\<close> (and its \<open>bisect_right\<close>) and \<open>shuffle\<close>
    written as \<open>random.py\<close> writes them. \<open>_rand_ip\<close>, \<open>_iso\<close>,
    \<open>generate_windows_events\<close> and \<open>generate_waf_events\<close> (one definition per loop
    body), \<open>parse_args\<close> after argparse, \<open>main\<close> (\<open>gen_events\<close>, \<open>gen_main\<close>)
    and the counters of \<open>print_summary\<close>. A concrete linear congruential generator
    (\<open>demo_rng\<close>) runs the witnesses.

  \<^bold>\<open>What is proved.\<close> C1--C6, the analyzer: the store invariant after any sequence of
  method calls; the incident severity is the maximum finding severity; the brute-force
  rule and the specification's six-against-five scenario; the recommendation policy; the
  IOC check. C7--C14, the v2 detectors: the failed-login detector; exactly when an event
  makes a detector raise; the loop is the concatenation of per-event findings or the first
  exception; v2 refines v1; the report groups partition the findings; the finding
  multiset does not depend on the event order; one null field aborts the run; private
  addresses outside 172.16/16 count as external. C15--C19, EDR: the split is two filters;
  no keyword in a string field is missed; the risk banding; exactly when main crashes;
  field names are searched too. C20--C28, the directory scanner: under every interleaving
  of the workers a completed scan has found each hit once, and the report does not depend
  on the interleaving; the pool drains with at least one thread and deadlocks with none;
  the classification examples of the specification; the report partition; the bounds of
  the printout; the clean wordlist; \<open>urljoin\<close> drops the last segment of the target path.
  C29--C35, nmap: the port parser inverts nmap's port lines; the vulnerability and OS
  parsers; the keys of \<open>self.results\<close>; a superscript digit silently turns a real scan into
  demo data; demo results are never saved; only the last CVE/Risk line of a block is kept.
  C36--C40, the generator, for every generator meeting the contract \<open>rng_ok\<close>: main
  completes and the summary shows an address in both indexes (the correlation the code
  promises); the event counts per index, which exceed the requested counts for small
  arguments; the shuffle is a permutation; the binary search of \<open>choices\<close> equals the
  linear count; every written event has the fields of its source. The lemma
  \<open>remap_splits_burst\<close> shows main's per-event remapping scattering the one-address
  brute-force burst over both attacker addresses.

  \<^bold>\<open>Bounds and fuel.\<close> Every loop of the scripts runs over a finite list of lines,
  events or paths, so every function is structurally recursive or a fold, except
  \<open>split_aux\<close>, whose termination is proved by the length of the rest. The only loop that
  may not end is the worker pool of the directory scanner, a step relation: C22 proves a
  completed state reachable from every state when there is a worker, C23 that none is
  reachable when there is none. \<open>bisect_right\<close> terminates by the measure \<open>hi - lo\<close>.
  The generator's draws are not fuel: each loop of \<open>log_generator.py\<close> runs over a
  \<open>range\<close>, and the rejection loop inside CPython's \<open>_randbelow\<close> is below the
  interface (its contract is that a draw below \<open>n\<close> is below \<open>n\<close>).

  \<^bold>\<open>Not modelled.\<close> Reading files and JSON parsing (the input is the parsed value or the
  list of lines), console printing, writing reports, \<open>argparse\<close>, the HTTP session and
  \<open>time.sleep\<close> of the directory scanner (the responses are an input), the nmap
  subprocesses (their output or exception is an input), \<open>datetime.now()\<close> (an input), the
  Mersenne Twister behind \<open>random.Random\<close> (an interface with a contract), and the
  JSONL writing and reading of the generator (the summary is taken on the events written).
  Float weights of \<open>choices\<close> are exact rationals.
  \<open>urljoin\<close> is modelled for http(s) bases without query and references without dot
  segments. Floats in JSON are not modelled; strings are sequences of code points below 256.
\<close>

end
